theory Spec2Isabelle
  imports Main
begin

section \<open>The untyped error object of the remote call\<close>

text \<open>
  The remote call rejects with a value the source types as \<open>any\<close>. It is modelled as a
  JSON-like value. A number carries an integer (the codes the source compares are
  integers); an object is the list of its own properties.
\<close>

datatype jsval =
    JUndefined
  | JNull
  | JBool bool
  | JNum int
  | JStr string
  | JArr "jsval list"
  | JObj "(string \<times> jsval) list"

datatype js_error = TypeError

text \<open>JavaScript truthiness, as \<open>||\<close>, \<open>if\<close> and \<open>find\<close> read it.\<close>

fun truthy :: "jsval \<Rightarrow> bool" where
  "truthy JUndefined = False"
| "truthy JNull = False"
| "truthy (JBool b) = b"
| "truthy (JNum n) = (n \<noteq> 0)"
| "truthy (JStr s) = (s \<noteq> [])"
| "truthy (JArr xs) = True"
| "truthy (JObj kvs) = True"

definition js_or :: "jsval \<Rightarrow> jsval \<Rightarrow> jsval" where
  "js_or a b = (if truthy a then a else b)"

text \<open>
  \<open>get_prop v k\<close> is \<open>v.k\<close> on a value that is neither null nor undefined, for the property
  names the source reads (\<open>error\<close>, \<open>code\<close>, \<open>status\<close>, \<open>statusMessage\<close>, \<open>details\<close>,
  \<open>@type\<close>, \<open>retryDelay\<close>, \<open>message\<close>): none of them is a built-in property of a string,
  a number, a boolean or an array, so only an object can carry them.
  \<open>opt_prop v k\<close> is the optional chaining \<open>v?.k\<close>.
\<close>

fun get_prop :: "jsval \<Rightarrow> string \<Rightarrow> jsval" where
  "get_prop (JObj kvs) k = (case map_of kvs k of Some v \<Rightarrow> v | None \<Rightarrow> JUndefined)"
| "get_prop v k = JUndefined"

fun opt_prop :: "jsval \<Rightarrow> string \<Rightarrow> jsval" where
  "opt_prop JUndefined k = JUndefined"
| "opt_prop JNull k = JUndefined"
| "opt_prop v k = get_prop v k"

subsection \<open>isQuotaError\<close>

definition isQuotaError :: "jsval \<Rightarrow> bool" where
  "isQuotaError err =
     (let code = js_or (js_or (opt_prop (opt_prop err ''error'') ''code'') (opt_prop err ''status''))
                       (opt_prop err ''code'')
      in if code = JNum 429 then True
         else
           let status = js_or (opt_prop (opt_prop err ''error'') ''status'')
                              (opt_prop err ''statusMessage'')
           in status = JStr ''RESOURCE_EXHAUSTED'')"

subsection \<open>getRetryMsFromError\<close>

text \<open>\<open>String.prototype.includes\<close>: the needle occurs as a contiguous run.\<close>

fun includes_str :: "string \<Rightarrow> string \<Rightarrow> bool" where
  "includes_str [] needle = (needle = [])"
| "includes_str (c # cs) needle =
     (take (length needle) (c # cs) = needle \<or> includes_str cs needle)"

text \<open>
  The callback of \<open>details.find\<close>: \<open>d["@type"]?.includes("RetryInfo")\<close>. Reading a property
  of null or undefined throws; so does calling \<open>includes\<close> on a value that has no such
  method (anything but a string or an array).
\<close>

fun is_retry_info :: "jsval \<Rightarrow> js_error + jsval" where
  "is_retry_info JUndefined = Inl TypeError"
| "is_retry_info JNull = Inl TypeError"
| "is_retry_info d =
     (case get_prop d ''@type'' of
        JUndefined \<Rightarrow> Inr JUndefined
      | JNull \<Rightarrow> Inr JUndefined
      | JStr s \<Rightarrow> Inr (JBool (includes_str s ''RetryInfo''))
      | JArr xs \<Rightarrow> Inr (JBool (JStr ''RetryInfo'' \<in> set xs))
      | _ \<Rightarrow> Inl TypeError)"

text \<open>\<open>Array.prototype.find\<close> with that callback: the first element it accepts, else undefined.\<close>

fun find_detail :: "jsval list \<Rightarrow> js_error + jsval" where
  "find_detail [] = Inr JUndefined"
| "find_detail (d # ds) =
     (case is_retry_info d of
        Inl e \<Rightarrow> Inl e
      | Inr b \<Rightarrow> if truthy b then Inr d else find_detail ds)"

text \<open>
  \<open>RegExp.prototype.exec\<close> converts its argument to a string first. A number prints its
  decimal digits (JavaScript switches to exponent notation from 1e21 on), an array joins
  its elements with commas, printing null and undefined elements as the empty string.
\<close>

definition digit_char :: "nat \<Rightarrow> char" where
  "digit_char d = ''0123456789'' ! (d mod 10)"

function show_nat :: "nat \<Rightarrow> string" where
  "show_nat n = (if n < 10 then [digit_char n] else show_nat (n div 10) @ [digit_char (n mod 10)])"
  by pat_completeness auto
termination
  by (relation "measure id") auto

declare show_nat.simps [simp del]

definition show_int :: "int \<Rightarrow> string" where
  "show_int i = (if i < 0 then CHR ''-'' # show_nat (nat (- i)) else show_nat (nat i))"

fun join_comma :: "string list \<Rightarrow> string" where
  "join_comma [] = []"
| "join_comma [s] = s"
| "join_comma (s # t # ss) = s @ CHR '','' # join_comma (t # ss)"

fun js_to_string :: "jsval \<Rightarrow> string" where
  "js_to_string JUndefined = ''undefined''"
| "js_to_string JNull = ''null''"
| "js_to_string (JBool b) = (if b then ''true'' else ''false'')"
| "js_to_string (JNum n) = show_int n"
| "js_to_string (JStr s) = s"
| "js_to_string (JArr xs) =
     join_comma (map (\<lambda>x. if x = JUndefined \<or> x = JNull then [] else js_to_string x) xs)"
| "js_to_string (JObj kvs) = ''[object Object]''"

text \<open>
  The pattern \<open>/^(\d+)(?:\.(\d+))?s$/\<close>: one or more ASCII digits, optionally a dot and one
  or more digits, then \<open>s\<close> and the end of the string. The result holds group 1 and, when
  it took part in the match, group 2.
\<close>

definition is_digit :: "char \<Rightarrow> bool" where
  "is_digit c = (c \<in> set ''0123456789'')"

definition match_delay :: "string \<Rightarrow> (string \<times> string option) option" where
  "match_delay s =
     (let whole = takeWhile is_digit s; rest = dropWhile is_digit s
      in if whole = [] then None
         else if rest = ''s'' then Some (whole, None)
         else (case rest of
                 [] \<Rightarrow> None
               | c # r2 \<Rightarrow>
                   if c = CHR ''.'' then
                     (let fr = takeWhile is_digit r2; r3 = dropWhile is_digit r2
                      in if fr \<noteq> [] \<and> r3 = ''s'' then Some (whole, Some fr) else None)
                   else None))"

text \<open>
  A JavaScript number is an IEEE 754 double. The numbers the retry delay is computed from
  are whole and not negative, or \<open>+Infinity\<close>: \<open>Finite n\<close> is the double whose value is the
  natural number \<open>n\<close>.
\<close>

datatype number = Finite nat | Infinity

text \<open>
  \<open>to_double n\<close> is the double nearest to \<open>n\<close>, ties to the even significand: a double has
  53 significant bits, and from \<open>2^1024\<close> on the result is \<open>Infinity\<close>.
\<close>

fun bit_length :: "nat \<Rightarrow> nat" where
  "bit_length n = (if n = 0 then 0 else Suc (bit_length (n div 2)))"

declare bit_length.simps [simp del]

definition to_double :: "nat \<Rightarrow> number" where
  "to_double n =
     (if n < 2 ^ 53 then Finite n
      else
        (let e = bit_length n - 53;
             q = n div 2 ^ e;
             r = n mod 2 ^ e;
             q' = (if 2 ^ e < 2 * r \<or> (2 * r = 2 ^ e \<and> odd q) then q + 1 else q)
         in if 2 ^ 1024 \<le> q' * 2 ^ e then Infinity else Finite (q' * 2 ^ e)))"

text \<open>
  The two operations of the source on these numbers: \<open>x * c\<close> for a whole factor \<open>c\<close> of at
  least 1 that is itself a double (1000, and \<open>Math.pow(2, attempt - 1)\<close>), and \<open>x + y\<close>.
  Each rounds the exact result.
\<close>

fun num_times :: "number \<Rightarrow> nat \<Rightarrow> number" where
  "num_times (Finite a) c = to_double (a * c)"
| "num_times Infinity c = Infinity"

fun num_add :: "number \<Rightarrow> number \<Rightarrow> number" where
  "num_add (Finite a) (Finite b) = to_double (a + b)"
| "num_add x y = Infinity"

text \<open>
  \<open>parseInt(ds, 10)\<close> on a string of digits: the double nearest to the number the digits
  write.
\<close>

definition digit_val :: "char \<Rightarrow> nat" where
  "digit_val c = (of_char c - 48) mod 10"

definition digits_value :: "string \<Rightarrow> nat" where
  "digits_value ds = foldl (\<lambda>a c. 10 * a + digit_val c) 0 ds"

definition parseInt10 :: "string \<Rightarrow> number" where
  "parseInt10 ds = to_double (digits_value ds)"

definition padEnd3 :: "string \<Rightarrow> string" where
  "padEnd3 s = s @ replicate (3 - length s) CHR ''0''"

text \<open>
  The body of the \<open>try\<close> block: \<open>Inl\<close> when it throws, \<open>Inr None\<close> when it falls through to
  the end of the block, \<open>Inr (Some ms)\<close> when it returns from inside.
\<close>

definition retry_hint :: "jsval \<Rightarrow> js_error + number option" where
  "retry_hint err =
     (let details = js_or (opt_prop (opt_prop err ''error'') ''details'') (JArr [])
      in case details of
           JArr ds \<Rightarrow>
             (case find_detail ds of
                Inl e \<Rightarrow> Inl e
              | Inr retry \<Rightarrow>
                  if truthy (opt_prop retry ''retryDelay'') then
                    (case match_delay (js_to_string (get_prop retry ''retryDelay'')) of
                       Some (m1, m2) \<Rightarrow>
                         (let sec = parseInt10 m1;
                              frac = (case m2 of
                                        Some f \<Rightarrow> parseInt10 (padEnd3 (take 3 f))
                                      | None \<Rightarrow> Finite 0)
                          in Inr (Some (num_add (num_times sec 1000) frac)))
                     | None \<Rightarrow> Inr None)
                  else Inr None)
         | _ \<Rightarrow> Inl TypeError)"

text \<open>
  The function itself: what the \<open>try\<close> block returns, else (the block ended, or it threw
  and the empty \<open>catch\<close> took the exception) the fallback.
\<close>

definition getRetryMsFromError :: "jsval \<Rightarrow> number \<Rightarrow> number" where
  "getRetryMsFromError err fallbackMs =
     (case retry_hint err of
        Inr (Some ms) \<Rightarrow> ms
      | Inr None \<Rightarrow> fallbackMs
      | Inl e \<Rightarrow> fallbackMs)"

section \<open>State, effects and asynchronous tasks\<close>

subsection \<open>Data\<close>

text \<open>
  \<open>OutfitGenerationResult\<close>, the item and file objects the hook reads, the cache entries of
  \<open>cacheRef\<close> and the rate limiter's decision. Of a \<open>File\<close> the source reads the name and
  the size; a file built by \<open>dataUrlToFile\<close> is used through its name only.
\<close>

record OutfitGenerationResult =
  success :: bool
  imageUrl :: "string option"
  res_error :: "string option"

record ClothingItem =
  item_id :: string
  item_imageUrl :: string

record File =
  file_name :: string
  file_size :: nat

record cache_entry =
  url :: string
  composite :: bool

record RateLimitResult =
  allowed :: bool
  reason :: "string option"

text \<open>
  A content part of the remote response: its \<open>text\<close> and its \<open>inlineData.data\<close>, each
  possibly absent. A successful remote call answers with the list
  \<open>resp.candidates?.[0]?.content?.parts || []\<close>.
\<close>

record part =
  part_text :: "string option"
  inline_data :: "string option"

text \<open>What the storage client answers: \<open>{data, error}\<close> with one of the two set.\<close>

datatype 'a sb_response = SbError string | SbData 'a

text \<open>
  Every call that leaves the two source files is written to a trace, in order: the awaited
  calls when they are issued, the synchronous ones (rate limiter, object URLs) when made.
\<close>

datatype event =
    EvSelect string string
  | EvFetch "string list"
  | EvRemote nat
  | EvSleep number
  | EvUpload string string
  | EvUpsert string string string
  | EvInsert string string
  | EvComposite string string
  | EvRateCheck
  | EvRecordCall
  | EvGetStatus
  | EvCreateObjectURL string
  | EvRevokeObjectURL string

text \<open>
  The page-wide state of the generator service: the three maps kept on \<open>window\<close> (an
  absent map reads as the empty one the source creates), the trace and the lines written
  with \<open>console.error\<close> and \<open>console.warn\<close>.
\<close>

record globals =
  outfitCache :: "string \<rightharpoonup> string"
  nanoCache :: "string \<rightharpoonup> string"
  transferCache :: "string \<rightharpoonup> string"
  trace :: "event list"
  console :: "string list"

text \<open>The state of \<open>useOutfitGeneration\<close>: its two refs and its React state.\<close>

record hook =
  inFlight :: bool
  cacheRef :: "string \<rightharpoonup> cache_entry"
  generatedImage :: "string option"
  isGenerating :: bool
  error :: "string option"
  isComposite :: bool
  glob :: globals

text \<open>
  What a call reads synchronously from outside the two source files: the configured API
  key, \<open>JSON.stringify\<close>, the rate limiter's answer to \<open>canMakeCall()\<close>, the clock, whether
  \<open>atob\<close> accepts a string, the public URL the storage client derives from a path, and
  the object URL the browser hands out for a file.
\<close>

record platform =
  apiKey :: string
  stringify :: "jsval \<Rightarrow> string"
  canMakeCall :: RateLimitResult
  now :: nat
  atob_ok :: "string \<Rightarrow> bool"
  publicUrl :: "string \<Rightarrow> string"
  createObjectURL :: "File \<Rightarrow> string"

subsection \<open>Tasks\<close>

text \<open>
  An \<open>async\<close> function is a task: it has returned, or it is suspended at an \<open>await\<close> with
  the state it left behind and a continuation that takes the awaited answer and the
  state found on resumption. One constructor per awaited call:
  the composite lookup, loading the reference images (\<open>None\<close>: a load threw), the remote
  generation (\<open>Inl\<close>: it threw that error), the back-off timer, the blob upload, the
  composite upsert, the record insert and the local compositing (\<open>Inl\<close>: it threw).
\<close>

datatype ('s, 'a) task =
    Return 'a 's
  | AwaitSelect 's string string "string option sb_response \<Rightarrow> 's \<Rightarrow> ('s, 'a) task"
  | AwaitFetch 's "string list" "string list option \<Rightarrow> 's \<Rightarrow> ('s, 'a) task"
  | AwaitRemote 's nat "string list" "jsval + part list \<Rightarrow> 's \<Rightarrow> ('s, 'a) task"
  | AwaitSleep 's number "unit \<Rightarrow> 's \<Rightarrow> ('s, 'a) task"
  | AwaitUpload 's string string "string sb_response \<Rightarrow> 's \<Rightarrow> ('s, 'a) task"
  | AwaitUpsert 's string string string "unit sb_response \<Rightarrow> 's \<Rightarrow> ('s, 'a) task"
  | AwaitInsert 's string string "unit sb_response \<Rightarrow> 's \<Rightarrow> ('s, 'a) task"
  | AwaitComposite 's string string "string + OutfitGenerationResult \<Rightarrow> 's \<Rightarrow> ('s, 'a) task"

text \<open>
  Sequencing: \<open>bind t f\<close> continues with \<open>f\<close> once \<open>t\<close> has returned. Awaiting a
  function of the two source files that returns without reaching an awaited call of its
  own is not a suspension: JavaScript yields there to already queued continuations only,
  and the state is as the function left it.
\<close>

primrec bind :: "('s, 'a) task \<Rightarrow> ('a \<Rightarrow> 's \<Rightarrow> ('s, 'b) task) \<Rightarrow> ('s, 'b) task" where
  "bind (Return a s) f = f a s"
| "bind (AwaitSelect s t b k) f = AwaitSelect s t b (\<lambda>r s'. bind (k r s') f)"
| "bind (AwaitFetch s ps k) f = AwaitFetch s ps (\<lambda>r s'. bind (k r s') f)"
| "bind (AwaitRemote s n c k) f = AwaitRemote s n c (\<lambda>r s'. bind (k r s') f)"
| "bind (AwaitSleep s ms k) f = AwaitSleep s ms (\<lambda>r s'. bind (k r s') f)"
| "bind (AwaitUpload s bk fn k) f = AwaitUpload s bk fn (\<lambda>r s'. bind (k r s') f)"
| "bind (AwaitUpsert s t b u k) f = AwaitUpsert s t b u (\<lambda>r s'. bind (k r s') f)"
| "bind (AwaitInsert s u src k) f = AwaitInsert s u src (\<lambda>r s'. bind (k r s') f)"
| "bind (AwaitComposite s t b k) f = AwaitComposite s t b (\<lambda>r s'. bind (k r s') f)"

text \<open>
  The service works on the page-wide state only; the hook calls it with its own state
  around it. \<open>lift t h\<close> runs the service task \<open>t\<close> inside the hook state \<open>h\<close>.
\<close>

primrec lift :: "(globals, 'a) task \<Rightarrow> hook \<Rightarrow> (hook, 'a) task" where
  "lift (Return a g) = (\<lambda>h. Return a (h\<lparr>glob := g\<rparr>))"
| "lift (AwaitSelect g t b k) =
     (\<lambda>h. AwaitSelect (h\<lparr>glob := g\<rparr>) t b (\<lambda>r h'. lift (k r (glob h')) h'))"
| "lift (AwaitFetch g ps k) =
     (\<lambda>h. AwaitFetch (h\<lparr>glob := g\<rparr>) ps (\<lambda>r h'. lift (k r (glob h')) h'))"
| "lift (AwaitRemote g n c k) =
     (\<lambda>h. AwaitRemote (h\<lparr>glob := g\<rparr>) n c (\<lambda>r h'. lift (k r (glob h')) h'))"
| "lift (AwaitSleep g ms k) =
     (\<lambda>h. AwaitSleep (h\<lparr>glob := g\<rparr>) ms (\<lambda>r h'. lift (k r (glob h')) h'))"
| "lift (AwaitUpload g bk fn k) =
     (\<lambda>h. AwaitUpload (h\<lparr>glob := g\<rparr>) bk fn (\<lambda>r h'. lift (k r (glob h')) h'))"
| "lift (AwaitUpsert g t b u k) =
     (\<lambda>h. AwaitUpsert (h\<lparr>glob := g\<rparr>) t b u (\<lambda>r h'. lift (k r (glob h')) h'))"
| "lift (AwaitInsert g u src k) =
     (\<lambda>h. AwaitInsert (h\<lparr>glob := g\<rparr>) u src (\<lambda>r h'. lift (k r (glob h')) h'))"
| "lift (AwaitComposite g t b k) =
     (\<lambda>h. AwaitComposite (h\<lparr>glob := g\<rparr>) t b (\<lambda>r h'. lift (k r (glob h')) h'))"

text \<open>
  Running one task to its end against a world that answers every awaited call. The
  remote generation is answered by attempt number, so that each attempt of one operation
  can fail or succeed on its own.
\<close>

record world =
  db_select :: "string \<Rightarrow> string \<Rightarrow> string option sb_response"
  fetch :: "string list \<Rightarrow> string list option"
  remote :: "nat \<Rightarrow> jsval + part list"
  storage_upload :: "string \<Rightarrow> string \<Rightarrow> string sb_response"
  db_upsert :: "string \<Rightarrow> string \<Rightarrow> string \<Rightarrow> unit sb_response"
  db_insert :: "string \<Rightarrow> string \<Rightarrow> unit sb_response"
  createComposite :: "string \<Rightarrow> string \<Rightarrow> string + OutfitGenerationResult"

primrec run :: "world \<Rightarrow> ('s, 'a) task \<Rightarrow> 'a \<times> 's" where
  "run w (Return a s) = (a, s)"
| "run w (AwaitSelect s t b k) = run w (k (db_select w t b) s)"
| "run w (AwaitFetch s ps k) = run w (k (fetch w ps) s)"
| "run w (AwaitRemote s n c k) = run w (k (remote w n) s)"
| "run w (AwaitSleep s ms k) = run w (k () s)"
| "run w (AwaitUpload s bk fn k) = run w (k (storage_upload w bk fn) s)"
| "run w (AwaitUpsert s t b u k) = run w (k (db_upsert w t b u) s)"
| "run w (AwaitInsert s u src k) = run w (k (db_insert w u src) s)"
| "run w (AwaitComposite s t b k) = run w (k (createComposite w t b) s)"

subsection \<open>Small helpers of the embedding\<close>

definition emit :: "event \<Rightarrow> globals \<Rightarrow> globals" where
  "emit e g = g\<lparr>trace := trace g @ [e]\<rparr>"

definition log_line :: "string \<Rightarrow> globals \<Rightarrow> globals" where
  "log_line m g = g\<lparr>console := console g @ [m]\<rparr>"

text \<open>A string is truthy when it is not empty; an absent one is not.\<close>

definition truthy_str :: "string option \<Rightarrow> bool" where
  "truthy_str x = (case x of Some v \<Rightarrow> v \<noteq> [] | None \<Rightarrow> False)"

fun join_with :: "string \<Rightarrow> string list \<Rightarrow> string" where
  "join_with sep [] = []"
| "join_with sep [s] = s"
| "join_with sep (s # t # ss) = s @ sep @ join_with sep (t # ss)"

fun split_on :: "char \<Rightarrow> string \<Rightarrow> string list" where
  "split_on c [] = [[]]"
| "split_on c (x # xs) =
     (if x = c then [] # split_on c xs
      else (case split_on c xs of
              [] \<Rightarrow> [[x]]
            | y # ys \<Rightarrow> (x # y) # ys))"

section \<open>The storage module (src/lib/supabase.ts)\<close>

definition GENERATED :: string where
  "GENERATED = ''generated-outfits''"

definition uploadImage :: "platform \<Rightarrow> string \<Rightarrow> string \<Rightarrow> globals \<Rightarrow> (globals, string + string) task" where
  "uploadImage p bucketName fileName g =
     AwaitUpload (emit (EvUpload bucketName fileName) g) bucketName fileName
       (\<lambda>r g. case r of
                 SbError e \<Rightarrow> Return (Inl e) (log_line ''Error uploading image:'' g)
               | SbData path \<Rightarrow> Return (Inr (publicUrl p path)) g)"

definition pairKey :: "string \<Rightarrow> string \<Rightarrow> string" where
  "pairKey topId bottomId = topId @ ''__'' @ bottomId"

definition getCachedComposite :: "string \<Rightarrow> string \<Rightarrow> globals \<Rightarrow> (globals, string option) task" where
  "getCachedComposite topId bottomId g =
     AwaitSelect (emit (EvSelect topId bottomId) g) topId bottomId
       (\<lambda>r g. case r of
                 SbError e \<Rightarrow> Return None (log_line ''Error fetching cached composite:'' g)
               | SbData d \<Rightarrow> Return (if truthy_str d then d else None) g)"

definition saveCachedComposite ::
  "string \<Rightarrow> string \<Rightarrow> string \<Rightarrow> globals \<Rightarrow> (globals, string + unit) task" where
  "saveCachedComposite topId bottomId generatedImageUrl g =
     AwaitUpsert (emit (EvUpsert topId bottomId generatedImageUrl) g) topId bottomId generatedImageUrl
       (\<lambda>r g. case r of
                 SbError e \<Rightarrow> Return (Inl e) (log_line ''Error saving cached composite:'' g)
               | SbData u \<Rightarrow> Return (Inr ()) g)"

definition saveGeneratedOutfit :: "string \<Rightarrow> string \<Rightarrow> globals \<Rightarrow> (globals, string + unit) task" where
  "saveGeneratedOutfit generatedImageUrl generatorSource g =
     AwaitInsert (emit (EvInsert generatedImageUrl generatorSource) g) generatedImageUrl generatorSource
       (\<lambda>r g. case r of
                 SbError e \<Rightarrow> Return (Inl e) (log_line ''Error saving generated outfit:'' g)
               | SbData u \<Rightarrow> Return (Inr ()) g)"

section \<open>The generator service\<close>

definition MODEL :: string where
  "MODEL = ''gemini-2.5-flash-image-preview''"

definition DEFAULT_BODY_PATH :: string where
  "DEFAULT_BODY_PATH = ''/assets/model.png''"

definition CACHE_PREFIX :: string where
  "CACHE_PREFIX = ''outfit_''"

definition cacheKeyFor :: "string \<Rightarrow> string \<Rightarrow> string \<Rightarrow> string \<Rightarrow> string" where
  "cacheKeyFor topPath bottomPath bodyPath prompt =
     CACHE_PREFIX @ MODEL @ ''|'' @ topPath @ ''|'' @ bottomPath @ ''|'' @ bodyPath
       @ ''|v1:'' @ show_nat (length prompt)"

definition buildPrompt :: string where
  "buildPrompt = ''Create a new image by combining the elements from the provided images. Take the top clothing item from image 1 and the bottom clothing item from image 2, and place them naturally onto the body in image 3 so it looks like the person is wearing the selected outfit. Fit to body shape and pose, preserve garment proportions and textures, match lighting and shadows, handle occlusion by hair and arms. CRITICAL: The background must be completely white (#FFFFFF) - do not use black, transparent, or any other background color. Replace any existing background with solid white. Do not change the person identity or add accessories.''"

text \<open>
  \<open>dataUrlToFile\<close> of the service: \<open>atob\<close> of the second comma-separated piece throws on a
  string that is not base64 (an absent piece reads as the text \<open>undefined\<close>, which it
  rejects). The result stands for the file through its name.
\<close>

definition dataUrlToFile :: "platform \<Rightarrow> string \<Rightarrow> string \<Rightarrow> string + string" where
  "dataUrlToFile p dataUrl filename =
     (case split_on CHR '','' dataUrl of
        a # b # rest \<Rightarrow> if atob_ok p b then Inr filename else Inl ''InvalidCharacterError''
      | _ \<Rightarrow> Inl ''InvalidCharacterError'')"

definition ok_result :: "string \<Rightarrow> OutfitGenerationResult" where
  "ok_result u = \<lparr>success = True, imageUrl = Some u, res_error = None\<rparr>"

definition fail_result :: "string \<Rightarrow> OutfitGenerationResult" where
  "fail_result m = \<lparr>success = False, imageUrl = None, res_error = Some m\<rparr>"

definition NO_KEY :: string where
  "NO_KEY = ''Set VITE_GOOGLE_API_KEY and enable billing for image generation.''"

text \<open>\<open>typeof err?.message === "string" ? err.message : JSON.stringify(err)\<close>\<close>

definition error_message :: "platform \<Rightarrow> jsval \<Rightarrow> string" where
  "error_message p err =
     (case opt_prop err ''message'' of
        JStr m \<Rightarrow> m
      | _ \<Rightarrow> stringify p err)"

definition maxAttempts :: nat where
  "maxAttempts = 3"

text \<open>
  The retry loop, which the three internal functions contain word for word (lines
  155-173, 242-260 and 324-342). It ends with \<open>Inr resp\<close> at the \<open>break\<close>, and with
  \<open>Inl result\<close> where the enclosing function returns from inside the loop.
  \<open>Math.pow(2, attempt - 1)\<close> is exactly 1 or 2, and \<open>Math.round\<close> is the identity on a
  whole number and on \<open>Infinity\<close>.
\<close>

function callWithRetry ::
  "platform \<Rightarrow> string list \<Rightarrow> nat \<Rightarrow> globals \<Rightarrow> (globals, OutfitGenerationResult + part list) task" where
  "callWithRetry p contents attempt g =
     AwaitRemote (emit (EvRemote attempt) g) attempt contents
       (\<lambda>out g. case out of
                   Inr resp \<Rightarrow> Return (Inr resp) g
                 | Inl err \<Rightarrow>
                     if \<not> isQuotaError err \<or> attempt \<ge> maxAttempts - 1 then
                       Return (Inl (fail_result (''Gemini API error. '' @ error_message p err))) g
                     else
                       (let attempt' = attempt + 1;
                            base = getRetryMsFromError err (Finite 20000);
                            waitMs = num_times base (2 ^ (attempt' - 1))
                        in AwaitSleep (emit (EvSleep waitMs) g) waitMs
                             (\<lambda>u g. callWithRetry p contents attempt' g)))"
  by pat_completeness auto
termination
  by (relation "measure (\<lambda>(p, contents, attempt, g). maxAttempts - attempt)")
     (auto simp: maxAttempts_def)

declare callWithRetry.simps [simp del]

text \<open>
  Reading the image out of the response (the same lines in the three functions):
  \<open>Inl\<close> the failure the function returns, \<open>Inr\<close> the data URL.
\<close>

definition extractImage :: "part list \<Rightarrow> OutfitGenerationResult + string" where
  "extractImage parts =
     (case find (\<lambda>q. truthy_str (inline_data q)) parts of
        None \<Rightarrow>
          (let joined = join_with [CHR 0x0A] (filter (\<lambda>t. t \<noteq> []) (List.map_filter part_text parts));
               msg = (if joined \<noteq> [] then joined else ''No image data returned'')
           in Inl (fail_result (''Gemini did not return an image. '' @ msg)))
      | Some imagePart \<Rightarrow>
          (case inline_data imagePart of
             None \<Rightarrow> Inl (fail_result ''No image data in response'')
           | Some d \<Rightarrow>
               if d = [] then Inl (fail_result ''No image data in response'')
               else Inr (''data:image/png;base64,'' @ d)))"

text \<open>
  Saving a generated pair to storage (lines 123-137 and 194-209): the \<open>try\<close> block
  uploads the file and upserts the pair; whatever it throws is logged and the data URL
  is returned instead.
\<close>

definition saveToStorage ::
  "platform \<Rightarrow> string \<Rightarrow> string \<Rightarrow> string \<Rightarrow> globals \<Rightarrow> (globals, OutfitGenerationResult) task" where
  "saveToStorage p topId bottomId dataUrl g =
     (let fallback = (\<lambda>g. Return (ok_result dataUrl) (log_line ''Error saving to Supabase:'' g)) in
      case dataUrlToFile p dataUrl
             (''outfit_'' @ topId @ ''_'' @ bottomId @ ''_'' @ show_nat (now p) @ ''.png'') of
        Inl e \<Rightarrow> fallback g
      | Inr fileName \<Rightarrow>
          bind (uploadImage p GENERATED fileName g)
            (\<lambda>up g. case up of
                      Inl e \<Rightarrow> fallback g
                    | Inr storageUrl \<Rightarrow>
                        bind (saveCachedComposite topId bottomId storageUrl g)
                          (\<lambda>sv g. case sv of
                                    Inl e \<Rightarrow> fallback g
                                  | Inr u \<Rightarrow> Return (ok_result storageUrl) g)))"

text \<open>
  The internal functions return a task whose value is \<open>Inl\<close> when the promise rejects
  (a reference image failed to load) and \<open>Inr\<close> the result otherwise. \<open>topId\<close> and
  \<open>bottomId\<close> are optional parameters.
\<close>

definition generateOutfitInternal ::
  "platform \<Rightarrow> string \<Rightarrow> string \<Rightarrow> string \<Rightarrow> string option \<Rightarrow> string option \<Rightarrow> globals
     \<Rightarrow> (globals, string + OutfitGenerationResult) task" where
  "generateOutfitInternal p topPath bottomPath bodyPath topId bottomId g =
     (if apiKey p = [] then Return (Inr (fail_result NO_KEY)) g
      else
        bind (if truthy_str topId \<and> truthy_str bottomId
              then getCachedComposite (the topId) (the bottomId) g
              else Return None g)
          (\<lambda>cachedUrl g.
             case cachedUrl of
               Some u \<Rightarrow> Return (Inr (ok_result u)) g
             | None \<Rightarrow>
                 (let prompt = buildPrompt;
                      key = cacheKeyFor topPath bottomPath bodyPath prompt
                  in case outfitCache g key of
                       Some dataUrl \<Rightarrow>
                         if truthy_str topId \<and> truthy_str bottomId
                         then bind (saveToStorage p (the topId) (the bottomId) dataUrl g)
                                (\<lambda>r g. Return (Inr r) g)
                         else Return (Inr (ok_result dataUrl)) g
                     | None \<Rightarrow>
                         AwaitFetch (emit (EvFetch [topPath, bottomPath, bodyPath]) g)
                           [topPath, bottomPath, bodyPath]
                           (\<lambda>loaded g.
                              case loaded of
                                None \<Rightarrow> Return (Inl ''Failed to load'') g
                              | Some b64 \<Rightarrow>
                                  bind (callWithRetry p (prompt # b64) 0 g)
                                    (\<lambda>r g.
                                       case r of
                                         Inl res \<Rightarrow> Return (Inr res) g
                                       | Inr resp \<Rightarrow>
                                           (case extractImage resp of
                                              Inl res \<Rightarrow> Return (Inr res) g
                                            | Inr dataUrl \<Rightarrow>
                                                (let g = g\<lparr>outfitCache := (outfitCache g)(key \<mapsto> dataUrl)\<rparr>
                                                 in if truthy_str topId \<and> truthy_str bottomId
                                                    then bind (saveToStorage p (the topId) (the bottomId) dataUrl g)
                                                           (\<lambda>r g. Return (Inr r) g)
                                                    else Return (Inr (ok_result dataUrl)) g)))))))"

definition generateNanoOutfitInternal ::
  "platform \<Rightarrow> string \<Rightarrow> string \<Rightarrow> globals \<Rightarrow> (globals, string + OutfitGenerationResult) task" where
  "generateNanoOutfitInternal p bodyPath customPrompt g =
     (if apiKey p = [] then Return (Inr (fail_result NO_KEY)) g
      else
        (let key = ''nano_'' @ MODEL @ ''|'' @ bodyPath @ ''|v1:'' @ show_nat (length customPrompt)
         in case nanoCache g key of
              Some dataUrl \<Rightarrow> Return (Inr (ok_result dataUrl)) g
            | None \<Rightarrow>
                AwaitFetch (emit (EvFetch [bodyPath]) g) [bodyPath]
                  (\<lambda>loaded g.
                     case loaded of
                       None \<Rightarrow> Return (Inl ''Failed to load'') g
                     | Some b64 \<Rightarrow>
                         bind (callWithRetry p (customPrompt # b64) 0 g)
                           (\<lambda>r g.
                              case r of
                                Inl res \<Rightarrow> Return (Inr res) g
                              | Inr resp \<Rightarrow>
                                  (case extractImage resp of
                                     Inl res \<Rightarrow> Return (Inr res) g
                                   | Inr dataUrl \<Rightarrow>
                                       Return (Inr (ok_result dataUrl))
                                         (g\<lparr>nanoCache := (nanoCache g)(key \<mapsto> dataUrl)\<rparr>))))))"

definition transferPrompt :: string where
  "transferPrompt = ''Using the provided images, place the outfit from image 2 onto the person in image 1. Keep the face, body shape, and background of image 1 completely unchanged. Ensure the outfit integrates naturally with the model'' @ [CHR 0x27] @ ''s body shape, pose, and lighting. CRITICAL: The background must be completely white (#FFFFFF) - do not use black, transparent, or any other background color. Do not change the person identity or add accessories.''"

definition generateOutfitTransferInternal ::
  "platform \<Rightarrow> string \<Rightarrow> string \<Rightarrow> globals \<Rightarrow> (globals, string + OutfitGenerationResult) task" where
  "generateOutfitTransferInternal p inspirationImagePath bodyPath g =
     (if apiKey p = [] then Return (Inr (fail_result NO_KEY)) g
      else
        (let key = ''transfer_'' @ MODEL @ ''|'' @ inspirationImagePath @ ''|'' @ bodyPath
                     @ ''|v1:'' @ show_nat (length transferPrompt)
         in case transferCache g key of
              Some dataUrl \<Rightarrow> Return (Inr (ok_result dataUrl)) g
            | None \<Rightarrow>
                AwaitFetch (emit (EvFetch [bodyPath, inspirationImagePath]) g)
                  [bodyPath, inspirationImagePath]
                  (\<lambda>loaded g.
                     case loaded of
                       None \<Rightarrow> Return (Inl ''Failed to load'') g
                     | Some b64 \<Rightarrow>
                         bind (callWithRetry p (transferPrompt # b64) 0 g)
                           (\<lambda>r g.
                              case r of
                                Inl res \<Rightarrow> Return (Inr res) g
                              | Inr resp \<Rightarrow>
                                  (case extractImage resp of
                                     Inl res \<Rightarrow> Return (Inr res) g
                                   | Inr dataUrl \<Rightarrow>
                                       Return (Inr (ok_result dataUrl))
                                         (g\<lparr>transferCache := (transferCache g)(key \<mapsto> dataUrl)\<rparr>))))))"

text \<open>The methods of the exported \<open>OutfitGenerator\<close> instance.\<close>

definition nanoPrompt :: "string \<Rightarrow> string" where
  "nanoPrompt occasion =
     ''Using the provided image of a model, please add an outfit to the model that would work in this occasion: ''
     @ occasion
     @ ''. Ensure the outfit integrates naturally with the model'' @ [CHR 0x27]
     @ ''s body shape, pose, and lighting. Keep the background plain white so the focus stays on the model and the outfit.''"

definition OutfitGenerator_generateOutfit ::
  "platform \<Rightarrow> string \<Rightarrow> string \<Rightarrow> string \<Rightarrow> string option \<Rightarrow> string option \<Rightarrow> globals
     \<Rightarrow> (globals, string + OutfitGenerationResult) task" where
  "OutfitGenerator_generateOutfit p topPath bottomPath bodyPath topId bottomId g =
     generateOutfitInternal p topPath bottomPath bodyPath topId bottomId g"

definition OutfitGenerator_generateNanoOutfit ::
  "platform \<Rightarrow> string \<Rightarrow> string \<Rightarrow> globals \<Rightarrow> (globals, string + OutfitGenerationResult) task" where
  "OutfitGenerator_generateNanoOutfit p occasion bodyPath g =
     generateNanoOutfitInternal p bodyPath (nanoPrompt occasion) g"

definition OutfitGenerator_generateOutfitTransfer ::
  "platform \<Rightarrow> string \<Rightarrow> string \<Rightarrow> globals \<Rightarrow> (globals, string + OutfitGenerationResult) task" where
  "OutfitGenerator_generateOutfitTransfer p inspirationImagePath bodyPath g =
     generateOutfitTransferInternal p inspirationImagePath bodyPath g"

section \<open>The hook useOutfitGeneration\<close>

definition hemit :: "event \<Rightarrow> hook \<Rightarrow> hook" where
  "hemit e h = h\<lparr>glob := emit e (glob h)\<rparr>"

definition hlog :: "string \<Rightarrow> hook \<Rightarrow> hook" where
  "hlog m h = h\<lparr>glob := log_line m (glob h)\<rparr>"

definition IN_FLIGHT_WARNING :: string where
  "IN_FLIGHT_WARNING = ''Generate already in flight. Ignoring duplicate click.''"

text \<open>
  \<open>dataUrlToFile\<close> of the hook: an absent second piece is read as the empty string
  before it goes to \<open>atob\<close>.
\<close>

definition hook_dataUrlToFile :: "platform \<Rightarrow> string \<Rightarrow> string \<Rightarrow> string + string" where
  "hook_dataUrlToFile p dataUrl filename =
     (let base64 = (case split_on CHR '','' dataUrl of a # b # rest \<Rightarrow> b | _ \<Rightarrow> [])
      in if atob_ok p base64 then Inr filename else Inl ''InvalidCharacterError'')"

text \<open>\<open>rateLimitCheck.reason || "Rate limit exceeded"\<close>\<close>

definition denial_message :: "RateLimitResult \<Rightarrow> string" where
  "denial_message d = (if truthy_str (reason d) then the (reason d) else ''Rate limit exceeded'')"

text \<open>The \<open>finally\<close> block shared by the three callbacks, up to the flag.\<close>

definition finish :: "hook \<Rightarrow> hook" where
  "finish h = h\<lparr>isGenerating := False, inFlight := False\<rparr>"

text \<open>A \<open>catch\<close> block: the error is logged and replaced by a fixed message.\<close>

definition caught :: "string \<Rightarrow> string \<Rightarrow> hook \<Rightarrow> hook" where
  "caught logged shown h =
     (hlog logged h)\<lparr>error := Some shown, generatedImage := None, isComposite := False\<rparr>"

definition generateOutfit :: "platform \<Rightarrow> ClothingItem \<Rightarrow> ClothingItem \<Rightarrow> hook \<Rightarrow> (hook, unit) task" where
  "generateOutfit p top_item bottom_item h =
     (if inFlight h then Return () (hlog IN_FLIGHT_WARNING h)
      else
        (let h = h\<lparr>inFlight := True\<rparr>;
             key = ''outfit::'' @ item_id top_item @ ''::'' @ item_id bottom_item
         in case cacheRef h key of
              Some cached \<Rightarrow>
                Return () (h\<lparr>generatedImage := Some (url cached), isComposite := composite cached,
                             error := None, inFlight := False\<rparr>)
            | None \<Rightarrow>
                (let h = hemit EvRateCheck h;
                     rateLimitCheck = canMakeCall p
                 in if \<not> allowed rateLimitCheck then
                      Return () ((hlog ''Rate limit exceeded:'' h)
                                   \<lparr>error := Some (denial_message rateLimitCheck),
                                    generatedImage := None, isComposite := False, inFlight := False\<rparr>)
                    else
                      (let h = h\<lparr>isGenerating := True, error := None, isComposite := False\<rparr>;
                           h = hemit EvRecordCall h;
                           h = hemit EvGetStatus h;
                           failed = (\<lambda>h. Return () (finish (caught ''Failed to generate outfit:''
                                       ''Failed to generate outfit. Please try again.'' h)))
                       in bind (lift (OutfitGenerator_generateOutfit p (item_imageUrl top_item)
                                        (item_imageUrl bottom_item) DEFAULT_BODY_PATH
                                        (Some (item_id top_item)) (Some (item_id bottom_item)) (glob h)) h)
                            (\<lambda>r h.
                               case r of
                                 Inl e \<Rightarrow> failed h
                               | Inr result \<Rightarrow>
                                   if success result \<and> truthy_str (imageUrl result) then
                                     Return () (finish (h\<lparr>generatedImage := imageUrl result,
                                        isComposite := False,
                                        cacheRef := (cacheRef h)(key \<mapsto>
                                          \<lparr>url = the (imageUrl result), composite = False\<rparr>)\<rparr>))
                                   else
                                     AwaitComposite
                                       (hemit (EvComposite (item_imageUrl top_item) (item_imageUrl bottom_item)) h)
                                       (item_imageUrl top_item) (item_imageUrl bottom_item)
                                       (\<lambda>c h.
                                          case c of
                                            Inl e \<Rightarrow> failed h
                                          | Inr compositeResult \<Rightarrow>
                                              if success compositeResult
                                                 \<and> truthy_str (imageUrl compositeResult) then
                                                Return () (finish (h\<lparr>
                                                  generatedImage := imageUrl compositeResult,
                                                  isComposite := True,
                                                  error := Some ''Using composite image (AI generation unavailable)'',
                                                  cacheRef := (cacheRef h)(key \<mapsto>
                                                    \<lparr>url = the (imageUrl compositeResult),
                                                     composite = True\<rparr>)\<rparr>))
                                              else failed h))))))"

text \<open>
  Lines 1129-1137 and 1221-1229: a data URL is turned into a file and uploaded, the
  final URL is inserted as a generated-outfit record. \<open>Inl\<close> when one of the steps throws,
  \<open>Inr\<close> the final URL.
\<close>

definition uploadAndRecord ::
  "platform \<Rightarrow> string \<Rightarrow> string \<Rightarrow> string \<Rightarrow> hook \<Rightarrow> (hook, string + string) task" where
  "uploadAndRecord p namePrefix generatorSource resultUrl h =
     bind (if take 5 resultUrl = ''data:'' then
             (case hook_dataUrlToFile p resultUrl (namePrefix @ show_nat (now p) @ ''.png'') of
                Inl e \<Rightarrow> Return (Inl e) h
              | Inr fileName \<Rightarrow> lift (uploadImage p GENERATED fileName (glob h)) h)
           else Return (Inr resultUrl) h)
       (\<lambda>up h.
          case up of
            Inl e \<Rightarrow> Return (Inl e) h
          | Inr finalUrl \<Rightarrow>
              bind (lift (saveGeneratedOutfit finalUrl generatorSource (glob h)) h)
                (\<lambda>sv h. case sv of
                          Inl e \<Rightarrow> Return (Inl e) h
                        | Inr u \<Rightarrow> Return (Inr finalUrl) h))"

definition generateNanoOutfit :: "platform \<Rightarrow> string \<Rightarrow> hook \<Rightarrow> (hook, unit) task" where
  "generateNanoOutfit p occasion h =
     (if inFlight h then Return () (hlog IN_FLIGHT_WARNING h)
      else
        (let h = h\<lparr>inFlight := True\<rparr>;
             key = ''nano::'' @ occasion
         in case cacheRef h key of
              Some cached \<Rightarrow>
                Return () (h\<lparr>generatedImage := Some (url cached), isComposite := False,
                             error := None, inFlight := False\<rparr>)
            | None \<Rightarrow>
                (let h = hemit EvRateCheck h;
                     rateLimitCheck = canMakeCall p
                 in if \<not> allowed rateLimitCheck then
                      Return () ((hlog ''Rate limit exceeded:'' h)
                                   \<lparr>error := Some (denial_message rateLimitCheck),
                                    generatedImage := None, isComposite := False, inFlight := False\<rparr>)
                    else
                      (let h = h\<lparr>isGenerating := True, error := None, isComposite := False\<rparr>;
                           h = hemit EvRecordCall h;
                           h = hemit EvGetStatus h;
                           failed = (\<lambda>h. Return () (finish (caught ''Failed to generate nano outfit:''
                                       ''Failed to generate nano outfit. Please try again.'' h)))
                       in bind (lift (OutfitGenerator_generateNanoOutfit p occasion
                                        DEFAULT_BODY_PATH (glob h)) h)
                            (\<lambda>r h.
                               case r of
                                 Inl e \<Rightarrow> failed h
                               | Inr result \<Rightarrow>
                                   if success result \<and> truthy_str (imageUrl result) then
                                     bind (uploadAndRecord p ''nano_'' ''nano'' (the (imageUrl result)) h)
                                       (\<lambda>saved h.
                                          case saved of
                                            Inl e \<Rightarrow> failed h
                                          | Inr finalUrl \<Rightarrow>
                                              Return () (finish (h\<lparr>generatedImage := Some finalUrl,
                                                isComposite := False,
                                                cacheRef := (cacheRef h)(key \<mapsto>
                                                  \<lparr>url = finalUrl, composite = False\<rparr>)\<rparr>)))
                                   else failed h)))))"

definition generateOutfitTransfer :: "platform \<Rightarrow> File \<Rightarrow> hook \<Rightarrow> (hook, unit) task" where
  "generateOutfitTransfer p inspirationFile h =
     (if inFlight h then Return () (hlog IN_FLIGHT_WARNING h)
      else
        (let h = h\<lparr>inFlight := True\<rparr>;
             inspirationUrl = createObjectURL p inspirationFile;
             h = hemit (EvCreateObjectURL inspirationUrl) h;
             key = ''transfer::'' @ file_name inspirationFile @ ''::''
                     @ show_nat (file_size inspirationFile)
         in case cacheRef h key of
              Some cached \<Rightarrow>
                Return () (hemit (EvRevokeObjectURL inspirationUrl)
                  (h\<lparr>generatedImage := Some (url cached), isComposite := False,
                     error := None, inFlight := False\<rparr>))
            | None \<Rightarrow>
                (let h = hemit EvRateCheck h;
                     rateLimitCheck = canMakeCall p
                 in if \<not> allowed rateLimitCheck then
                      Return () (hemit (EvRevokeObjectURL inspirationUrl)
                        ((hlog ''Rate limit exceeded:'' h)
                           \<lparr>error := Some (denial_message rateLimitCheck),
                            generatedImage := None, isComposite := False, inFlight := False\<rparr>))
                    else
                      (let h = h\<lparr>isGenerating := True, error := None, isComposite := False\<rparr>;
                           h = hemit EvRecordCall h;
                           h = hemit EvGetStatus h;
                           finally = (\<lambda>h. Return () (hemit (EvRevokeObjectURL inspirationUrl) (finish h)));
                           failed = (\<lambda>h. finally (caught ''Failed to transfer outfit:''
                                       ''Failed to transfer outfit. Please try again.'' h))
                       in bind (lift (OutfitGenerator_generateOutfitTransfer p inspirationUrl
                                        DEFAULT_BODY_PATH (glob h)) h)
                            (\<lambda>r h.
                               case r of
                                 Inl e \<Rightarrow> failed h
                               | Inr result \<Rightarrow>
                                   if success result \<and> truthy_str (imageUrl result) then
                                     bind (uploadAndRecord p ''transfer_'' ''transfer''
                                             (the (imageUrl result)) h)
                                       (\<lambda>saved h.
                                          case saved of
                                            Inl e \<Rightarrow> failed h
                                          | Inr finalUrl \<Rightarrow>
                                              finally (h\<lparr>generatedImage := Some finalUrl,
                                                isComposite := False,
                                                cacheRef := (cacheRef h)(key \<mapsto>
                                                  \<lparr>url = finalUrl, composite = False\<rparr>)\<rparr>))
                                   else failed h)))))"

section \<open>Notions used to state the properties\<close>

subsection \<open>Quota errors\<close>

text \<open>
  The classification of the retry policy, read off the error itself. The code of an
  error is the first that is present (truthy) of the body's \<open>code\<close>, the error's \<open>status\<close>
  and the error's \<open>code\<close>; its status marker is the first that is present of the body's
  \<open>status\<close> and the error's \<open>statusMessage\<close>. A quota error is one whose code is the number
  429 or whose status marker is \<open>RESOURCE_EXHAUSTED\<close>.
\<close>

definition error_code :: "jsval \<Rightarrow> jsval option" where
  "error_code err =
     find truthy [opt_prop (opt_prop err ''error'') ''code'', opt_prop err ''status'',
                  opt_prop err ''code'']"

definition status_marker :: "jsval \<Rightarrow> jsval option" where
  "status_marker err =
     find truthy [opt_prop (opt_prop err ''error'') ''status'', opt_prop err ''statusMessage'']"

definition quota_error :: "jsval \<Rightarrow> bool" where
  "quota_error err =
     (error_code err = Some (JNum 429) \<or> status_marker err = Some (JStr ''RESOURCE_EXHAUSTED''))"

subsection \<open>Error bodies\<close>

text \<open>
  A well-formed detail of the error body is an object whose \<open>@type\<close> is a string. A detail
  names RetryInfo when its \<open>@type\<close> is a string that contains the word, or a list that
  has the word as an element.
\<close>

definition is_detail :: "jsval \<Rightarrow> bool" where
  "is_detail d = (case get_prop d ''@type'' of JStr t \<Rightarrow> True | _ \<Rightarrow> False)"

definition names_retry_info :: "jsval \<Rightarrow> bool" where
  "names_retry_info d =
     (case get_prop d ''@type'' of
        JStr t \<Rightarrow> includes_str t ''RetryInfo''
      | JArr ts \<Rightarrow> JStr ''RetryInfo'' \<in> set ts
      | _ \<Rightarrow> False)"

definition RETRY_INFO :: string where
  "RETRY_INFO = ''type.googleapis.com/google.rpc.RetryInfo''"

text \<open>
  The strings the delay pattern accepts, written out: digits, optionally a dot and
  digits, then \<open>s\<close>. A text is a duration when it splits that way at some position.
\<close>

definition delay_text :: "string \<Rightarrow> string option \<Rightarrow> string" where
  "delay_text w f = w @ (case f of None \<Rightarrow> [] | Some fr \<Rightarrow> CHR ''.'' # fr) @ ''s''"

definition digits :: "string \<Rightarrow> bool" where
  "digits ds = (ds \<noteq> [] \<and> list_all is_digit ds)"

definition is_duration :: "string \<Rightarrow> bool" where
  "is_duration s =
     list_ex (\<lambda>n. digits (take n s) \<and>
                   (drop n s = ''s'' \<or>
                    (case drop n s of
                       [] \<Rightarrow> False
                     | c # r \<Rightarrow> c = CHR ''.'' \<and> r \<noteq> [] \<and> last r = CHR ''s'' \<and> digits (butlast r))))
             [0..<length s]"

text \<open>
  An error has a parseable retry hint when some entry of the body's \<open>details\<close> list names
  RetryInfo and carries a \<open>retryDelay\<close> that reads, as text, as a duration.
\<close>

definition parseable_hint :: "jsval \<Rightarrow> bool" where
  "parseable_hint err =
     (case opt_prop (opt_prop err ''error'') ''details'' of
        JArr ds \<Rightarrow>
          list_ex (\<lambda>d. names_retry_info d \<and> is_duration (js_to_string (get_prop d ''retryDelay''))) ds
      | _ \<Rightarrow> False)"

text \<open>
  The milliseconds of a duration with whole part \<open>w\<close> and fractional part \<open>f\<close>: a thousand
  times the seconds, plus the first three fractional digits read as milliseconds.
\<close>

definition hint_ms :: "string \<Rightarrow> string option \<Rightarrow> number" where
  "hint_ms w f =
     num_add (num_times (parseInt10 w) 1000)
             (case f of None \<Rightarrow> Finite 0 | Some fr \<Rightarrow> parseInt10 (padEnd3 (take 3 fr)))"

text \<open>
  Errors the function cannot read. An entry of \<open>details\<close> is unreadable when it is null or
  undefined, or its \<open>@type\<close> is present and neither a string nor a list. An error is
  ill-shaped when its \<open>details\<close> is present and not a list, or is a list with an
  unreadable entry before any entry that names RetryInfo.
\<close>

definition unreadable :: "jsval \<Rightarrow> bool" where
  "unreadable d =
     (d = JUndefined \<or> d = JNull \<or>
      (case get_prop d ''@type'' of
         JBool b \<Rightarrow> True
       | JNum n \<Rightarrow> True
       | JObj kvs \<Rightarrow> True
       | _ \<Rightarrow> False))"

definition ill_shaped :: "jsval \<Rightarrow> bool" where
  "ill_shaped err =
     (case opt_prop (opt_prop err ''error'') ''details'' of
        JArr ds \<Rightarrow>
          (case dropWhile (\<lambda>x. \<not> unreadable x \<and> \<not> names_retry_info x) ds of
             [] \<Rightarrow> False
           | d # rest \<Rightarrow> unreadable d)
      | v \<Rightarrow> truthy v)"

text \<open>
  Sample errors: a body with code 429, the exhaustion status and two details, the second
  a RetryInfo that carries the given delay; an error with the bare status 429, which has
  no hint; an error whose body carries the exhaustion status and no code; a server error,
  which is no quota error; and an error whose \<open>details\<close> holds a null entry.
\<close>

definition quota_error_with_delay :: "string \<Rightarrow> jsval" where
  "quota_error_with_delay delay =
     JObj [(''error'', JObj [(''code'', JNum 429), (''status'', JStr ''RESOURCE_EXHAUSTED''),
        (''details'',
          JArr [JObj [(''@type'', JStr ''type.googleapis.com/google.rpc.Help'')],
                JObj [(''@type'', JStr RETRY_INFO), (''retryDelay'', JStr delay)]])]),
           (''message'', JStr ''quota exceeded'')]"

definition plain_quota_error :: jsval where
  "plain_quota_error = JObj [(''status'', JNum 429), (''message'', JStr ''quota exceeded'')]"

definition exhausted_error :: jsval where
  "exhausted_error =
     JObj [(''error'', JObj [(''status'', JStr ''RESOURCE_EXHAUSTED'')]),
           (''message'', JStr ''resource exhausted'')]"

definition server_error :: jsval where
  "server_error =
     JObj [(''error'', JObj [(''code'', JNum 500), (''status'', JStr ''INTERNAL'')]),
           (''message'', JStr ''internal error'')]"

definition null_detail_error :: jsval where
  "null_detail_error = JObj [(''error'', JObj [(''details'', JArr [JNull])])]"

text \<open>
  The failure the retry loop returns for an error, and the wait before retry attempt
  \<open>k\<close> after that error.
\<close>

definition gave_up :: "platform \<Rightarrow> jsval \<Rightarrow> OutfitGenerationResult" where
  "gave_up p e = fail_result (''Gemini API error. '' @ error_message p e)"

definition backoff :: "jsval \<Rightarrow> nat \<Rightarrow> number" where
  "backoff e k = num_times (getRetryMsFromError e (Finite 20000)) (2 ^ (k - 1))"

subsection \<open>Traces\<close>

text \<open>The events a run added to the trace, and the kinds of events the properties tell apart.\<close>

definition new_events :: "globals \<Rightarrow> globals \<Rightarrow> event list" where
  "new_events g g' = drop (length (trace g)) (trace g')"

text \<open>Remote attempts and the waits between them; remote attempts alone.\<close>

fun is_remote_event :: "event \<Rightarrow> bool" where
  "is_remote_event (EvRemote n) = True"
| "is_remote_event (EvSleep ms) = True"
| "is_remote_event e = False"

definition remote_events :: "event list \<Rightarrow> event list" where
  "remote_events evs = filter is_remote_event evs"


text \<open>The calls the service and the storage module make; those that need no identifiers.\<close>

fun svc_event :: "event \<Rightarrow> bool" where
  "svc_event (EvSelect t b) = True"
| "svc_event (EvFetch ps) = True"
| "svc_event (EvRemote n) = True"
| "svc_event (EvSleep ms) = True"
| "svc_event (EvUpload bk fn) = True"
| "svc_event (EvUpsert t b u) = True"
| "svc_event (EvInsert u src) = True"
| "svc_event e = False"

fun light_event :: "event \<Rightarrow> bool" where
  "light_event (EvFetch ps) = True"
| "light_event (EvRemote n) = True"
| "light_event (EvSleep ms) = True"
| "light_event e = False"

text \<open>Creating and revoking an object URL.\<close>

fun is_url_event :: "event \<Rightarrow> bool" where
  "is_url_event (EvCreateObjectURL u) = True"
| "is_url_event (EvRevokeObjectURL u) = True"
| "is_url_event e = False"

definition no_url :: "event \<Rightarrow> bool" where
  "no_url e = (\<not> is_url_event e)"

text \<open>What a callback may still add once it has recorded the call.\<close>

fun after_record :: "event \<Rightarrow> bool" where
  "after_record (EvComposite t b) = True"
| "after_record (EvRevokeObjectURL u) = True"
| "after_record e = svc_event e"

subsection \<open>The modes as families\<close>

text \<open>The three internal functions of the service as one family, to speak of every mode.\<close>

datatype internal_call =
    OutfitCall string string string "string option" "string option"
  | NanoCall string string
  | TransferCall string string

fun internal :: "platform \<Rightarrow> internal_call \<Rightarrow> globals \<Rightarrow> (globals, string + OutfitGenerationResult) task" where
  "internal p (OutfitCall topPath bottomPath bodyPath topId bottomId) g =
     generateOutfitInternal p topPath bottomPath bodyPath topId bottomId g"
| "internal p (NanoCall bodyPath customPrompt) g = generateNanoOutfitInternal p bodyPath customPrompt g"
| "internal p (TransferCall inspirationImagePath bodyPath) g =
     generateOutfitTransferInternal p inspirationImagePath bodyPath g"


text \<open>The keys of the service's three maps, by name, and its test for known identifiers.\<close>

definition nano_key :: "string \<Rightarrow> string \<Rightarrow> string" where
  "nano_key bodyPath customPrompt =
     ''nano_'' @ MODEL @ ''|'' @ bodyPath @ ''|v1:'' @ show_nat (length customPrompt)"

definition transfer_key :: "string \<Rightarrow> string \<Rightarrow> string" where
  "transfer_key inspirationImagePath bodyPath =
     ''transfer_'' @ MODEL @ ''|'' @ inspirationImagePath @ ''|'' @ bodyPath
        @ ''|v1:'' @ show_nat (length transferPrompt)"

definition has_ids :: "string option \<Rightarrow> string option \<Rightarrow> bool" where
  "has_ids topId bottomId = (truthy_str topId \<and> truthy_str bottomId)"

text \<open>
  The three callbacks of the hook as one family, the key each derives for \<open>cacheRef\<close>,
  and the events each adds before it records the call.
\<close>

datatype call = CallOutfit ClothingItem ClothingItem | CallNano string | CallTransfer File

fun invoke :: "platform \<Rightarrow> call \<Rightarrow> hook \<Rightarrow> (hook, unit) task" where
  "invoke p (CallOutfit top_item bottom_item) h = generateOutfit p top_item bottom_item h"
| "invoke p (CallNano occasion) h = generateNanoOutfit p occasion h"
| "invoke p (CallTransfer inspirationFile) h = generateOutfitTransfer p inspirationFile h"

fun hook_key :: "call \<Rightarrow> string" where
  "hook_key (CallOutfit top_item bottom_item) = ''outfit::'' @ item_id top_item @ ''::'' @ item_id bottom_item"
| "hook_key (CallNano occasion) = ''nano::'' @ occasion"
| "hook_key (CallTransfer inspirationFile) =
     ''transfer::'' @ file_name inspirationFile @ ''::'' @ show_nat (file_size inspirationFile)"

definition outfit_key :: "ClothingItem \<Rightarrow> ClothingItem \<Rightarrow> string" where
  "outfit_key top_item bottom_item = ''outfit::'' @ item_id top_item @ ''::'' @ item_id bottom_item"

fun before_record :: "platform \<Rightarrow> call \<Rightarrow> event list" where
  "before_record p (CallOutfit top_item bottom_item) = [EvRateCheck]"
| "before_record p (CallNano occasion) = [EvRateCheck]"
| "before_record p (CallTransfer f) = [EvCreateObjectURL (createObjectURL p f), EvRateCheck]"

subsection \<open>Invariants of tasks\<close>

text \<open>
  \<open>task_inv I Q t\<close>: the task \<open>t\<close> leaves a state that satisfies \<open>I\<close> at every suspension,
  provided it is resumed in such a state, and returns a value and a state that satisfy
  \<open>Q\<close>, whatever the awaited calls answer.
\<close>

primrec task_inv :: "('s \<Rightarrow> bool) \<Rightarrow> ('a \<Rightarrow> 's \<Rightarrow> bool) \<Rightarrow> ('s, 'a) task \<Rightarrow> bool" where
  "task_inv I Q (Return a s) = Q a s"
| "task_inv I Q (AwaitSelect s t b k) = (I s \<and> (\<forall>r s'. I s' \<longrightarrow> task_inv I Q (k r s')))"
| "task_inv I Q (AwaitFetch s ps k) = (I s \<and> (\<forall>r s'. I s' \<longrightarrow> task_inv I Q (k r s')))"
| "task_inv I Q (AwaitRemote s n c k) = (I s \<and> (\<forall>r s'. I s' \<longrightarrow> task_inv I Q (k r s')))"
| "task_inv I Q (AwaitSleep s ms k) = (I s \<and> (\<forall>r s'. I s' \<longrightarrow> task_inv I Q (k r s')))"
| "task_inv I Q (AwaitUpload s bk fn k) = (I s \<and> (\<forall>r s'. I s' \<longrightarrow> task_inv I Q (k r s')))"
| "task_inv I Q (AwaitUpsert s t b u k) = (I s \<and> (\<forall>r s'. I s' \<longrightarrow> task_inv I Q (k r s')))"
| "task_inv I Q (AwaitInsert s u src k) = (I s \<and> (\<forall>r s'. I s' \<longrightarrow> task_inv I Q (k r s')))"
| "task_inv I Q (AwaitComposite s t b k) = (I s \<and> (\<forall>r s'. I s' \<longrightarrow> task_inv I Q (k r s')))"

text \<open>
  The trace is \<open>base\<close> followed by events that satisfy \<open>P\<close> (in the page-wide state, and in
  the hook's); the trace is \<open>base\<close>, then events other than object-URL events, then \<open>e\<close>.
\<close>

definition grows_by :: "(event \<Rightarrow> bool) \<Rightarrow> event list \<Rightarrow> globals \<Rightarrow> bool" where
  "grows_by P base g = (\<exists>evs. trace g = base @ evs \<and> list_all P evs)"

definition hgrows :: "(event \<Rightarrow> bool) \<Rightarrow> event list \<Rightarrow> hook \<Rightarrow> bool" where
  "hgrows P base h = grows_by P base (glob h)"

definition closes :: "event list \<Rightarrow> event \<Rightarrow> hook \<Rightarrow> bool" where
  "closes base e h = (\<exists>mid. trace (glob h) = base @ mid @ [e] \<and> list_all no_url mid)"

text \<open>An image the hook shows is the one its cache holds under the key \<open>k\<close>.\<close>

definition shows_cached :: "string \<Rightarrow> hook \<Rightarrow> bool" where
  "shows_cached k h =
     (\<forall>u. generatedImage h = Some u \<longrightarrow> (\<exists>e. cacheRef h k = Some e \<and> url e = u))"


subsection \<open>The page: interleaved operations\<close>

text \<open>
  JavaScript runs one callback at a time and switches only at an \<open>await\<close>. The page is
  the hook's state together with the operations suspended at an \<open>await\<close>. A step is
  either a call of one of the three callbacks, whose synchronous part runs to its first
  suspension (or to its return), or the resumption of a suspended operation with some
  answer to the call it awaits, in the state the page has then; it runs to its next
  suspension or to its return. \<open>task_state\<close> is the state a task leaves behind.
\<close>

fun task_state :: "('s, 'a) task \<Rightarrow> 's" where
  "task_state (Return a s) = s"
| "task_state (AwaitSelect s t b k) = s"
| "task_state (AwaitFetch s ps k) = s"
| "task_state (AwaitRemote s n c k) = s"
| "task_state (AwaitSleep s ms k) = s"
| "task_state (AwaitUpload s bk fn k) = s"
| "task_state (AwaitUpsert s t b u k) = s"
| "task_state (AwaitInsert s u src k) = s"
| "task_state (AwaitComposite s t b k) = s"

fun suspended :: "('s, 'a) task \<Rightarrow> bool" where
  "suspended (Return a s) = False"
| "suspended t = True"

inductive resumes :: "('s, 'a) task \<Rightarrow> 's \<Rightarrow> ('s, 'a) task \<Rightarrow> bool" where
  "resumes (AwaitSelect s0 t b k) s (k r s)"
| "resumes (AwaitFetch s0 ps k) s (k r s)"
| "resumes (AwaitRemote s0 n c k) s (k r s)"
| "resumes (AwaitSleep s0 ms k) s (k r s)"
| "resumes (AwaitUpload s0 bk fn k) s (k r s)"
| "resumes (AwaitUpsert s0 t b u k) s (k r s)"
| "resumes (AwaitInsert s0 u src k) s (k r s)"
| "resumes (AwaitComposite s0 t b k) s (k r s)"

type_synonym page = "hook \<times> (hook, unit) task list"

definition settle :: "(hook, unit) task \<Rightarrow> (hook, unit) task list" where
  "settle t = (if suspended t then [t] else [])"

inductive step :: "page \<Rightarrow> page \<Rightarrow> bool" where
  invoked: "t = invoke p c h \<Longrightarrow> step (h, ts) (task_state t, ts @ settle t)"
| resumed: "i < length ts \<Longrightarrow> resumes (ts ! i) h t
            \<Longrightarrow> step (h, ts) (task_state t, take i ts @ settle t @ drop (Suc i) ts)"

inductive reachable :: "page \<Rightarrow> bool" where
  initial: "\<not> inFlight h \<Longrightarrow> reachable (h, [])"
| later: "reachable pg \<Longrightarrow> step pg pg' \<Longrightarrow> reachable pg'"

text \<open>
  An operation holds the flag: the flag is set at each of its suspensions and cleared
  when it returns. The invariant of the page: nothing is suspended and the flag is
  clear, or exactly one operation is suspended, the flag is set and it holds the flag.
\<close>

definition guarded :: "(hook, unit) task \<Rightarrow> bool" where
  "guarded t = task_inv inFlight (\<lambda>a h. \<not> inFlight h) t"

definition page_inv :: "page \<Rightarrow> bool" where
  "page_inv pg =
     (case pg of (h, ts) \<Rightarrow>
        (ts = [] \<and> \<not> inFlight h) \<or> (\<exists>t. ts = [t] \<and> inFlight h \<and> suspended t \<and> guarded t))"

subsection \<open>Sessions\<close>

text \<open>
  A session is a sequence of operations, each run to its end against its own platform
  and world before the next one starts.
\<close>

definition session :: "(platform \<times> world \<times> call) list \<Rightarrow> hook \<Rightarrow> hook" where
  "session ops h = fold (\<lambda>(p, w, c) h. snd (run w (invoke p c h))) ops h"

subsection \<open>Sample inputs\<close>

text \<open>
  An empty page and an idle hook; a configured platform whose rate limiter allows, and
  one whose rate limiter denies; two items and a file.
\<close>

definition empty_globals :: globals where
  "empty_globals = \<lparr>outfitCache = Map.empty, nanoCache = Map.empty, transferCache = Map.empty,
                     trace = [], console = []\<rparr>"

definition idle_hook :: hook where
  "idle_hook = \<lparr>inFlight = False, cacheRef = Map.empty, generatedImage = None,
                 isGenerating = False, error = None, isComposite = False, glob = empty_globals\<rparr>"

definition test_platform :: platform where
  "test_platform = \<lparr>apiKey = ''key'', stringify = (\<lambda>v. ''{}''),
     canMakeCall = \<lparr>allowed = True, reason = None\<rparr>, now = 1700000000000,
     atob_ok = (\<lambda>s. True), publicUrl = (\<lambda>path. ''https://storage/'' @ path),
     createObjectURL = (\<lambda>f. ''blob:'' @ file_name f)\<rparr>"

definition deny_platform :: platform where
  "deny_platform = test_platform\<lparr>canMakeCall := \<lparr>allowed = False, reason = Some ''cooldown''\<rparr>\<rparr>"

definition shirt :: ClothingItem where
  "shirt = \<lparr>item_id = ''t1'', item_imageUrl = ''https://x/shirt.png''\<rparr>"

definition jeans :: ClothingItem where
  "jeans = \<lparr>item_id = ''b1'', item_imageUrl = ''https://x/jeans.png''\<rparr>"

definition sample_file :: File where
  "sample_file = \<lparr>file_name = ''look.png'', file_size = 2048\<rparr>"

text \<open>
  Worlds: the remote call keeps answering 429 (the first time with a retry hint) and
  everything else works; the remote call returns an image; it does and the blob upload
  fails; the durable lookup finds a stored URL; the local compositing succeeds.
\<close>

definition quota_world :: world where
  "quota_world = \<lparr>db_select = (\<lambda>t b. SbData None),
     fetch = (\<lambda>ps. Some (map (\<lambda>x. ''AAAA'') ps)),
     remote = (\<lambda>n. if n = 0 then Inl (quota_error_with_delay ''2.5s'') else Inl plain_quota_error),
     storage_upload = (\<lambda>bk fn. SbData fn),
     db_upsert = (\<lambda>t b u. SbData ()),
     db_insert = (\<lambda>u src. SbData ()),
     createComposite = (\<lambda>t b. Inr (fail_result ''no canvas''))\<rparr>"



definition image_part :: "string \<Rightarrow> part" where
  "image_part d = \<lparr>part_text = None, inline_data = Some d\<rparr>"

definition good_world :: "string \<Rightarrow> world" where
  "good_world d = quota_world\<lparr>remote := (\<lambda>n. Inr [image_part d])\<rparr>"

definition upload_fails_world :: world where
  "upload_fails_world = (good_world ''AAAA'')\<lparr>storage_upload := (\<lambda>bk fn. SbError ''bucket unavailable'')\<rparr>"

definition durable_world :: "string \<Rightarrow> world" where
  "durable_world u = quota_world\<lparr>db_select := (\<lambda>t b. SbData (Some u))\<rparr>"

definition composite_world :: "string \<Rightarrow> world" where
  "composite_world cu = quota_world\<lparr>createComposite := (\<lambda>t b. Inr (ok_result cu))\<rparr>"

section \<open>Running tasks\<close>

text \<open>
  Running a sequence runs its parts in order; running a service task inside the hook
  runs it on the page-wide state and leaves the rest of the hook alone.
\<close>

lemma run_bind: "run w (bind t f) = (case run w t of (a, s) \<Rightarrow> run w (f a s))"
proof (induction t)
  case (Return a s) show ?case by simp
next
  case (AwaitSelect s t b k) show ?case using AwaitSelect.IH[OF rangeI rangeI] by simp
next
  case (AwaitFetch s ps k) show ?case using AwaitFetch.IH[OF rangeI rangeI] by simp
next
  case (AwaitRemote s n c k) show ?case using AwaitRemote.IH[OF rangeI rangeI] by simp
next
  case (AwaitSleep s ms k) show ?case using AwaitSleep.IH[OF rangeI rangeI] by simp
next
  case (AwaitUpload s bk fn k) show ?case using AwaitUpload.IH[OF rangeI rangeI] by simp
next
  case (AwaitUpsert s t b u k) show ?case using AwaitUpsert.IH[OF rangeI rangeI] by simp
next
  case (AwaitInsert s u src k) show ?case using AwaitInsert.IH[OF rangeI rangeI] by simp
next
  case (AwaitComposite s t b k) show ?case using AwaitComposite.IH[OF rangeI rangeI] by simp
qed

lemma run_lift: "run w (lift t h) = (case run w t of (a, g) \<Rightarrow> (a, h\<lparr>glob := g\<rparr>))"
proof (induction t arbitrary: h)
  case (Return a s) show ?case by simp
next
  case (AwaitSelect s t b k) show ?case using AwaitSelect.IH[OF rangeI rangeI] by simp
next
  case (AwaitFetch s ps k) show ?case using AwaitFetch.IH[OF rangeI rangeI] by simp
next
  case (AwaitRemote s n c k) show ?case using AwaitRemote.IH[OF rangeI rangeI] by simp
next
  case (AwaitSleep s ms k) show ?case using AwaitSleep.IH[OF rangeI rangeI] by simp
next
  case (AwaitUpload s bk fn k) show ?case using AwaitUpload.IH[OF rangeI rangeI] by simp
next
  case (AwaitUpsert s t b u k) show ?case using AwaitUpsert.IH[OF rangeI rangeI] by simp
next
  case (AwaitInsert s u src k) show ?case using AwaitInsert.IH[OF rangeI rangeI] by simp
next
  case (AwaitComposite s t b k) show ?case using AwaitComposite.IH[OF rangeI rangeI] by simp
qed

lemma trace_emit [simp]: "trace (emit e g) = trace g @ [e]"
  by (simp add: emit_def)

lemma trace_log_line [simp]: "trace (log_line m g) = trace g"
  by (simp add: log_line_def)

lemma new_events_append [simp]: "trace g' = trace g @ evs \<Longrightarrow> new_events g g' = evs"
  by (simp add: new_events_def)

section \<open>The retry hint\<close>

lemma is_retry_info_detail:
  "is_detail d \<Longrightarrow> is_retry_info d = Inr (JBool (names_retry_info d))"
  by (cases d) (auto simp: is_detail_def names_retry_info_def split: jsval.splits option.splits)

lemma find_detail_first:
  "\<forall>x\<in>set pre. is_detail x \<and> \<not> names_retry_info x \<Longrightarrow> is_detail d \<Longrightarrow> names_retry_info d
   \<Longrightarrow> find_detail (pre @ d # rest) = Inr d"
  by (induction pre) (simp_all add: is_retry_info_detail)

lemma find_detail_none:
  "\<forall>x\<in>set ds. is_detail x \<and> \<not> names_retry_info x \<Longrightarrow> find_detail ds = Inr JUndefined"
  by (induction ds) (simp_all add: is_retry_info_detail)

lemma match_delay_2_5: "match_delay ''2.5s'' = Some (''2'', Some ''5'')"
  by (simp add: match_delay_def is_digit_def)

lemma to_double_small: "n < 2 ^ 53 \<Longrightarrow> to_double n = Finite n"
  by (simp add: to_double_def)

lemma pad_5: "padEnd3 ''5'' = ''500''"
  by (simp add: padEnd3_def eval_nat_numeral)

lemma parse_2_5: "hint_ms ''2'' (Some ''5'') = Finite 2500"
  by (simp add: hint_ms_def parseInt10_def digits_value_def digit_val_def pad_5 to_double_small)

lemma opt_prop_get: "opt_prop v k = get_prop v k"
  by (cases v) simp_all

text \<open>What \<open>find\<close> does with an entry: it throws, accepts it or passes it over.\<close>

lemma is_retry_info_throws: "is_retry_info d = Inl e \<longleftrightarrow> unreadable d"
  by (cases e; cases d) (auto simp: unreadable_def split: jsval.splits option.splits)

lemma names_readable: "names_retry_info d \<Longrightarrow> \<not> unreadable d"
  by (cases d) (auto simp: names_retry_info_def unreadable_def split: jsval.splits option.splits)

lemma readable_result: "\<not> unreadable d \<Longrightarrow> \<exists>b. is_retry_info d = Inr b"
  using is_retry_info_throws[of d] by (cases "is_retry_info d") auto

lemma is_retry_info_accepts:
  "is_retry_info d = Inr b \<Longrightarrow> truthy b \<longleftrightarrow> names_retry_info d"
  by (cases d) (auto simp: names_retry_info_def split: jsval.splits option.splits)

lemma detail_readable: "is_detail d \<Longrightarrow> \<not> unreadable d"
  by (cases d) (auto simp: is_detail_def unreadable_def split: jsval.splits option.splits)

lemma find_detail_found:
  "find_detail ds = Inr d \<Longrightarrow> d = JUndefined \<or> (d \<in> set ds \<and> names_retry_info d)"
proof (induction ds)
  case Nil
  then show ?case by simp
next
  case (Cons x xs)
  show ?case
  proof (cases "is_retry_info x")
    case (Inl e)
    then show ?thesis using Cons.prems by simp
  next
    case (Inr b)
    then show ?thesis
      using Cons is_retry_info_accepts[OF Inr] by (auto split: if_splits)
  qed
qed

lemma find_detail_throws:
  "find_detail ds = Inl e
     \<longleftrightarrow> (case dropWhile (\<lambda>x. \<not> unreadable x \<and> \<not> names_retry_info x) ds of
            [] \<Rightarrow> False
          | d # rest \<Rightarrow> unreadable d)"
proof (induction ds)
  case Nil
  then show ?case by simp
next
  case (Cons x xs)
  show ?case
  proof (cases "is_retry_info x")
    case (Inl e')
    then have "unreadable x" using is_retry_info_throws by blast
    then show ?thesis using Inl by (cases e; cases e') simp
  next
    case (Inr b)
    then have u: "\<not> unreadable x" using is_retry_info_throws[of x] by simp
    show ?thesis
      using Cons.IH Inr u is_retry_info_accepts[OF Inr] by simp
  qed
qed

lemma find_detail_skips:
  "\<forall>x\<in>set pre. \<not> unreadable x \<and> \<not> names_retry_info x \<Longrightarrow> names_retry_info d
   \<Longrightarrow> find_detail (pre @ d # rest) = Inr d"
proof (induction pre)
  case Nil
  obtain b where b: "is_retry_info d = Inr b"
    using readable_result[OF names_readable[OF Nil(2)]] by blast
  then show ?case using is_retry_info_accepts[OF b] Nil(2) by simp
next
  case (Cons x xs)
  obtain b where b: "is_retry_info x = Inr b"
    using readable_result[of x] Cons.prems(1) by auto
  then show ?case using is_retry_info_accepts[OF b] Cons by simp
qed

text \<open>The matcher accepts exactly the strings of the pattern and returns its groups.\<close>

lemma not_digit [simp]: "\<not> is_digit CHR ''s''" "\<not> is_digit CHR ''.''"
  by (simp_all add: is_digit_def)

lemma split_digits:
  "list_all is_digit w \<Longrightarrow> \<not> is_digit c
   \<Longrightarrow> takeWhile is_digit (w @ c # r) = w \<and> dropWhile is_digit (w @ c # r) = c # r"
  by (induction w) simp_all

lemma match_delay_accepts:
  assumes "digits w" and "case f of None \<Rightarrow> True | Some fr \<Rightarrow> digits fr"
  shows "match_delay (delay_text w f) = Some (w, f)"
proof (cases f)
  case None
  then show ?thesis
    using assms split_digits[of w "CHR ''s''" "[]"]
    by (simp add: match_delay_def delay_text_def digits_def)
next
  case (Some fr)
  then have fr: "fr \<noteq> []" "list_all is_digit fr" using assms(2) by (simp_all add: digits_def)
  have a: "takeWhile is_digit (w @ CHR ''.'' # fr @ ''s'') = w"
    "dropWhile is_digit (w @ CHR ''.'' # fr @ ''s'') = CHR ''.'' # fr @ ''s''"
    using assms(1) split_digits[of w "CHR ''.''" "fr @ ''s''"] by (simp_all add: digits_def)
  have b: "takeWhile is_digit (fr @ ''s'') = fr" "dropWhile is_digit (fr @ ''s'') = ''s''"
    using fr split_digits[of fr "CHR ''s''" "[]"] by simp_all
  show ?thesis
    using Some assms(1) fr a b
    by (simp add: match_delay_def delay_text_def digits_def Let_def)
qed

lemma match_delay_only:
  assumes "match_delay s = Some (w, f)"
  shows "s = delay_text w f \<and> digits w \<and> (case f of None \<Rightarrow> True | Some fr \<Rightarrow> digits fr)"
proof -
  let ?whole = "takeWhile is_digit s" and ?rest = "dropWhile is_digit s"
  have s: "s = ?whole @ ?rest" by simp
  have dw: "list_all is_digit ?whole" by (simp add: list_all_iff) (meson set_takeWhileD)
  have w: "?whole \<noteq> []" using assms by (auto simp: match_delay_def Let_def split: if_splits)
  show ?thesis
  proof (cases "?rest = ''s''")
    case True
    then have "w = ?whole \<and> f = None" using assms w by (simp add: match_delay_def Let_def)
    then show ?thesis using s True dw w by (simp add: delay_text_def digits_def)
  next
    case False
    then obtain r2 where r: "?rest = CHR ''.'' # r2"
      using assms w by (auto simp: match_delay_def Let_def split: list.splits if_splits)
    let ?fr = "takeWhile is_digit r2" and ?r3 = "dropWhile is_digit r2"
    have m: "?fr \<noteq> [] \<and> ?r3 = ''s'' \<and> w = ?whole \<and> f = Some ?fr"
      using assms w False r by (auto simp: match_delay_def Let_def split: if_splits)
    have "r2 = ?fr @ ?r3" by simp
    then have "r2 = ?fr @ ''s''" using m by simp
    then have "s = ?whole @ CHR ''.'' # ?fr @ ''s''" using s r by metis
    moreover have "list_all is_digit ?fr" by (simp add: list_all_iff) (meson set_takeWhileD)
    ultimately show ?thesis using m dw w by (simp add: delay_text_def digits_def)
  qed
qed

lemma match_delay_iff:
  "match_delay s = Some (w, f)
     \<longleftrightarrow> s = delay_text w f \<and> digits w \<and> (case f of None \<Rightarrow> True | Some fr \<Rightarrow> digits fr)"
  using match_delay_accepts match_delay_only by blast


text \<open>The duration texts are the strings the pattern accepts.\<close>

lemma is_duration_only:
  assumes "is_duration s"
  shows "\<exists>w f. s = delay_text w f \<and> digits w \<and> (case f of None \<Rightarrow> True | Some fr \<Rightarrow> digits fr)"
proof -
  obtain n where n: "digits (take n s)"
    and r: "drop n s = ''s'' \<or>
            (case drop n s of [] \<Rightarrow> False
             | c # r \<Rightarrow> c = CHR ''.'' \<and> r \<noteq> [] \<and> last r = CHR ''s'' \<and> digits (butlast r))"
    using assms unfolding is_duration_def list_ex_iff by blast
  show ?thesis
  proof (cases "drop n s = ''s''")
    case True
    have "take n s @ ''s'' = take n s @ drop n s" using True by simp
    also have "\<dots> = s" by simp
    finally have "s = delay_text (take n s) None" by (simp add: delay_text_def)
    then show ?thesis using n by (intro exI[of _ "take n s"] exI[of _ None]) simp
  next
    case False
    then obtain r' where d: "drop n s = CHR ''.'' # r'" and r': "r' \<noteq> []" "last r' = CHR ''s''"
      "digits (butlast r')"
      using r by (auto split: list.splits)
    have b: "butlast r' @ ''s'' = r'" using r'(1,2) append_butlast_last_id[of r'] by simp
    have "take n s @ CHR ''.'' # butlast r' @ ''s'' = take n s @ drop n s" using d b by simp
    also have "\<dots> = s" by simp
    finally have "s = delay_text (take n s) (Some (butlast r'))" by (simp add: delay_text_def)
    then show ?thesis
      using n r'(3) by (intro exI[of _ "take n s"] exI[of _ "Some (butlast r')"]) simp
  qed
qed

lemma is_duration_accepts:
  assumes "digits w" and "case f of None \<Rightarrow> True | Some fr \<Rightarrow> digits fr"
  shows "is_duration (delay_text w f)"
proof -
  let ?s = "delay_text w f"
  have len: "length w < length ?s" by (simp add: delay_text_def)
  have t: "take (length w) ?s = w" by (simp add: delay_text_def)
  have d: "drop (length w) ?s = (case f of None \<Rightarrow> [] | Some fr \<Rightarrow> CHR ''.'' # fr) @ ''s''"
    by (simp add: delay_text_def)
  have "drop (length w) ?s = ''s'' \<or>
        (case drop (length w) ?s of [] \<Rightarrow> False
         | c # r \<Rightarrow> c = CHR ''.'' \<and> r \<noteq> [] \<and> last r = CHR ''s'' \<and> digits (butlast r))"
    unfolding d using assms(2) by (cases f) simp_all
  then show ?thesis
    unfolding is_duration_def list_ex_iff using len t assms(1)
    by (intro bexI[of _ "length w"]) simp_all
qed

lemma is_duration_match: "is_duration s \<longleftrightarrow> match_delay s \<noteq> None"
proof
  assume "is_duration s"
  then obtain w f where "s = delay_text w f" "digits w"
    "case f of None \<Rightarrow> True | Some fr \<Rightarrow> digits fr"
    using is_duration_only by blast
  then show "match_delay s \<noteq> None" using match_delay_accepts[of w f] by simp
next
  assume "match_delay s \<noteq> None"
  then obtain w f where "match_delay s = Some (w, f)" by auto
  then have "s = delay_text w f \<and> digits w \<and> (case f of None \<Rightarrow> True | Some fr \<Rightarrow> digits fr)"
    by (rule match_delay_only)
  then show "is_duration s" using is_duration_accepts[of w f] by simp
qed

text \<open>
  What the function returns, from the shape of the error alone: the hint of the first
  entry that names RetryInfo; the fallback when nothing parseable is there; the fallback
  as well when reading the error throws.
\<close>

lemma falsy_text:
  "\<not> truthy v \<Longrightarrow> js_to_string v \<in> {''undefined'', ''null'', ''false'', ''0'', []}"
proof (cases v)
  case (JNum n)
  assume "\<not> truthy v"
  then have "n = 0" using JNum by simp
  moreover have "show_nat 0 = ''0''" by (subst show_nat.simps) (simp add: digit_char_def)
  ultimately show ?thesis using JNum by (simp add: show_int_def)
qed auto

lemma hint_parsed:
  assumes "opt_prop (opt_prop err ''error'') ''details'' = JArr (pre @ d # rest)"
    and "\<forall>x\<in>set pre. \<not> unreadable x \<and> \<not> names_retry_info x"
    and "names_retry_info d"
    and "js_to_string (get_prop d ''retryDelay'') = delay_text w f"
    and "digits w" and "case f of None \<Rightarrow> True | Some fr \<Rightarrow> digits fr"
  shows "getRetryMsFromError err fb = hint_ms w f"
proof -
  have m: "match_delay (js_to_string (get_prop d ''retryDelay'')) = Some (w, f)"
    using assms(4-6) match_delay_accepts by simp
  have l: "last (delay_text w f) = CHR ''s''" and ne: "delay_text w f \<noteq> []"
    by (simp_all add: delay_text_def)
  have t: "truthy (get_prop d ''retryDelay'')"
  proof (rule ccontr)
    assume "\<not> truthy (get_prop d ''retryDelay'')"
    then have "delay_text w f \<in> {''undefined'', ''null'', ''false'', ''0'', []}"
      using falsy_text assms(4) by metis
    then show False using l ne by auto
  qed
  show ?thesis
    using assms(1) m t find_detail_skips[OF assms(2,3)]
    by (simp add: getRetryMsFromError_def retry_hint_def js_or_def opt_prop_get hint_ms_def)
qed

lemma hint_needed:
  assumes "retry_hint err = Inr (Some ms)"
  shows "parseable_hint err"
proof -
  let ?v = "opt_prop (opt_prop err ''error'') ''details''"
  have tr: "truthy ?v"
    using assms by (auto simp: retry_hint_def js_or_def split: if_splits)
  then obtain ds where ds: "?v = JArr ds"
    using assms by (cases ?v) (auto simp: retry_hint_def js_or_def)
  obtain retry where fd: "find_detail ds = Inr retry"
    using assms ds by (cases "find_detail ds") (auto simp: retry_hint_def js_or_def)
  have t: "truthy (opt_prop retry ''retryDelay'')"
    and m: "match_delay (js_to_string (get_prop retry ''retryDelay'')) \<noteq> None"
    using assms ds fd
    by (auto simp: retry_hint_def js_or_def split: if_splits option.splits)
  have "retry \<noteq> JUndefined" using t by auto
  then have "retry \<in> set ds \<and> names_retry_info retry" using find_detail_found[OF fd] by simp
  then show ?thesis
    using ds m by (auto simp: parseable_hint_def list_ex_iff is_duration_match)
qed

lemma no_hint_fallback: "\<not> parseable_hint err \<Longrightarrow> getRetryMsFromError err fb = fb"
  using hint_needed[of err]
  by (auto simp: getRetryMsFromError_def split: sum.splits option.splits)

lemma ill_shaped_throws: "ill_shaped err \<longleftrightarrow> retry_hint err = Inl TypeError"
proof (cases "opt_prop (opt_prop err ''error'') ''details''")
  case (JArr ds)
  have "retry_hint err = Inl TypeError \<longleftrightarrow> find_detail ds = Inl TypeError"
    using JArr
    by (cases "find_detail ds")
       (auto simp: retry_hint_def js_or_def Let_def split: option.splits)
  then show ?thesis using JArr find_detail_throws[of ds TypeError] by (simp add: ill_shaped_def)
qed (auto simp: ill_shaped_def retry_hint_def js_or_def)

lemma ill_shaped_fallback: "ill_shaped err \<Longrightarrow> getRetryMsFromError err fb = fb"
  by (simp add: ill_shaped_throws getRetryMsFromError_def)

lemma sample_details:
  "opt_prop (opt_prop (quota_error_with_delay t) ''error'') ''details''
     = JArr ([JObj [(''@type'', JStr ''type.googleapis.com/google.rpc.Help'')]]
             @ JObj [(''@type'', JStr RETRY_INFO), (''retryDelay'', JStr t)] # [])"
  by (simp add: quota_error_with_delay_def)


lemma sample_no_hint:
  "\<not> parseable_hint (quota_error_with_delay ''soon'')" "\<not> parseable_hint plain_quota_error"
  "\<not> parseable_hint exhausted_error" "\<not> parseable_hint server_error"
  "\<not> parseable_hint JUndefined"
  by (simp_all add: parseable_hint_def quota_error_with_delay_def names_retry_info_def
      RETRY_INFO_def is_duration_match match_delay_def is_digit_def plain_quota_error_def
      exhausted_error_def server_error_def)

text \<open>
  The delay is a double: past \<open>2^53\<close> the digits are rounded to the nearest double, ties to
  the even one, and a product past the largest double is \<open>Infinity\<close>.
\<close>

lemma value_sample: "digits_value ''9007199254740993'' = 9007199254740993"
  by (simp add: digits_value_def digit_val_def)

lemma bits_sample:
  "bit_length 9007199254740993 = 54" "bit_length 9007199254740994 = 54"
  "bit_length 9007199254740995 = 54"
  by (simp_all add: bit_length.simps)

lemma round_sample:
  "to_double 9007199254740993 = Finite 9007199254740992"
  "to_double 9007199254740994 = Finite 9007199254740994"
  "to_double 9007199254740995 = Finite 9007199254740996"
  by (simp_all add: to_double_def bits_sample Let_def)

lemma large_hint:
  "getRetryMsFromError (quota_error_with_delay ''9007199254740993s'') fb
     = Finite 9007199254740992000"
proof -
  have "getRetryMsFromError (quota_error_with_delay ''9007199254740993s'') fb
          = hint_ms ''9007199254740993'' None"
    by (rule hint_parsed[OF sample_details])
       (simp_all add: unreadable_def names_retry_info_def RETRY_INFO_def delay_text_def
          digits_def is_digit_def)
  also have "\<dots> = Finite 9007199254740992000"
    by (simp add: hint_ms_def parseInt10_def value_sample round_sample to_double_def
        bit_length.simps Let_def)
  finally show ?thesis .
qed

lemma overflow_sample: "num_times (Finite (2 ^ 1023)) 2 = Infinity"
  by (simp add: to_double_def bit_length.simps Let_def)

text \<open>
  C9. An error whose RetryInfo detail (the first detail of the error body that names
  RetryInfo, among well-formed details) carries the delay \<open>2.5s\<close> yields 2500 ms. An
  error with no parseable retry hint, that is one in whose body no entry of \<open>details\<close>
  both names RetryInfo and carries a delay that reads as a duration, yields the fallback
  of 20000 ms. The function does not throw: on an ill-shaped error the body of its \<open>try\<close>
  block throws, and the function still returns the fallback.
\<close>

theorem getRetryMsFromError_hint:
  "(opt_prop (opt_prop err ''error'') ''details'' = JArr (pre @ d # rest)
      \<and> (\<forall>x\<in>set pre. is_detail x \<and> \<not> names_retry_info x)
      \<and> is_detail d \<and> names_retry_info d
      \<and> get_prop d ''retryDelay'' = JStr ''2.5s''
    \<longrightarrow> getRetryMsFromError err fallbackMs = Finite 2500)
   \<and> (\<not> parseable_hint err' \<longrightarrow> getRetryMsFromError err' (Finite 20000) = Finite 20000)
   \<and> (ill_shaped err'' \<longrightarrow>
        retry_hint err'' = Inl TypeError
        \<and> getRetryMsFromError err'' (Finite 20000) = Finite 20000)"
proof (intro conjI impI)
  assume h: "opt_prop (opt_prop err ''error'') ''details'' = JArr (pre @ d # rest)
      \<and> (\<forall>x\<in>set pre. is_detail x \<and> \<not> names_retry_info x)
      \<and> is_detail d \<and> names_retry_info d
      \<and> get_prop d ''retryDelay'' = JStr ''2.5s''"
  then have "getRetryMsFromError err fallbackMs = hint_ms ''2'' (Some ''5'')"
    by (intro hint_parsed[where pre = pre and d = d and rest = rest])
       (auto simp: delay_text_def digits_def is_digit_def detail_readable)
  then show "getRetryMsFromError err fallbackMs = Finite 2500" by (simp add: parse_2_5)
next
  assume "\<not> parseable_hint err'"
  then show "getRetryMsFromError err' (Finite 20000) = Finite 20000" by (rule no_hint_fallback)
next
  assume "ill_shaped err''"
  then show "retry_hint err'' = Inl TypeError" by (simp add: ill_shaped_throws)
next
  assume "ill_shaped err''"
  then show "getRetryMsFromError err'' (Finite 20000) = Finite 20000" by (rule ill_shaped_fallback)
qed

theorem getRetryMsFromError_hint_witness:
  "getRetryMsFromError (quota_error_with_delay ''2.5s'') (Finite 20000) = Finite 2500
   \<and> \<not> parseable_hint (quota_error_with_delay ''soon'')
   \<and> getRetryMsFromError (quota_error_with_delay ''soon'') (Finite 20000) = Finite 20000
   \<and> \<not> parseable_hint plain_quota_error
   \<and> getRetryMsFromError plain_quota_error (Finite 20000) = Finite 20000
   \<and> \<not> parseable_hint JUndefined
   \<and> getRetryMsFromError JUndefined (Finite 20000) = Finite 20000
   \<and> ill_shaped null_detail_error
   \<and> retry_hint null_detail_error = Inl TypeError
   \<and> getRetryMsFromError null_detail_error (Finite 20000) = Finite 20000"
proof -
  let ?other = "JObj [(''@type'', JStr ''type.googleapis.com/google.rpc.Help'')]"
  let ?d = "JObj [(''@type'', JStr RETRY_INFO), (''retryDelay'', JStr ''2.5s'')]"
  have h: "opt_prop (opt_prop (quota_error_with_delay ''2.5s'') ''error'') ''details''
             = JArr ([?other] @ ?d # [])
      \<and> (\<forall>x\<in>set [?other]. is_detail x \<and> \<not> names_retry_info x)
      \<and> is_detail ?d \<and> names_retry_info ?d
      \<and> get_prop ?d ''retryDelay'' = JStr ''2.5s''"
    by (simp add: quota_error_with_delay_def is_detail_def names_retry_info_def RETRY_INFO_def)
  have a: "getRetryMsFromError (quota_error_with_delay ''2.5s'') (Finite 20000) = Finite 2500"
    using getRetryMsFromError_hint[of "quota_error_with_delay ''2.5s''" "[?other]" ?d "[]"
        "Finite 20000"] h
    by blast
  have n1: "\<not> parseable_hint (quota_error_with_delay ''soon'')"
    and n2: "\<not> parseable_hint plain_quota_error"
    and n3: "\<not> parseable_hint JUndefined"
    by (simp_all add: sample_no_hint)
  have i: "ill_shaped null_detail_error"
    by (simp add: ill_shaped_def null_detail_error_def unreadable_def)
  show ?thesis
    using a n1 n2 n3 i
      getRetryMsFromError_hint[of _ _ _ _ _ "quota_error_with_delay ''soon''"]
      getRetryMsFromError_hint[of _ _ _ _ _ plain_quota_error]
      getRetryMsFromError_hint[of _ _ _ _ _ JUndefined]
      getRetryMsFromError_hint[of _ _ _ _ _ _ null_detail_error]
    by blast
qed

section \<open>The retry loop and the internal functions\<close>

text \<open>
  The loop makes at most three attempts, so its run is written out attempt by attempt.
  The storage functions and the three internal functions are then run as direct-style
  equations, from which the shape of their traces follows.
\<close>

lemma loop_success:
  "remote w a = Inr resp \<Longrightarrow> run w (callWithRetry p c a g) = (Inr resp, emit (EvRemote a) g)"
  by (subst callWithRetry.simps) simp

lemma loop_nonquota:
  "remote w a = Inl e \<Longrightarrow> \<not> isQuotaError e \<Longrightarrow>
   run w (callWithRetry p c a g)
     = (Inl (fail_result (''Gemini API error. '' @ error_message p e)), emit (EvRemote a) g)"
  by (subst callWithRetry.simps) simp

lemma loop_last:
  "remote w a = Inl e \<Longrightarrow> 2 \<le> a \<Longrightarrow>
   run w (callWithRetry p c a g)
     = (Inl (fail_result (''Gemini API error. '' @ error_message p e)), emit (EvRemote a) g)"
  by (subst callWithRetry.simps) (simp add: maxAttempts_def)

lemma loop_retry:
  "remote w a = Inl e \<Longrightarrow> isQuotaError e \<Longrightarrow> a < 2 \<Longrightarrow>
   run w (callWithRetry p c a g)
     = run w (callWithRetry p c (Suc a)
         (emit (EvSleep (num_times (getRetryMsFromError e (Finite 20000)) (2 ^ a)))
            (emit (EvRemote a) g)))"
  by (subst callWithRetry.simps) (simp add: maxAttempts_def Let_def)

lemma loop_unrolled:
  "run w (callWithRetry p c 0 g) =
     (case remote w 0 of
        Inr resp \<Rightarrow> (Inr resp, g\<lparr>trace := trace g @ [EvRemote 0]\<rparr>)
      | Inl e0 \<Rightarrow>
          if \<not> isQuotaError e0 then (Inl (gave_up p e0), g\<lparr>trace := trace g @ [EvRemote 0]\<rparr>)
          else
            (case remote w 1 of
               Inr resp \<Rightarrow>
                 (Inr resp, g\<lparr>trace := trace g @ [EvRemote 0, EvSleep (backoff e0 1), EvRemote 1]\<rparr>)
             | Inl e1 \<Rightarrow>
                 if \<not> isQuotaError e1 then
                   (Inl (gave_up p e1),
                    g\<lparr>trace := trace g @ [EvRemote 0, EvSleep (backoff e0 1), EvRemote 1]\<rparr>)
                 else
                   (case remote w 2 of
                      Inr resp \<Rightarrow>
                        (Inr resp,
                         g\<lparr>trace := trace g @ [EvRemote 0, EvSleep (backoff e0 1), EvRemote 1,
                                                 EvSleep (backoff e1 2), EvRemote 2]\<rparr>)
                    | Inl e2 \<Rightarrow>
                        (Inl (gave_up p e2),
                         g\<lparr>trace := trace g @ [EvRemote 0, EvSleep (backoff e0 1), EvRemote 1,
                                                 EvSleep (backoff e1 2), EvRemote 2]\<rparr>))))"
proof -
  have two: "Suc (Suc 0) = 2" by simp
  show ?thesis
    by (auto simp: loop_success loop_nonquota loop_retry loop_last gave_up_def backoff_def
        emit_def two split: sum.splits)
qed

lemma getCachedComposite_run:
  "run w (getCachedComposite t b g) =
     (case db_select w t b of
        SbError e \<Rightarrow> (None, log_line ''Error fetching cached composite:'' (emit (EvSelect t b) g))
      | SbData d \<Rightarrow> (if truthy_str d then d else None, emit (EvSelect t b) g))"
  by (simp add: getCachedComposite_def split: sb_response.splits)

lemma uploadImage_run:
  "run w (uploadImage p bk fn g) =
     (case storage_upload w bk fn of
        SbError e \<Rightarrow> (Inl e, log_line ''Error uploading image:'' (emit (EvUpload bk fn) g))
      | SbData path \<Rightarrow> (Inr (publicUrl p path), emit (EvUpload bk fn) g))"
  by (simp add: uploadImage_def split: sb_response.splits)

lemma saveCachedComposite_run:
  "run w (saveCachedComposite t b u g) =
     (case db_upsert w t b u of
        SbError e \<Rightarrow> (Inl e, log_line ''Error saving cached composite:'' (emit (EvUpsert t b u) g))
      | SbData x \<Rightarrow> (Inr (), emit (EvUpsert t b u) g))"
  by (simp add: saveCachedComposite_def split: sb_response.splits)

lemma saveGeneratedOutfit_run:
  "run w (saveGeneratedOutfit u src g) =
     (case db_insert w u src of
        SbError e \<Rightarrow> (Inl e, log_line ''Error saving generated outfit:'' (emit (EvInsert u src) g))
      | SbData x \<Rightarrow> (Inr (), emit (EvInsert u src) g))"
  by (simp add: saveGeneratedOutfit_def split: sb_response.splits)

lemma saveToStorage_run:
  "run w (saveToStorage p t b d g) =
     (case dataUrlToFile p d (''outfit_'' @ t @ ''_'' @ b @ ''_'' @ show_nat (now p) @ ''.png'') of
        Inl e \<Rightarrow> (ok_result d, log_line ''Error saving to Supabase:'' g)
      | Inr fn \<Rightarrow>
          (case storage_upload w GENERATED fn of
             SbError e \<Rightarrow>
               (ok_result d, log_line ''Error saving to Supabase:''
                  (log_line ''Error uploading image:'' (emit (EvUpload GENERATED fn) g)))
           | SbData path \<Rightarrow>
               (case db_upsert w t b (publicUrl p path) of
                  SbError e \<Rightarrow>
                    (ok_result d, log_line ''Error saving to Supabase:''
                       (log_line ''Error saving cached composite:''
                          (emit (EvUpsert t b (publicUrl p path)) (emit (EvUpload GENERATED fn) g))))
                | SbData x \<Rightarrow>
                    (ok_result (publicUrl p path),
                     emit (EvUpsert t b (publicUrl p path)) (emit (EvUpload GENERATED fn) g)))))"
  unfolding saveToStorage_def Let_def uploadImage_def saveCachedComposite_def
  by (simp split: sum.split sb_response.split)


lemma nano_run:
  "run w (generateNanoOutfitInternal p bodyPath customPrompt g) =
     (if apiKey p = [] then (Inr (fail_result NO_KEY), g)
      else case nanoCache g (nano_key bodyPath customPrompt) of
             Some d \<Rightarrow> (Inr (ok_result d), g)
           | None \<Rightarrow>
               (case fetch w [bodyPath] of
                  None \<Rightarrow> (Inl ''Failed to load'', emit (EvFetch [bodyPath]) g)
                | Some b64 \<Rightarrow>
                    (case run w (callWithRetry p (customPrompt # b64) 0 (emit (EvFetch [bodyPath]) g)) of
                       (Inl res, g1) \<Rightarrow> (Inr res, g1)
                     | (Inr resp, g1) \<Rightarrow>
                         (case extractImage resp of
                            Inl res \<Rightarrow> (Inr res, g1)
                          | Inr d \<Rightarrow>
                              (Inr (ok_result d),
                               g1\<lparr>nanoCache := (nanoCache g1)(nano_key bodyPath customPrompt \<mapsto> d)\<rparr>)))))"
  unfolding generateNanoOutfitInternal_def Let_def nano_key_def
  by (simp add: run_bind split: option.split sum.split prod.split)

lemma transfer_run:
  "run w (generateOutfitTransferInternal p inspirationImagePath bodyPath g) =
     (if apiKey p = [] then (Inr (fail_result NO_KEY), g)
      else case transferCache g (transfer_key inspirationImagePath bodyPath) of
             Some d \<Rightarrow> (Inr (ok_result d), g)
           | None \<Rightarrow>
               (case fetch w [bodyPath, inspirationImagePath] of
                  None \<Rightarrow> (Inl ''Failed to load'', emit (EvFetch [bodyPath, inspirationImagePath]) g)
                | Some b64 \<Rightarrow>
                    (case run w (callWithRetry p (transferPrompt # b64) 0
                                   (emit (EvFetch [bodyPath, inspirationImagePath]) g)) of
                       (Inl res, g1) \<Rightarrow> (Inr res, g1)
                     | (Inr resp, g1) \<Rightarrow>
                         (case extractImage resp of
                            Inl res \<Rightarrow> (Inr res, g1)
                          | Inr d \<Rightarrow>
                              (Inr (ok_result d),
                               g1\<lparr>transferCache :=
                                    (transferCache g1)(transfer_key inspirationImagePath bodyPath \<mapsto> d)\<rparr>)))))"
  unfolding generateOutfitTransferInternal_def Let_def transfer_key_def
  by (simp add: run_bind split: option.split sum.split prod.split)

lemma outfit_run:
  "run w (generateOutfitInternal p topPath bottomPath bodyPath topId bottomId g) =
     (if apiKey p = [] then (Inr (fail_result NO_KEY), g)
      else
        case (if has_ids topId bottomId then run w (getCachedComposite (the topId) (the bottomId) g)
              else (None, g)) of
          (Some u, g0) \<Rightarrow> (Inr (ok_result u), g0)
        | (None, g0) \<Rightarrow>
            (case outfitCache g0 (cacheKeyFor topPath bottomPath bodyPath buildPrompt) of
               Some d \<Rightarrow>
                 if has_ids topId bottomId
                 then (case run w (saveToStorage p (the topId) (the bottomId) d g0) of
                         (r, g1) \<Rightarrow> (Inr r, g1))
                 else (Inr (ok_result d), g0)
             | None \<Rightarrow>
                 (case fetch w [topPath, bottomPath, bodyPath] of
                    None \<Rightarrow> (Inl ''Failed to load'', emit (EvFetch [topPath, bottomPath, bodyPath]) g0)
                  | Some b64 \<Rightarrow>
                      (case run w (callWithRetry p (buildPrompt # b64) 0
                                     (emit (EvFetch [topPath, bottomPath, bodyPath]) g0)) of
                         (Inl res, g1) \<Rightarrow> (Inr res, g1)
                       | (Inr resp, g1) \<Rightarrow>
                           (case extractImage resp of
                              Inl res \<Rightarrow> (Inr res, g1)
                            | Inr d \<Rightarrow>
                                if has_ids topId bottomId
                                then (case run w (saveToStorage p (the topId) (the bottomId) d
                                        (g1\<lparr>outfitCache := (outfitCache g1)
                                           (cacheKeyFor topPath bottomPath bodyPath buildPrompt \<mapsto> d)\<rparr>)) of
                                        (r, g2) \<Rightarrow> (Inr r, g2))
                                else (Inr (ok_result d),
                                      g1\<lparr>outfitCache := (outfitCache g1)
                                           (cacheKeyFor topPath bottomPath bodyPath buildPrompt \<mapsto> d)\<rparr>))))))"
  unfolding generateOutfitInternal_def Let_def has_ids_def
  by (auto simp add: run_bind split: option.split sum.split prod.split)


lemma remote_events_append [simp]: "remote_events (xs @ ys) = remote_events xs @ remote_events ys"
  by (simp add: remote_events_def)

lemma remote_events_Nil [simp]: "remote_events [] = []"
  by (simp add: remote_events_def)




lemma getCachedComposite_trace:
  "trace (snd (run w (getCachedComposite t b g))) = trace g @ [EvSelect t b]"
  by (simp add: getCachedComposite_run split: sb_response.splits)

lemma outfit_run_from:
  assumes "(if has_ids topId bottomId
       then run w (getCachedComposite (the topId) (the bottomId) g) else (None, g)) = (cached, g0)"
    and "apiKey p \<noteq> []"
  shows "run w (generateOutfitInternal p topPath bottomPath bodyPath topId bottomId g) =
     (case cached of
        Some u \<Rightarrow> (Inr (ok_result u), g0)
      | None \<Rightarrow>
            (case outfitCache g0 (cacheKeyFor topPath bottomPath bodyPath buildPrompt) of
               Some d \<Rightarrow>
                 if has_ids topId bottomId
                 then (case run w (saveToStorage p (the topId) (the bottomId) d g0) of
                         (r, g1) \<Rightarrow> (Inr r, g1))
                 else (Inr (ok_result d), g0)
             | None \<Rightarrow>
                 (case fetch w [topPath, bottomPath, bodyPath] of
                    None \<Rightarrow> (Inl ''Failed to load'', emit (EvFetch [topPath, bottomPath, bodyPath]) g0)
                  | Some b64 \<Rightarrow>
                      (case run w (callWithRetry p (buildPrompt # b64) 0
                                     (emit (EvFetch [topPath, bottomPath, bodyPath]) g0)) of
                         (Inl res, g1) \<Rightarrow> (Inr res, g1)
                       | (Inr resp, g1) \<Rightarrow>
                           (case extractImage resp of
                              Inl res \<Rightarrow> (Inr res, g1)
                            | Inr d \<Rightarrow>
                                if has_ids topId bottomId
                                then (case run w (saveToStorage p (the topId) (the bottomId) d
                                        (g1\<lparr>outfitCache := (outfitCache g1)
                                           (cacheKeyFor topPath bottomPath bodyPath buildPrompt \<mapsto> d)\<rparr>)) of
                                        (r, g2) \<Rightarrow> (Inr r, g2))
                                else (Inr (ok_result d),
                                      g1\<lparr>outfitCache := (outfitCache g1)
                                           (cacheKeyFor topPath bottomPath bodyPath buildPrompt \<mapsto> d)\<rparr>))))))"
  by (simp only: outfit_run assms if_False prod.case)



lemma isQuotaError_iff: "isQuotaError e \<longleftrightarrow> quota_error e"
  by (auto simp: isQuotaError_def quota_error_def error_code_def status_marker_def js_or_def Let_def)



lemma quota_samples:
  "quota_error (quota_error_with_delay d)" "quota_error plain_quota_error"
  "quota_error exhausted_error" "error_code exhausted_error = None"
  "\<not> quota_error server_error"
  by (simp_all add: quota_error_def error_code_def status_marker_def quota_error_with_delay_def
      plain_quota_error_def exhausted_error_def server_error_def)

lemma isQuota_samples:
  "isQuotaError (quota_error_with_delay d)" "isQuotaError plain_quota_error"
  by (simp_all add: isQuotaError_iff quota_samples)




section \<open>Invariants of tasks\<close>

text \<open>
  The rules of \<open>task_inv\<close>: it is sound for runs, it composes along \<open>bind\<close> and
  \<open>lift\<close>, and the postcondition can be weakened. With them: the service adds service
  events only, and each callback of the hook holds the in-flight flag.
\<close>

lemma task_inv_run: "task_inv I Q t \<Longrightarrow> Q (fst (run w t)) (snd (run w t))"
proof (induction t)
  case (Return a s) then show ?case by simp
next
  case (AwaitSelect s t b k) then show ?case using AwaitSelect.IH[OF rangeI rangeI] by simp
next
  case (AwaitFetch s ps k) then show ?case using AwaitFetch.IH[OF rangeI rangeI] by simp
next
  case (AwaitRemote s n c k) then show ?case using AwaitRemote.IH[OF rangeI rangeI] by simp
next
  case (AwaitSleep s ms k) then show ?case using AwaitSleep.IH[OF rangeI rangeI] by simp
next
  case (AwaitUpload s bk fn k) then show ?case using AwaitUpload.IH[OF rangeI rangeI] by simp
next
  case (AwaitUpsert s t b u k) then show ?case using AwaitUpsert.IH[OF rangeI rangeI] by simp
next
  case (AwaitInsert s u src k) then show ?case using AwaitInsert.IH[OF rangeI rangeI] by simp
next
  case (AwaitComposite s t b k) then show ?case using AwaitComposite.IH[OF rangeI rangeI] by simp
qed

lemma task_inv_bind:
  "task_inv I (\<lambda>a s. task_inv I Q (f a s)) t \<Longrightarrow> task_inv I Q (bind t f)"
proof (induction t)
  case (Return a s) then show ?case by simp
next
  case (AwaitSelect s t b k) then show ?case using AwaitSelect.IH[OF rangeI rangeI] by simp
next
  case (AwaitFetch s ps k) then show ?case using AwaitFetch.IH[OF rangeI rangeI] by simp
next
  case (AwaitRemote s n c k) then show ?case using AwaitRemote.IH[OF rangeI rangeI] by simp
next
  case (AwaitSleep s ms k) then show ?case using AwaitSleep.IH[OF rangeI rangeI] by simp
next
  case (AwaitUpload s bk fn k) then show ?case using AwaitUpload.IH[OF rangeI rangeI] by simp
next
  case (AwaitUpsert s t b u k) then show ?case using AwaitUpsert.IH[OF rangeI rangeI] by simp
next
  case (AwaitInsert s u src k) then show ?case using AwaitInsert.IH[OF rangeI rangeI] by simp
next
  case (AwaitComposite s t b k) then show ?case using AwaitComposite.IH[OF rangeI rangeI] by simp
qed

lemma task_inv_mono:
  "task_inv I Q t \<Longrightarrow> (\<And>a s. Q a s \<Longrightarrow> Q' a s) \<Longrightarrow> task_inv I Q' t"
proof (induction t)
  case (Return a s) then show ?case by simp
next
  case (AwaitSelect s t b k) then show ?case using AwaitSelect.IH[OF rangeI rangeI] by simp
next
  case (AwaitFetch s ps k) then show ?case using AwaitFetch.IH[OF rangeI rangeI] by simp
next
  case (AwaitRemote s n c k) then show ?case using AwaitRemote.IH[OF rangeI rangeI] by simp
next
  case (AwaitSleep s ms k) then show ?case using AwaitSleep.IH[OF rangeI rangeI] by simp
next
  case (AwaitUpload s bk fn k) then show ?case using AwaitUpload.IH[OF rangeI rangeI] by simp
next
  case (AwaitUpsert s t b u k) then show ?case using AwaitUpsert.IH[OF rangeI rangeI] by simp
next
  case (AwaitInsert s u src k) then show ?case using AwaitInsert.IH[OF rangeI rangeI] by simp
next
  case (AwaitComposite s t b k) then show ?case using AwaitComposite.IH[OF rangeI rangeI] by simp
qed

lemma task_inv_seq:
  "task_inv I Q' t \<Longrightarrow> (\<And>a s. Q' a s \<Longrightarrow> task_inv I Q (f a s)) \<Longrightarrow> task_inv I Q (bind t f)"
  by (rule task_inv_bind) (erule task_inv_mono)

lemma task_inv_lift:
  assumes "task_inv J R t"
    and "I h"
    and "\<And>h'. I h' \<Longrightarrow> J (glob h')"
    and "\<And>h' g. I h' \<Longrightarrow> J g \<Longrightarrow> I (h'\<lparr>glob := g\<rparr>)"
    and "\<And>a h' g. I h' \<Longrightarrow> R a g \<Longrightarrow> Q a (h'\<lparr>glob := g\<rparr>)"
  shows "task_inv I Q (lift t h)"
  using assms(1,2)
proof (induction t arbitrary: h)
  case (Return a s) then show ?case using assms(5) by simp
next
  case (AwaitSelect s t b k) then show ?case
    using AwaitSelect.IH[OF rangeI rangeI] assms(3,4) by simp
next
  case (AwaitFetch s ps k) then show ?case
    using AwaitFetch.IH[OF rangeI rangeI] assms(3,4) by simp
next
  case (AwaitRemote s n c k) then show ?case
    using AwaitRemote.IH[OF rangeI rangeI] assms(3,4) by simp
next
  case (AwaitSleep s ms k) then show ?case
    using AwaitSleep.IH[OF rangeI rangeI] assms(3,4) by simp
next
  case (AwaitUpload s bk fn k) then show ?case
    using AwaitUpload.IH[OF rangeI rangeI] assms(3,4) by simp
next
  case (AwaitUpsert s t b u k) then show ?case
    using AwaitUpsert.IH[OF rangeI rangeI] assms(3,4) by simp
next
  case (AwaitInsert s u src k) then show ?case
    using AwaitInsert.IH[OF rangeI rangeI] assms(3,4) by simp
next
  case (AwaitComposite s t b k) then show ?case
    using AwaitComposite.IH[OF rangeI rangeI] assms(3,4) by simp
qed

lemma grows_emit: "grows_by P base g \<Longrightarrow> P e \<Longrightarrow> grows_by P base (emit e g)"
  by (auto simp: grows_by_def)

lemma grows_log [simp]: "grows_by P base (log_line m g) = grows_by P base g"
  by (simp add: grows_by_def)

lemma grows_caches [simp]:
  "grows_by P base (g\<lparr>outfitCache := oc\<rparr>) = grows_by P base g"
  "grows_by P base (g\<lparr>nanoCache := nc\<rparr>) = grows_by P base g"
  "grows_by P base (g\<lparr>transferCache := tc\<rparr>) = grows_by P base g"
  by (simp_all add: grows_by_def)

lemma grows_refl: "grows_by P (trace g) g"
  by (simp add: grows_by_def)

lemma inv_getCachedComposite:
  "grows_by P base g \<Longrightarrow> P (EvSelect t b)
   \<Longrightarrow> task_inv (grows_by P base) (\<lambda>a. grows_by P base) (getCachedComposite t b g)"
  by (simp add: getCachedComposite_def grows_emit split: sb_response.splits)

lemma inv_uploadImage:
  "grows_by P base g \<Longrightarrow> P (EvUpload bk fn)
   \<Longrightarrow> task_inv (grows_by P base) (\<lambda>a. grows_by P base) (uploadImage p bk fn g)"
  by (simp add: uploadImage_def grows_emit split: sb_response.splits)

lemma inv_saveCachedComposite:
  "grows_by P base g \<Longrightarrow> P (EvUpsert t b u)
   \<Longrightarrow> task_inv (grows_by P base) (\<lambda>a. grows_by P base) (saveCachedComposite t b u g)"
  by (simp add: saveCachedComposite_def grows_emit split: sb_response.splits)

lemma inv_saveGeneratedOutfit:
  "grows_by P base g \<Longrightarrow> P (EvInsert u src)
   \<Longrightarrow> task_inv (grows_by P base) (\<lambda>a. grows_by P base) (saveGeneratedOutfit u src g)"
  by (simp add: saveGeneratedOutfit_def grows_emit split: sb_response.splits)

lemma inv_saveToStorage:
  assumes "grows_by P base g" and "\<And>e. svc_event e \<Longrightarrow> P e"
  shows "task_inv (grows_by P base) (\<lambda>a. grows_by P base) (saveToStorage p t b d g)"
  unfolding saveToStorage_def Let_def
  using assms
  by (auto split: sum.splits
      intro!: task_inv_seq[where Q'="\<lambda>a. grows_by P base"] inv_uploadImage inv_saveCachedComposite)

lemma inv_callWithRetry:
  assumes "\<And>e. svc_event e \<Longrightarrow> P e"
  shows "grows_by P base g
   \<Longrightarrow> task_inv (grows_by P base) (\<lambda>a. grows_by P base) (callWithRetry p c a g)"
proof (induction "3 - a" arbitrary: a g)
  case 0
  then show ?case
    by (subst callWithRetry.simps) (auto simp: maxAttempts_def assms grows_emit split: sum.splits)
next
  case (Suc n)
  have "n = 3 - Suc a" using Suc.hyps(2) by simp
  note ih = Suc.hyps(1)[OF this]
  show ?case
    using Suc.prems
    by (subst callWithRetry.simps)
       (auto simp: maxAttempts_def Let_def assms grows_emit split: sum.splits intro!: ih)
qed

lemma inv_nano:
  assumes "grows_by P base g" and "\<And>e. svc_event e \<Longrightarrow> P e"
  shows "task_inv (grows_by P base) (\<lambda>a. grows_by P base)
           (generateNanoOutfitInternal p bodyPath customPrompt g)"
  unfolding generateNanoOutfitInternal_def Let_def
  using assms
  by (auto split: sum.splits option.splits simp: grows_emit
      intro!: task_inv_seq[where Q'="\<lambda>a. grows_by P base"] inv_callWithRetry)

lemma inv_transfer:
  assumes "grows_by P base g" and "\<And>e. svc_event e \<Longrightarrow> P e"
  shows "task_inv (grows_by P base) (\<lambda>a. grows_by P base)
           (generateOutfitTransferInternal p inspirationImagePath bodyPath g)"
  unfolding generateOutfitTransferInternal_def Let_def
  using assms
  by (auto split: sum.splits option.splits simp: grows_emit
      intro!: task_inv_seq[where Q'="\<lambda>a. grows_by P base"] inv_callWithRetry)

lemma inv_outfit:
  assumes "grows_by P base g" and "\<And>e. svc_event e \<Longrightarrow> P e"
  shows "task_inv (grows_by P base) (\<lambda>a. grows_by P base)
           (generateOutfitInternal p topPath bottomPath bodyPath topId bottomId g)"
  unfolding generateOutfitInternal_def Let_def
  using assms
  by (auto split: sum.splits option.splits simp: grows_emit
      intro!: task_inv_seq[where Q'="\<lambda>a. grows_by P base"] inv_callWithRetry
        inv_getCachedComposite inv_saveToStorage)

lemma hook_simps [simp]:
  "inFlight (hemit e h) = inFlight h" "inFlight (hlog m h) = inFlight h"
  "cacheRef (hemit e h) = cacheRef h" "cacheRef (hlog m h) = cacheRef h"
  "generatedImage (hemit e h) = generatedImage h" "generatedImage (hlog m h) = generatedImage h"
  "isComposite (hemit e h) = isComposite h" "isComposite (hlog m h) = isComposite h"
  "error (hemit e h) = error h" "error (hlog m h) = error h"
  "glob (hemit e h) = emit e (glob h)" "glob (hlog m h) = log_line m (glob h)"
  by (simp_all add: hemit_def hlog_def)

lemma finish_simps [simp]:
  "inFlight (finish h) = False" "cacheRef (finish h) = cacheRef h"
  "generatedImage (finish h) = generatedImage h" "isComposite (finish h) = isComposite h"
  "error (finish h) = error h" "glob (finish h) = glob h"
  by (simp_all add: finish_def)

lemma caught_simps [simp]:
  "inFlight (caught l m h) = inFlight h" "cacheRef (caught l m h) = cacheRef h"
  "generatedImage (caught l m h) = None" "isComposite (caught l m h) = False"
  "error (caught l m h) = Some m" "glob (caught l m h) = log_line l (glob h)"
  by (simp_all add: caught_def)

lemma task_inv_trivial: "task_inv (\<lambda>s. True) (\<lambda>a s. True) t"
proof (induction t)
  case (Return a s) show ?case by simp
next
  case (AwaitSelect s t b k) show ?case using AwaitSelect.IH[OF rangeI rangeI] by simp
next
  case (AwaitFetch s ps k) show ?case using AwaitFetch.IH[OF rangeI rangeI] by simp
next
  case (AwaitRemote s n c k) show ?case using AwaitRemote.IH[OF rangeI rangeI] by simp
next
  case (AwaitSleep s ms k) show ?case using AwaitSleep.IH[OF rangeI rangeI] by simp
next
  case (AwaitUpload s bk fn k) show ?case using AwaitUpload.IH[OF rangeI rangeI] by simp
next
  case (AwaitUpsert s t b u k) show ?case using AwaitUpsert.IH[OF rangeI rangeI] by simp
next
  case (AwaitInsert s u src k) show ?case using AwaitInsert.IH[OF rangeI rangeI] by simp
next
  case (AwaitComposite s t b k) show ?case using AwaitComposite.IH[OF rangeI rangeI] by simp
qed

text \<open>A service task run inside the hook keeps whatever does not depend on \<open>glob\<close>.\<close>

lemma lift_keeps:
  assumes "I h" and "\<And>h' g. I h' \<Longrightarrow> I (h'\<lparr>glob := g\<rparr>)"
  shows "task_inv I (\<lambda>a. I) (lift t h)"
  by (rule task_inv_lift[where J="\<lambda>g. True" and R="\<lambda>a g. True"])
     (simp_all add: task_inv_trivial assms)

lemma flag_uploadAndRecord:
  "inFlight h \<Longrightarrow> task_inv inFlight (\<lambda>a. inFlight) (uploadAndRecord p pre src u h)"
  unfolding uploadAndRecord_def
  by (auto split: sum.splits intro!: task_inv_seq[where Q'="\<lambda>a. inFlight"] lift_keeps)

lemma flag_generateOutfit:
  "\<not> inFlight h \<Longrightarrow> task_inv inFlight (\<lambda>a h. \<not> inFlight h) (generateOutfit p top_item bottom_item h)"
  unfolding generateOutfit_def Let_def
  by (auto split: sum.splits option.splits intro!: task_inv_seq[where Q'="\<lambda>a. inFlight"] lift_keeps)

lemma flag_generateNanoOutfit:
  "\<not> inFlight h \<Longrightarrow> task_inv inFlight (\<lambda>a h. \<not> inFlight h) (generateNanoOutfit p occasion h)"
  unfolding generateNanoOutfit_def Let_def
  by (auto split: sum.splits option.splits
      intro!: task_inv_seq[where Q'="\<lambda>a. inFlight"] lift_keeps flag_uploadAndRecord)

lemma flag_generateOutfitTransfer:
  "\<not> inFlight h \<Longrightarrow> task_inv inFlight (\<lambda>a h. \<not> inFlight h) (generateOutfitTransfer p inspirationFile h)"
  unfolding generateOutfitTransfer_def Let_def
  by (auto split: sum.splits option.splits
      intro!: task_inv_seq[where Q'="\<lambda>a. inFlight"] lift_keeps flag_uploadAndRecord)

lemma flag_invoke:
  "\<not> inFlight h \<Longrightarrow> task_inv inFlight (\<lambda>a h. \<not> inFlight h) (invoke p c h)"
  by (cases c) (simp_all add: flag_generateOutfit flag_generateNanoOutfit flag_generateOutfitTransfer)

lemma invoke_in_flight:
  "inFlight h \<Longrightarrow> invoke p c h = Return () (hlog IN_FLIGHT_WARNING h)"
  by (cases c) (simp_all add: generateOutfit_def generateNanoOutfit_def generateOutfitTransfer_def)

lemma guarded_settle: "guarded t \<Longrightarrow> page_inv (task_state t, settle t)"
  by (cases t) (simp_all add: guarded_def page_inv_def settle_def)

lemma guarded_resumes: "resumes t h t' \<Longrightarrow> guarded t \<Longrightarrow> inFlight h \<Longrightarrow> guarded t'"
  by (induction rule: resumes.induct) (simp_all add: guarded_def)

lemma resumes_suspended: "resumes t h t' \<Longrightarrow> suspended t"
  by (induction rule: resumes.induct) simp_all

lemma step_inv: "step pg pg' \<Longrightarrow> page_inv pg \<Longrightarrow> page_inv pg'"
proof (induction rule: step.induct)
  case (invoked t p c h ts)
  show ?case
  proof (cases "inFlight h")
    case True
    then have "t = Return () (hlog IN_FLIGHT_WARNING h)" using invoked by (simp add: invoke_in_flight)
    then show ?thesis using invoked True by (auto simp: page_inv_def settle_def)
  next
    case False
    then have "ts = []" using invoked by (auto simp: page_inv_def)
    moreover have "guarded t" using False invoked by (simp add: guarded_def flag_invoke)
    ultimately show ?thesis using guarded_settle by simp
  qed
next
  case (resumed i ts h t)
  then obtain t0 where t0: "ts = [t0]" "inFlight h" "guarded t0"
    by (auto simp: page_inv_def)
  then have "i = 0" using resumed by simp
  then have "guarded t" using resumed t0 guarded_resumes by auto
  then show ?case using guarded_settle[of t] t0 \<open>i = 0\<close> by simp
qed

lemma reachable_inv: "reachable pg \<Longrightarrow> page_inv pg"
proof (induction rule: reachable.induct)
  case (initial h) then show ?case by (simp add: page_inv_def)
next
  case (later pg pg') then show ?case using step_inv by blast
qed

text \<open>
  C5. The page is one shared hook state and the list of its suspended operations; a step
  is a call of one of the three callbacks (its synchronous part runs at once) or the
  resumption of a suspended operation with any answer. In every reachable page at most
  one operation is suspended; the flag is set exactly while one is; the suspended
  operation keeps the flag set at each of its later suspensions and clears it when it
  returns; and a call made while one is suspended returns at once, adding the warning to
  the console and changing neither the trace (so no rate limiter call) nor any cache.
\<close>

theorem single_flight:
  assumes "reachable (h, ts)"
  shows "length ts \<le> 1
     \<and> (inFlight h \<longleftrightarrow> ts \<noteq> [])
     \<and> (\<forall>t\<in>set ts. suspended t \<and> guarded t)
     \<and> (ts \<noteq> [] \<longrightarrow>
          (\<forall>p c. invoke p c h = Return () (hlog IN_FLIGHT_WARNING h)
             \<and> trace (glob (hlog IN_FLIGHT_WARNING h)) = trace (glob h)
             \<and> cacheRef (hlog IN_FLIGHT_WARNING h) = cacheRef h
             \<and> outfitCache (glob (hlog IN_FLIGHT_WARNING h)) = outfitCache (glob h)
             \<and> nanoCache (glob (hlog IN_FLIGHT_WARNING h)) = nanoCache (glob h)
             \<and> transferCache (glob (hlog IN_FLIGHT_WARNING h)) = transferCache (glob h)
             \<and> generatedImage (hlog IN_FLIGHT_WARNING h) = generatedImage h
             \<and> error (hlog IN_FLIGHT_WARNING h) = error h))"
proof -
  have "page_inv (h, ts)" using assms by (rule reachable_inv)
  then show ?thesis
    by (auto simp: page_inv_def invoke_in_flight log_line_def)
qed

theorem single_flight_witness:
  "reachable (task_state (invoke test_platform (CallNano ''a party'') idle_hook),
              [invoke test_platform (CallNano ''a party'') idle_hook])
   \<and> inFlight (task_state (invoke test_platform (CallNano ''a party'') idle_hook))
   \<and> invoke test_platform (CallNano ''a beach'')
        (task_state (invoke test_platform (CallNano ''a party'') idle_hook))
      = Return () (hlog IN_FLIGHT_WARNING
          (task_state (invoke test_platform (CallNano ''a party'') idle_hook)))"
proof -
  let ?t = "invoke test_platform (CallNano ''a party'') idle_hook"
  have s: "suspended ?t"
    by (simp add: generateNanoOutfit_def idle_hook_def test_platform_def empty_globals_def
        OutfitGenerator_generateNanoOutfit_def generateNanoOutfitInternal_def Let_def
        hemit_def emit_def)
  have "reachable (idle_hook, [])" by (rule reachable.initial) (simp add: idle_hook_def)
  moreover have "step (idle_hook, []) (task_state ?t, [] @ settle ?t)"
    by (rule step.invoked[OF refl])
  ultimately have r: "reachable (task_state ?t, [?t])"
    using s reachable.later by (fastforce simp: settle_def)
  show ?thesis using single_flight[OF r] r by simp
qed

section \<open>The rate limiter gate and the object URL\<close>

text \<open>
  Once a callback has recorded the call, everything it adds to the trace is a service
  event, the compositing call or the revocation of the object URL.
\<close>

lemma hgrows_simps [simp]:
  "hgrows P base (hlog m h) = hgrows P base h"
  "hgrows P base (finish h) = hgrows P base h"
  "hgrows P base (caught l m h) = hgrows P base h"
  "hgrows P base (h\<lparr>generatedImage := gi\<rparr>) = hgrows P base h"
  "hgrows P base (h\<lparr>isComposite := ic\<rparr>) = hgrows P base h"
  "hgrows P base (h\<lparr>error := er\<rparr>) = hgrows P base h"
  "hgrows P base (h\<lparr>cacheRef := cr\<rparr>) = hgrows P base h"
  "hgrows P base (h\<lparr>inFlight := fl\<rparr>) = hgrows P base h"
  "hgrows P base (h\<lparr>isGenerating := ig\<rparr>) = hgrows P base h"
  by (simp_all add: hgrows_def)

lemma hgrows_emit: "hgrows P base h \<Longrightarrow> P e \<Longrightarrow> hgrows P base (hemit e h)"
  by (simp add: hgrows_def grows_emit)

lemma hgrows_start: "hgrows P (trace (glob h)) h"
  by (simp add: hgrows_def grows_refl)

lemma lift_grows:
  "hgrows P base h \<Longrightarrow> task_inv (grows_by P base) (\<lambda>a. grows_by P base) t
   \<Longrightarrow> task_inv (hgrows P base) (\<lambda>a. hgrows P base) (lift t h)"
  by (rule task_inv_lift[where J="grows_by P base" and R="\<lambda>a. grows_by P base"])
     (simp_all add: hgrows_def)

lemma grows_uploadAndRecord:
  assumes "hgrows P base h" and "\<And>e. svc_event e \<Longrightarrow> P e"
  shows "task_inv (hgrows P base) (\<lambda>a. hgrows P base) (uploadAndRecord p pre src u h)"
  unfolding uploadAndRecord_def
  using assms
  by (auto split: sum.splits simp: hgrows_def[symmetric]
      intro!: task_inv_seq[where Q'="\<lambda>a. hgrows P base"] lift_grows
        inv_uploadImage inv_saveGeneratedOutfit)

lemma after_record_svc: "svc_event e \<Longrightarrow> after_record e"
  by (cases e) simp_all

lemma grows_generateOutfit:
  assumes "\<not> inFlight h" "cacheRef h (''outfit::'' @ item_id top_item @ ''::'' @ item_id bottom_item) = None"
    "allowed (canMakeCall p)"
  shows "task_inv (hgrows after_record (trace (glob h) @ [EvRateCheck, EvRecordCall, EvGetStatus]))
           (\<lambda>a. hgrows after_record (trace (glob h) @ [EvRateCheck, EvRecordCall, EvGetStatus]))
           (generateOutfit p top_item bottom_item h)"
proof -
  let ?base = "trace (glob h) @ [EvRateCheck, EvRecordCall, EvGetStatus]"
  let ?h1 = "hemit EvGetStatus (hemit EvRecordCall
       ((hemit EvRateCheck (h\<lparr>inFlight := True\<rparr>))\<lparr>isGenerating := True, error := None, isComposite := False\<rparr>))"
  have b: "hgrows after_record ?base ?h1"
    by (simp add: hgrows_def grows_by_def hemit_def emit_def)
  have b': "grows_by after_record ?base (emit EvGetStatus (emit EvRecordCall (emit EvRateCheck (glob h))))"
    by (simp add: grows_by_def emit_def)
  show ?thesis
    unfolding generateOutfit_def Let_def OutfitGenerator_generateOutfit_def
    using assms b b'
    by (auto split: sum.splits simp: hgrows_emit after_record_svc
        intro!: task_inv_seq[where Q'="\<lambda>a. hgrows after_record ?base"] lift_grows inv_outfit)
qed

lemma grows_generateNanoOutfit:
  assumes "\<not> inFlight h" "cacheRef h (''nano::'' @ occasion) = None" "allowed (canMakeCall p)"
  shows "task_inv (hgrows after_record (trace (glob h) @ [EvRateCheck, EvRecordCall, EvGetStatus]))
           (\<lambda>a. hgrows after_record (trace (glob h) @ [EvRateCheck, EvRecordCall, EvGetStatus]))
           (generateNanoOutfit p occasion h)"
proof -
  let ?base = "trace (glob h) @ [EvRateCheck, EvRecordCall, EvGetStatus]"
  let ?h1 = "hemit EvGetStatus (hemit EvRecordCall
       ((hemit EvRateCheck (h\<lparr>inFlight := True\<rparr>))\<lparr>isGenerating := True, error := None, isComposite := False\<rparr>))"
  have b: "hgrows after_record ?base ?h1"
    by (simp add: hgrows_def grows_by_def hemit_def emit_def)
  have b': "grows_by after_record ?base (emit EvGetStatus (emit EvRecordCall (emit EvRateCheck (glob h))))"
    by (simp add: grows_by_def emit_def)
  show ?thesis
    unfolding generateNanoOutfit_def Let_def OutfitGenerator_generateNanoOutfit_def
    using assms b b'
    by (auto split: sum.splits simp: hgrows_emit after_record_svc
        intro!: task_inv_seq[where Q'="\<lambda>a. hgrows after_record ?base"] lift_grows inv_nano
          grows_uploadAndRecord)
qed

lemma grows_generateOutfitTransfer:
  assumes "\<not> inFlight h"
    "cacheRef h (''transfer::'' @ file_name f @ ''::'' @ show_nat (file_size f)) = None"
    "allowed (canMakeCall p)"
  shows "task_inv
           (hgrows after_record (trace (glob h) @
              [EvCreateObjectURL (createObjectURL p f), EvRateCheck, EvRecordCall, EvGetStatus]))
           (\<lambda>a. hgrows after_record (trace (glob h) @
              [EvCreateObjectURL (createObjectURL p f), EvRateCheck, EvRecordCall, EvGetStatus]))
           (generateOutfitTransfer p f h)"
proof -
  let ?u = "createObjectURL p f"
  let ?base = "trace (glob h) @ [EvCreateObjectURL ?u, EvRateCheck, EvRecordCall, EvGetStatus]"
  let ?h1 = "hemit EvGetStatus (hemit EvRecordCall
       ((hemit EvRateCheck (hemit (EvCreateObjectURL ?u) (h\<lparr>inFlight := True\<rparr>)))
          \<lparr>isGenerating := True, error := None, isComposite := False\<rparr>))"
  have b: "hgrows after_record ?base ?h1"
    by (simp add: hgrows_def grows_by_def hemit_def emit_def)
  have b': "grows_by after_record ?base
      (emit EvGetStatus (emit EvRecordCall (emit EvRateCheck (emit (EvCreateObjectURL ?u) (glob h)))))"
    by (simp add: grows_by_def emit_def)
  show ?thesis
    unfolding generateOutfitTransfer_def Let_def OutfitGenerator_generateOutfitTransfer_def
    using assms b b'
    by (auto split: sum.splits simp: hgrows_emit after_record_svc
        intro!: task_inv_seq[where Q'="\<lambda>a. hgrows after_record ?base"] lift_grows inv_transfer
          grows_uploadAndRecord)
qed

lemma grows_invoke:
  assumes "\<not> inFlight h" "cacheRef h (hook_key c) = None" "allowed (canMakeCall p)"
  shows "hgrows after_record (trace (glob h) @ before_record p c @ [EvRecordCall, EvGetStatus])
           (snd (run w (invoke p c h)))"
proof (cases c)
  case (CallOutfit t b)
  then show ?thesis
    using task_inv_run[OF grows_generateOutfit[of h t b p], of w] assms by simp
next
  case (CallNano occ)
  then show ?thesis
    using task_inv_run[OF grows_generateNanoOutfit[of h occ p], of w] assms by simp
next
  case (CallTransfer f)
  then show ?thesis
    using task_inv_run[OF grows_generateOutfitTransfer[of h f p], of w] assms by simp
qed

lemma invoke_denied:
  assumes "\<not> inFlight h" "cacheRef h (hook_key c) = None" "\<not> allowed (canMakeCall p)"
  shows "\<exists>h'. invoke p c h = Return () h'
     \<and> error h' = Some (denial_message (canMakeCall p))
     \<and> generatedImage h' = None \<and> \<not> isComposite h' \<and> \<not> inFlight h'
     \<and> cacheRef h' = cacheRef h
     \<and> trace (glob h') = trace (glob h) @ before_record p c
          @ (case c of CallTransfer f \<Rightarrow> [EvRevokeObjectURL (createObjectURL p f)] | _ \<Rightarrow> [])"
  using assms
  by (cases c)
     (simp_all add: generateOutfit_def generateNanoOutfit_def generateOutfitTransfer_def Let_def)

lemma after_record_not_record: "list_all after_record evs \<Longrightarrow> EvRecordCall \<notin> set evs"
  by (induction evs) auto

text \<open>
  C7. For each mode, on a call that is not in flight and misses the memory tier: when
  the rate limiter denies, the call returns without suspending, shows the decision's
  reason (\<open>reason || "Rate limit exceeded"\<close>, the reason itself when it is present and
  not empty) with no generated image, and records no call and makes no remote call;
  when it allows, the call is recorded exactly once and no remote call precedes it.
\<close>

theorem rate_limit_gate:
  assumes "\<not> inFlight h" and "cacheRef h (hook_key c) = None"
  shows "(\<not> allowed (canMakeCall p) \<longrightarrow>
            (\<exists>h'. invoke p c h = Return () h'
               \<and> error h' = Some (denial_message (canMakeCall p))
               \<and> generatedImage h' = None
               \<and> EvRecordCall \<notin> set (new_events (glob h) (glob h'))
               \<and> remote_events (new_events (glob h) (glob h')) = []))
     \<and> (\<forall>r. reason (canMakeCall p) = Some r \<and> r \<noteq> [] \<longrightarrow> denial_message (canMakeCall p) = r)
     \<and> (allowed (canMakeCall p) \<longrightarrow>
            (\<exists>post. new_events (glob h) (glob (snd (run w (invoke p c h))))
                       = before_record p c @ EvRecordCall # post
               \<and> EvRecordCall \<notin> set post
               \<and> EvRecordCall \<notin> set (before_record p c)
               \<and> remote_events (before_record p c) = []))"
proof (intro conjI impI allI)
  assume d: "\<not> allowed (canMakeCall p)"
  from invoke_denied[OF assms d] obtain h' where h':
    "invoke p c h = Return () h'" "error h' = Some (denial_message (canMakeCall p))"
    "generatedImage h' = None"
    "trace (glob h') = trace (glob h) @ before_record p c
          @ (case c of CallTransfer f \<Rightarrow> [EvRevokeObjectURL (createObjectURL p f)] | _ \<Rightarrow> [])"
    by blast
  have "new_events (glob h) (glob h') = before_record p c
          @ (case c of CallTransfer f \<Rightarrow> [EvRevokeObjectURL (createObjectURL p f)] | _ \<Rightarrow> [])"
    using h'(4) by (rule new_events_append)
  then have "EvRecordCall \<notin> set (new_events (glob h) (glob h'))
      \<and> remote_events (new_events (glob h) (glob h')) = []"
    by (cases c) (simp_all add: remote_events_def)
  then show "\<exists>h'. invoke p c h = Return () h'
               \<and> error h' = Some (denial_message (canMakeCall p))
               \<and> generatedImage h' = None
               \<and> EvRecordCall \<notin> set (new_events (glob h) (glob h'))
               \<and> remote_events (new_events (glob h) (glob h')) = []"
    using h' by blast
next
  fix r assume "reason (canMakeCall p) = Some r \<and> r \<noteq> []"
  then show "denial_message (canMakeCall p) = r"
    by (simp add: denial_message_def truthy_str_def)
next
  assume a: "allowed (canMakeCall p)"
  from grows_invoke[OF assms a, of w] obtain evs where evs:
    "trace (glob (snd (run w (invoke p c h))))
       = (trace (glob h) @ before_record p c @ [EvRecordCall, EvGetStatus]) @ evs"
    "list_all after_record evs"
    unfolding hgrows_def grows_by_def by blast
  then have "trace (glob (snd (run w (invoke p c h))))
       = trace (glob h) @ (before_record p c @ EvRecordCall # EvGetStatus # evs)" by simp
  then have "new_events (glob h) (glob (snd (run w (invoke p c h))))
       = before_record p c @ EvRecordCall # (EvGetStatus # evs)"
    by (rule new_events_append)
  moreover have "EvRecordCall \<notin> set (EvGetStatus # evs)"
    using after_record_not_record[OF evs(2)] by simp
  moreover have "EvRecordCall \<notin> set (before_record p c) \<and> remote_events (before_record p c) = []"
    by (cases c) (simp_all add: remote_events_def)
  ultimately show "\<exists>post. new_events (glob h) (glob (snd (run w (invoke p c h))))
                       = before_record p c @ EvRecordCall # post
               \<and> EvRecordCall \<notin> set post
               \<and> EvRecordCall \<notin> set (before_record p c)
               \<and> remote_events (before_record p c) = []"
    by blast
qed

theorem rate_limit_gate_witness:
  "error (task_state (invoke deny_platform (CallNano ''a party'') idle_hook)) = Some ''cooldown''
   \<and> generatedImage (task_state (invoke deny_platform (CallNano ''a party'') idle_hook)) = None
   \<and> (\<exists>post. new_events (glob idle_hook)
                 (glob (snd (run quota_world (invoke test_platform (CallNano ''a party'') idle_hook))))
               = [EvRateCheck] @ EvRecordCall # post \<and> EvRecordCall \<notin> set post)"
proof -
  let ?c = "CallNano ''a party''"
  have h1: "\<not> inFlight idle_hook" and h2: "cacheRef idle_hook (hook_key ?c) = None"
    by (simp_all add: idle_hook_def)
  have d: "\<not> allowed (canMakeCall deny_platform)"
    "reason (canMakeCall deny_platform) = Some ''cooldown'' \<and> ''cooldown'' \<noteq> []"
    by (simp_all add: deny_platform_def)
  have a: "allowed (canMakeCall test_platform)" by (simp add: test_platform_def)
  from rate_limit_gate[OF h1 h2, of deny_platform quota_world] d
  have "\<exists>h'. invoke deny_platform ?c idle_hook = Return () h' \<and> error h' = Some ''cooldown''
          \<and> generatedImage h' = None"
    by auto
  then have p1: "error (task_state (invoke deny_platform ?c idle_hook)) = Some ''cooldown''
     \<and> generatedImage (task_state (invoke deny_platform ?c idle_hook)) = None"
    by auto
  from rate_limit_gate[OF h1 h2, of test_platform quota_world] a
  have "\<exists>post. new_events (glob idle_hook)
                 (glob (snd (run quota_world (invoke test_platform ?c idle_hook))))
               = [EvRateCheck] @ EvRecordCall # post \<and> EvRecordCall \<notin> set post"
    by auto
  then show ?thesis using p1 by blast
qed

lemma closes_emit: "hgrows no_url base h \<Longrightarrow> closes base e (hemit e h)"
  by (auto simp: closes_def hgrows_def grows_by_def)

lemma no_url_svc: "svc_event e \<Longrightarrow> no_url e"
  by (cases e) (simp_all add: no_url_def)

lemma closes_generateOutfitTransfer:
  assumes "\<not> inFlight h"
  shows "task_inv (hgrows no_url (trace (glob h) @ [EvCreateObjectURL (createObjectURL p f)]))
           (\<lambda>a. closes (trace (glob h) @ [EvCreateObjectURL (createObjectURL p f)])
                   (EvRevokeObjectURL (createObjectURL p f)))
           (generateOutfitTransfer p f h)"
proof -
  let ?u = "createObjectURL p f"
  let ?base = "trace (glob h) @ [EvCreateObjectURL ?u]"
  have b: "hgrows no_url ?base (hemit (EvCreateObjectURL ?u) (h\<lparr>inFlight := True\<rparr>))"
    by (simp add: hgrows_def grows_by_def hemit_def emit_def)
  have b': "grows_by no_url ?base (emit (EvCreateObjectURL ?u) (glob h))"
    by (simp add: grows_by_def emit_def)
  have e: "no_url EvRateCheck" "no_url EvRecordCall" "no_url EvGetStatus"
    by (simp_all add: no_url_def)
  show ?thesis
    unfolding generateOutfitTransfer_def Let_def OutfitGenerator_generateOutfitTransfer_def
    using assms b b' e
    by (auto split: sum.splits option.splits simp: hgrows_emit no_url_svc grows_emit
        intro!: task_inv_seq[where Q'="\<lambda>a. hgrows no_url ?base"] lift_grows inv_transfer
          grows_uploadAndRecord closes_emit)
qed

text \<open>
  C10. Whatever the world answers, a transfer operation that passes the in-flight guard
  creates the object URL first and revokes that same URL last, with no other object-URL
  event between: on the memory hit, on the denial, on every failure and on success. A
  call rejected by the guard creates no URL.
\<close>

theorem object_url_released:
  "(inFlight h \<longrightarrow>
      new_events (glob h) (glob (snd (run w (generateOutfitTransfer p f h)))) = [])
   \<and> (\<not> inFlight h \<longrightarrow>
        (\<exists>mid. new_events (glob h) (glob (snd (run w (generateOutfitTransfer p f h))))
                 = EvCreateObjectURL (createObjectURL p f) # mid
                     @ [EvRevokeObjectURL (createObjectURL p f)]
           \<and> list_all no_url mid))"
proof (intro conjI impI)
  assume "inFlight h"
  then show "new_events (glob h) (glob (snd (run w (generateOutfitTransfer p f h)))) = []"
    by (simp add: generateOutfitTransfer_def new_events_def log_line_def)
next
  assume n: "\<not> inFlight h"
  from task_inv_run[OF closes_generateOutfitTransfer[OF n, of p f], of w]
  obtain mid where mid:
    "trace (glob (snd (run w (generateOutfitTransfer p f h))))
       = (trace (glob h) @ [EvCreateObjectURL (createObjectURL p f)]) @ mid
           @ [EvRevokeObjectURL (createObjectURL p f)]"
    "list_all no_url mid"
    unfolding closes_def by blast
  then have "trace (glob (snd (run w (generateOutfitTransfer p f h))))
       = trace (glob h) @ (EvCreateObjectURL (createObjectURL p f) # mid
           @ [EvRevokeObjectURL (createObjectURL p f)])" by simp
  then have "new_events (glob h) (glob (snd (run w (generateOutfitTransfer p f h))))
       = EvCreateObjectURL (createObjectURL p f) # mid @ [EvRevokeObjectURL (createObjectURL p f)]"
    by (rule new_events_append)
  then show "\<exists>mid. new_events (glob h) (glob (snd (run w (generateOutfitTransfer p f h))))
                 = EvCreateObjectURL (createObjectURL p f) # mid
                     @ [EvRevokeObjectURL (createObjectURL p f)]
           \<and> list_all no_url mid"
    using mid(2) by blast
qed

theorem object_url_released_witness:
  "hd (new_events (glob idle_hook)
         (glob (snd (run quota_world (generateOutfitTransfer test_platform sample_file idle_hook)))))
     = EvCreateObjectURL ''blob:look.png''
   \<and> last (new_events (glob idle_hook)
         (glob (snd (run quota_world (generateOutfitTransfer test_platform sample_file idle_hook)))))
     = EvRevokeObjectURL ''blob:look.png''
   \<and> new_events (glob (idle_hook\<lparr>inFlight := True\<rparr>))
         (glob (snd (run quota_world
            (generateOutfitTransfer test_platform sample_file (idle_hook\<lparr>inFlight := True\<rparr>))))) = []"
proof -
  have u: "createObjectURL test_platform sample_file = ''blob:look.png''"
    by (simp add: test_platform_def sample_file_def)
  have n: "\<not> inFlight idle_hook" by (simp add: idle_hook_def)
  have b: "inFlight (idle_hook\<lparr>inFlight := True\<rparr>)" by simp
  from object_url_released[of idle_hook quota_world test_platform sample_file] n u
  obtain mid where
    "new_events (glob idle_hook)
         (glob (snd (run quota_world (generateOutfitTransfer test_platform sample_file idle_hook))))
      = EvCreateObjectURL ''blob:look.png'' # mid @ [EvRevokeObjectURL ''blob:look.png'']"
    by auto
  then show ?thesis
    using object_url_released[of "idle_hook\<lparr>inFlight := True\<rparr>" quota_world test_platform sample_file] b
    by simp
qed

section \<open>The session cache\<close>

text \<open>
  A hit returns at once; an image a callback shows is the one it cached under its key.
\<close>

lemma invoke_hit:
  assumes "\<not> inFlight h" "cacheRef h (hook_key c) = Some e"
  shows "\<exists>h'. invoke p c h = Return () h'
     \<and> generatedImage h' = Some (url e) \<and> error h' = None \<and> \<not> inFlight h'
     \<and> cacheRef h' = cacheRef h
     \<and> isComposite h' = (case c of CallOutfit t b \<Rightarrow> composite e | _ \<Rightarrow> False)
     \<and> trace (glob h') = trace (glob h)
          @ (case c of CallTransfer f \<Rightarrow> [EvCreateObjectURL (createObjectURL p f),
                                           EvRevokeObjectURL (createObjectURL p f)] | _ \<Rightarrow> [])"
  using assms
  by (cases c)
     (simp_all add: generateOutfit_def generateNanoOutfit_def generateOutfitTransfer_def Let_def)

lemma shows_cached_simps [simp]:
  "shows_cached k (hemit e h) = shows_cached k h"
  "shows_cached k (finish h) = shows_cached k h"
  "shows_cached k (caught l m h)"
  by (simp_all add: shows_cached_def)

lemma any_task: "task_inv (\<lambda>s. True) (\<lambda>a s. True) t"
  by (rule task_inv_trivial)

lemma shown_generateOutfit:
  "\<not> inFlight h \<Longrightarrow> task_inv (\<lambda>s. True)
      (\<lambda>a. shows_cached (''outfit::'' @ item_id top_item @ ''::'' @ item_id bottom_item))
      (generateOutfit p top_item bottom_item h)"
  unfolding generateOutfit_def Let_def
  by (auto split: sum.splits option.splits simp: shows_cached_def truthy_str_def
      intro!: task_inv_seq[where Q'="\<lambda>a s. True"] any_task)

lemma shown_generateNanoOutfit:
  "\<not> inFlight h \<Longrightarrow> task_inv (\<lambda>s. True) (\<lambda>a. shows_cached (''nano::'' @ occasion))
      (generateNanoOutfit p occasion h)"
  unfolding generateNanoOutfit_def Let_def
  by (auto split: sum.splits option.splits simp: shows_cached_def truthy_str_def
      intro!: task_inv_seq[where Q'="\<lambda>a s. True"] any_task)

lemma shown_generateOutfitTransfer:
  "\<not> inFlight h \<Longrightarrow> task_inv (\<lambda>s. True)
      (\<lambda>a. shows_cached (''transfer::'' @ file_name f @ ''::'' @ show_nat (file_size f)))
      (generateOutfitTransfer p f h)"
  unfolding generateOutfitTransfer_def Let_def
  by (auto split: sum.splits option.splits simp: shows_cached_def truthy_str_def
      intro!: task_inv_seq[where Q'="\<lambda>a s. True"] any_task)

lemma shown_invoke:
  "\<not> inFlight h \<Longrightarrow> shows_cached (hook_key c) (snd (run w (invoke p c h)))"
proof (cases c)
  case (CallOutfit t b)
  assume "\<not> inFlight h"
  then show ?thesis using task_inv_run[OF shown_generateOutfit[of h t b p], of w] CallOutfit by simp
next
  case (CallNano occ)
  assume "\<not> inFlight h"
  then show ?thesis using task_inv_run[OF shown_generateNanoOutfit[of h occ p], of w] CallNano by simp
next
  case (CallTransfer f)
  assume "\<not> inFlight h"
  then show ?thesis
    using task_inv_run[OF shown_generateOutfitTransfer[of h f p], of w] CallTransfer by simp
qed

text \<open>An entry of \<open>cacheRef\<close> is never removed or replaced.\<close>

lemma keeps_entry:
  assumes "I h" and "\<And>h' g. I h' \<Longrightarrow> I (h'\<lparr>glob := g\<rparr>)"
  shows "task_inv I (\<lambda>a. I) (uploadAndRecord p pre src u h)"
  unfolding uploadAndRecord_def
  using assms
  by (auto split: sum.splits intro!: task_inv_seq[where Q'="\<lambda>a. I"] lift_keeps)

lemma stable_generateOutfit:
  assumes "cacheRef h k = Some e"
  shows "task_inv (\<lambda>h. cacheRef h k = Some e) (\<lambda>a h. cacheRef h k = Some e)
      (generateOutfit p top_item bottom_item h)"
proof (cases "inFlight h \<or> cacheRef h (''outfit::'' @ item_id top_item @ ''::'' @ item_id bottom_item) \<noteq> None
                \<or> \<not> allowed (canMakeCall p)")
  case True
  show ?thesis
  proof (cases "inFlight h")
    case True then show ?thesis using assms by (simp add: generateOutfit_def)
  next
    case nf: False
    show ?thesis
    proof (cases "cacheRef h (''outfit::'' @ item_id top_item @ ''::'' @ item_id bottom_item)")
      case (Some c) then show ?thesis using assms nf by (simp add: generateOutfit_def Let_def)
    next
      case None then show ?thesis using assms nf True by (simp add: generateOutfit_def Let_def)
    qed
  qed
next
  case False
  then have ne: "''outfit::'' @ item_id top_item @ ''::'' @ item_id bottom_item \<noteq> k"
    using assms by auto
  show ?thesis
    using False assms
    unfolding generateOutfit_def Let_def
    by (simp add: ne[symmetric] del: append.simps)
       (auto split: sum.splits simp: ne[symmetric] simp del: append.simps
          intro!: task_inv_seq[where Q'="\<lambda>a h. cacheRef h k = Some e"] lift_keeps)
qed

lemma stable_generateNanoOutfit:
  assumes "cacheRef h k = Some e"
  shows "task_inv (\<lambda>h. cacheRef h k = Some e) (\<lambda>a h. cacheRef h k = Some e)
      (generateNanoOutfit p occasion h)"
proof (cases "inFlight h \<or> cacheRef h (''nano::'' @ occasion) \<noteq> None \<or> \<not> allowed (canMakeCall p)")
  case True
  show ?thesis
  proof (cases "inFlight h")
    case True then show ?thesis using assms by (simp add: generateNanoOutfit_def)
  next
    case nf: False
    show ?thesis
    proof (cases "cacheRef h (''nano::'' @ occasion)")
      case (Some c) then show ?thesis using assms nf by (simp add: generateNanoOutfit_def Let_def)
    next
      case None then show ?thesis using assms nf True by (simp add: generateNanoOutfit_def Let_def)
    qed
  qed
next
  case False
  then have ne: "''nano::'' @ occasion \<noteq> k"
    using assms by auto
  show ?thesis
    using False assms
    unfolding generateNanoOutfit_def Let_def
    by (simp add: ne[symmetric] del: append.simps)
       (auto split: sum.splits simp: ne[symmetric] simp del: append.simps
          intro!: task_inv_seq[where Q'="\<lambda>a h. cacheRef h k = Some e"] lift_keeps keeps_entry)
qed

lemma stable_generateOutfitTransfer:
  assumes "cacheRef h k = Some e"
  shows "task_inv (\<lambda>h. cacheRef h k = Some e) (\<lambda>a h. cacheRef h k = Some e)
      (generateOutfitTransfer p f h)"
proof (cases "inFlight h \<or> cacheRef h (''transfer::'' @ file_name f @ ''::'' @ show_nat (file_size f)) \<noteq> None \<or> \<not> allowed (canMakeCall p)")
  case True
  show ?thesis
  proof (cases "inFlight h")
    case True then show ?thesis using assms by (simp add: generateOutfitTransfer_def)
  next
    case nf: False
    show ?thesis
    proof (cases "cacheRef h (''transfer::'' @ file_name f @ ''::'' @ show_nat (file_size f))")
      case (Some c) then show ?thesis using assms nf by (simp add: generateOutfitTransfer_def Let_def)
    next
      case None then show ?thesis using assms nf True by (simp add: generateOutfitTransfer_def Let_def)
    qed
  qed
next
  case False
  then have ne: "''transfer::'' @ file_name f @ ''::'' @ show_nat (file_size f) \<noteq> k"
    using assms by auto
  show ?thesis
    using False assms
    unfolding generateOutfitTransfer_def Let_def
    by (simp add: ne[symmetric] del: append.simps)
       (auto split: sum.splits simp: ne[symmetric] simp del: append.simps
          intro!: task_inv_seq[where Q'="\<lambda>a h. cacheRef h k = Some e"] lift_keeps keeps_entry)
qed

lemma stable_invoke:
  assumes "cacheRef h k = Some e"
  shows "cacheRef (snd (run w (invoke p c h))) k = Some e"
proof (cases c)
  case (CallOutfit t b)
  have "cacheRef (snd (run w (generateOutfit p t b h))) k = Some e"
    by (rule task_inv_run[OF stable_generateOutfit[OF assms]])
  then show ?thesis unfolding CallOutfit invoke.simps .
next
  case (CallNano occ)
  have "cacheRef (snd (run w (generateNanoOutfit p occ h))) k = Some e"
    by (rule task_inv_run[OF stable_generateNanoOutfit[OF assms]])
  then show ?thesis unfolding CallNano invoke.simps .
next
  case (CallTransfer f)
  have "cacheRef (snd (run w (generateOutfitTransfer p f h))) k = Some e"
    by (rule task_inv_run[OF stable_generateOutfitTransfer[OF assms]])
  then show ?thesis unfolding CallTransfer invoke.simps .
qed

lemma idle_invoke:
  assumes "\<not> inFlight h"
  shows "\<not> inFlight (snd (run w (invoke p c h)))"
  by (rule task_inv_run[OF flag_invoke[OF assms]])

lemma session_Nil: "session [] h = h"
  by (simp add: session_def)

lemma session_Cons: "session ((p, w, c) # ops) h = session ops (snd (run w (invoke p c h)))"
  by (simp add: session_def)

lemma session_idle: "\<not> inFlight h \<Longrightarrow> \<not> inFlight (session ops h)"
proof (induction ops arbitrary: h)
  case Nil then show ?case by (simp add: session_Nil)
next
  case (Cons x ops)
  obtain p w c where x: "x = (p, w, c)" by (cases x)
  show ?case unfolding x session_Cons
    by (rule Cons.IH) (rule idle_invoke[OF Cons.prems])
qed

lemma session_stable: "cacheRef h k = Some e \<Longrightarrow> cacheRef (session ops h) k = Some e"
proof (induction ops arbitrary: h)
  case Nil then show ?case by (simp add: session_Nil)
next
  case (Cons x ops)
  obtain p w c where x: "x = (p, w, c)" by (cases x)
  show ?case unfolding x session_Cons
    by (rule Cons.IH) (rule stable_invoke[OF Cons.prems])
qed

text \<open>
  C6. For each mode: after a request that ended showing the URL \<open>u\<close>, and after any
  number of further completed operations of the session, a request with the same key
  returns without suspending, shows \<open>u\<close>, and calls neither the remote generator nor
  the rate limiter (no check, no recorded call).
\<close>

theorem cache_idempotence:
  assumes "\<not> inFlight h"
    and "generatedImage (snd (run w (invoke p c h))) = Some u"
    and "hook_key c' = hook_key c"
  shows "\<exists>h3. invoke p' c' (session ops (snd (run w (invoke p c h)))) = Return () h3
     \<and> generatedImage h3 = Some u
     \<and> error h3 = None
     \<and> remote_events (new_events (glob (session ops (snd (run w (invoke p c h))))) (glob h3)) = []
     \<and> EvRateCheck \<notin> set (new_events (glob (session ops (snd (run w (invoke p c h))))) (glob h3))
     \<and> EvRecordCall \<notin> set (new_events (glob (session ops (snd (run w (invoke p c h))))) (glob h3))"
proof -
  let ?h1 = "snd (run w (invoke p c h))"
  let ?h2 = "session ops ?h1"
  obtain e where e: "cacheRef ?h1 (hook_key c) = Some e" "url e = u"
    using shown_invoke[OF assms(1), of c w p] assms(2) by (auto simp: shows_cached_def)
  have i: "\<not> inFlight ?h2" using assms(1) by (simp add: idle_invoke session_idle)
  have k: "cacheRef ?h2 (hook_key c') = Some e" using e assms(3) by (simp add: session_stable)
  from invoke_hit[OF i k, of p'] obtain h3 where h3:
    "invoke p' c' ?h2 = Return () h3" "generatedImage h3 = Some (url e)" "error h3 = None"
    "trace (glob h3) = trace (glob ?h2)
          @ (case c' of CallTransfer f \<Rightarrow> [EvCreateObjectURL (createObjectURL p' f),
                                           EvRevokeObjectURL (createObjectURL p' f)] | _ \<Rightarrow> [])"
    by blast
  have "new_events (glob ?h2) (glob h3)
      = (case c' of CallTransfer f \<Rightarrow> [EvCreateObjectURL (createObjectURL p' f),
                                           EvRevokeObjectURL (createObjectURL p' f)] | _ \<Rightarrow> [])"
    using h3(4) by (rule new_events_append)
  then have "remote_events (new_events (glob ?h2) (glob h3)) = []
      \<and> EvRateCheck \<notin> set (new_events (glob ?h2) (glob h3))
      \<and> EvRecordCall \<notin> set (new_events (glob ?h2) (glob h3))"
    by (cases c') (simp_all add: remote_events_def)
  then show ?thesis using h3 e by blast
qed

section \<open>Runs of the hook on sample worlds\<close>

text \<open>
  The three callbacks as direct-style equations for a call that gets past the rate
  limiter, and their runs on the sample worlds.
\<close>

lemma uploadAndRecord_run:
  "run w (uploadAndRecord p pre src u h) =
     (if take 5 u = ''data:'' then
        (case hook_dataUrlToFile p u (pre @ show_nat (now p) @ ''.png'') of
           Inl e \<Rightarrow> (Inl e, h)
         | Inr fn \<Rightarrow>
             (case storage_upload w GENERATED fn of
                SbError e \<Rightarrow>
                  (Inl e, h\<lparr>glob := log_line ''Error uploading image:''
                                      (emit (EvUpload GENERATED fn) (glob h))\<rparr>)
              | SbData path \<Rightarrow>
                  (case db_insert w (publicUrl p path) src of
                     SbError e \<Rightarrow>
                       (Inl e, h\<lparr>glob := log_line ''Error saving generated outfit:''
                          (emit (EvInsert (publicUrl p path) src) (emit (EvUpload GENERATED fn) (glob h)))\<rparr>)
                   | SbData x \<Rightarrow>
                       (Inr (publicUrl p path),
                        h\<lparr>glob := emit (EvInsert (publicUrl p path) src)
                                     (emit (EvUpload GENERATED fn) (glob h))\<rparr>))))
      else
        (case db_insert w u src of
           SbError e \<Rightarrow>
             (Inl e, h\<lparr>glob := log_line ''Error saving generated outfit:'' (emit (EvInsert u src) (glob h))\<rparr>)
         | SbData x \<Rightarrow> (Inr u, h\<lparr>glob := emit (EvInsert u src) (glob h)\<rparr>)))"
  unfolding uploadAndRecord_def
  by (simp add: run_bind run_lift uploadImage_run saveGeneratedOutfit_run
      split: sum.split sb_response.split)

lemma generateNanoOutfit_run:
  assumes "\<not> inFlight h" "cacheRef h (''nano::'' @ occasion) = None" "allowed (canMakeCall p)"
  shows "run w (generateNanoOutfit p occasion h) =
     (let h1 = hemit EvGetStatus (hemit EvRecordCall
                 ((hemit EvRateCheck (h\<lparr>inFlight := True\<rparr>))
                    \<lparr>isGenerating := True, error := None, isComposite := False\<rparr>));
          failed = (\<lambda>h. ((), finish (caught ''Failed to generate nano outfit:''
                              ''Failed to generate nano outfit. Please try again.'' h)))
      in case run w (generateNanoOutfitInternal p DEFAULT_BODY_PATH (nanoPrompt occasion) (glob h1)) of
           (Inl e, g1) \<Rightarrow> failed (h1\<lparr>glob := g1\<rparr>)
         | (Inr result, g1) \<Rightarrow>
             if success result \<and> truthy_str (imageUrl result) then
               (case run w (uploadAndRecord p ''nano_'' ''nano'' (the (imageUrl result)) (h1\<lparr>glob := g1\<rparr>)) of
                  (Inl e, h2) \<Rightarrow> failed h2
                | (Inr finalUrl, h2) \<Rightarrow>
                    ((), finish (h2\<lparr>generatedImage := Some finalUrl, isComposite := False,
                           cacheRef := (cacheRef h2)(''nano::'' @ occasion \<mapsto>
                              \<lparr>url = finalUrl, composite = False\<rparr>)\<rparr>)))
             else failed (h1\<lparr>glob := g1\<rparr>))"
  using assms
  unfolding generateNanoOutfit_def Let_def OutfitGenerator_generateNanoOutfit_def
  by (simp add: run_bind run_lift split: sum.split prod.split del: append.simps)

lemma extractImage_image [simp]: "d \<noteq> [] \<Longrightarrow> extractImage [image_part d] = Inr (''data:image/png;base64,'' @ d)"
  by (simp add: extractImage_def image_part_def truthy_str_def)

lemma idle_facts:
  "\<not> inFlight idle_hook" "cacheRef idle_hook k = None" "glob idle_hook = empty_globals"
  by (simp_all add: idle_hook_def)

lemma test_platform_facts:
  "allowed (canMakeCall test_platform)" "apiKey test_platform \<noteq> []"
  "atob_ok test_platform x" "publicUrl test_platform path = ''https://storage/'' @ path"
  by (simp_all add: test_platform_def)

lemma good_world_facts:
  "remote (good_world d) n = Inr [image_part d]"
  "fetch (good_world d) ps = Some (map (\<lambda>x. ''AAAA'') ps)"
  "storage_upload (good_world d) bk fn = SbData fn"
  "db_insert (good_world d) u src = SbData ()"
  "db_upsert (good_world d) t b u = SbData ()"
  "db_select (good_world d) t b = SbData None"
  by (simp_all add: good_world_def quota_world_def)

lemma nano_service_good:
  "d \<noteq> [] \<Longrightarrow> nanoCache g (nano_key DEFAULT_BODY_PATH (nanoPrompt occ)) = None \<Longrightarrow>
   run (good_world d) (generateNanoOutfitInternal test_platform DEFAULT_BODY_PATH (nanoPrompt occ) g)
   = (Inr (ok_result (''data:image/png;base64,'' @ d)),
      (emit (EvRemote 0) (emit (EvFetch [DEFAULT_BODY_PATH]) g))
        \<lparr>nanoCache := (nanoCache g)(nano_key DEFAULT_BODY_PATH (nanoPrompt occ)
             \<mapsto> ''data:image/png;base64,'' @ d)\<rparr>)"
  by (simp add: nano_run loop_unrolled test_platform_facts good_world_facts emit_def)

lemma data_url_payload:
  "hook_dataUrlToFile test_platform u fn = Inr fn"
  by (simp add: hook_dataUrlToFile_def test_platform_facts Let_def)

lemma nano_good_shown:
  "generatedImage (snd (run (good_world ''AAAA'') (invoke test_platform (CallNano ''a party'') idle_hook)))
     = Some (''https://storage/nano_'' @ show_nat (now test_platform) @ ''.png'')"
  by (simp add: generateNanoOutfit_run idle_facts test_platform_facts Let_def
      nano_service_good empty_globals_def uploadAndRecord_run data_url_payload
      good_world_facts ok_result_def truthy_str_def hemit_def emit_def)

theorem cache_idempotence_witness:
  "generatedImage (task_state (invoke deny_platform (CallNano ''a party'')
       (snd (run (good_world ''AAAA'') (invoke test_platform (CallNano ''a party'') idle_hook)))))
     = Some (''https://storage/nano_'' @ show_nat (now test_platform) @ ''.png'')"
proof -
  have k: "hook_key (CallNano ''a party'') = hook_key (CallNano ''a party'')" by simp
  from cache_idempotence[OF idle_facts(1) nano_good_shown k, of deny_platform "[]"]
  show ?thesis by (auto simp: session_Nil)
qed

lemma generateOutfit_run:
  assumes "\<not> inFlight h"
    "cacheRef h (''outfit::'' @ item_id top_item @ ''::'' @ item_id bottom_item) = None"
    "allowed (canMakeCall p)"
  shows "run w (generateOutfit p top_item bottom_item h) =
     (let h1 = hemit EvGetStatus (hemit EvRecordCall
                 ((hemit EvRateCheck (h\<lparr>inFlight := True\<rparr>))
                    \<lparr>isGenerating := True, error := None, isComposite := False\<rparr>));
          key = ''outfit::'' @ item_id top_item @ ''::'' @ item_id bottom_item;
          failed = (\<lambda>h. ((), finish (caught ''Failed to generate outfit:''
                              ''Failed to generate outfit. Please try again.'' h)))
      in case run w (generateOutfitInternal p (item_imageUrl top_item) (item_imageUrl bottom_item)
                       DEFAULT_BODY_PATH (Some (item_id top_item)) (Some (item_id bottom_item)) (glob h1)) of
           (Inl e, g1) \<Rightarrow> failed (h1\<lparr>glob := g1\<rparr>)
         | (Inr result, g1) \<Rightarrow>
             if success result \<and> truthy_str (imageUrl result) then
               ((), finish (h1\<lparr>glob := g1, generatedImage := imageUrl result, isComposite := False,
                      cacheRef := (cacheRef h1)(key \<mapsto> \<lparr>url = the (imageUrl result), composite = False\<rparr>)\<rparr>))
             else
               (let h2 = hemit (EvComposite (item_imageUrl top_item) (item_imageUrl bottom_item))
                           (h1\<lparr>glob := g1\<rparr>)
                in case createComposite w (item_imageUrl top_item) (item_imageUrl bottom_item) of
                     Inl e \<Rightarrow> failed h2
                   | Inr compositeResult \<Rightarrow>
                       if success compositeResult \<and> truthy_str (imageUrl compositeResult) then
                         ((), finish (h2\<lparr>generatedImage := imageUrl compositeResult,
                            isComposite := True,
                            error := Some ''Using composite image (AI generation unavailable)'',
                            cacheRef := (cacheRef h2)(key \<mapsto>
                               \<lparr>url = the (imageUrl compositeResult), composite = True\<rparr>)\<rparr>))
                       else failed h2))"
  using assms
  unfolding generateOutfit_def Let_def OutfitGenerator_generateOutfit_def
  by (simp add: run_bind run_lift split: sum.split prod.split del: append.simps)

lemma generateOutfitTransfer_run:
  assumes "\<not> inFlight h"
    "cacheRef h (''transfer::'' @ file_name f @ ''::'' @ show_nat (file_size f)) = None"
    "allowed (canMakeCall p)"
  shows "run w (generateOutfitTransfer p f h) =
     (let u = createObjectURL p f;
          h1 = hemit EvGetStatus (hemit EvRecordCall
                 ((hemit EvRateCheck (hemit (EvCreateObjectURL u) (h\<lparr>inFlight := True\<rparr>)))
                    \<lparr>isGenerating := True, error := None, isComposite := False\<rparr>));
          key = ''transfer::'' @ file_name f @ ''::'' @ show_nat (file_size f);
          failed = (\<lambda>h. ((), hemit (EvRevokeObjectURL u) (finish (caught ''Failed to transfer outfit:''
                              ''Failed to transfer outfit. Please try again.'' h))))
      in case run w (generateOutfitTransferInternal p u DEFAULT_BODY_PATH (glob h1)) of
           (Inl e, g1) \<Rightarrow> failed (h1\<lparr>glob := g1\<rparr>)
         | (Inr result, g1) \<Rightarrow>
             if success result \<and> truthy_str (imageUrl result) then
               (case run w (uploadAndRecord p ''transfer_'' ''transfer'' (the (imageUrl result))
                              (h1\<lparr>glob := g1\<rparr>)) of
                  (Inl e, h2) \<Rightarrow> failed h2
                | (Inr finalUrl, h2) \<Rightarrow>
                    ((), hemit (EvRevokeObjectURL u)
                           (finish (h2\<lparr>generatedImage := Some finalUrl, isComposite := False,
                              cacheRef := (cacheRef h2)(key \<mapsto> \<lparr>url = finalUrl, composite = False\<rparr>)\<rparr>))))
             else failed (h1\<lparr>glob := g1\<rparr>))"
  using assms
  unfolding generateOutfitTransfer_def Let_def OutfitGenerator_generateOutfitTransfer_def
  by (simp add: run_bind run_lift split: sum.split prod.split del: append.simps)

lemma upload_fails_facts:
  "remote upload_fails_world n = Inr [image_part ''AAAA'']"
  "fetch upload_fails_world ps = Some (map (\<lambda>x. ''AAAA'') ps)"
  "storage_upload upload_fails_world bk fn = SbError ''bucket unavailable''"
  "db_select upload_fails_world t b = SbData None"
  by (simp_all add: upload_fails_world_def good_world_def quota_world_def)

lemma saveToStorage_always_succeeds:
  "fst (run w (saveToStorage p t b d g)) = ok_result d
   \<or> (\<exists>fn path. storage_upload w GENERATED fn = SbData path
         \<and> db_upsert w t b (publicUrl p path) = SbData ()
         \<and> fst (run w (saveToStorage p t b d g)) = ok_result (publicUrl p path))"
  by (auto simp: saveToStorage_run split: sum.splits sb_response.splits)

lemma nano_service_upload_fails:
  "nanoCache g (nano_key DEFAULT_BODY_PATH (nanoPrompt occ)) = None \<Longrightarrow>
   run upload_fails_world (generateNanoOutfitInternal test_platform DEFAULT_BODY_PATH (nanoPrompt occ) g)
   = (Inr (ok_result ''data:image/png;base64,AAAA''),
      (emit (EvRemote 0) (emit (EvFetch [DEFAULT_BODY_PATH]) g))
        \<lparr>nanoCache := (nanoCache g)(nano_key DEFAULT_BODY_PATH (nanoPrompt occ)
             \<mapsto> ''data:image/png;base64,AAAA'')\<rparr>)"
  by (simp add: nano_run loop_unrolled test_platform_facts upload_fails_facts emit_def)

lemma transfer_service_upload_fails:
  "transferCache g (transfer_key u DEFAULT_BODY_PATH) = None \<Longrightarrow>
   run upload_fails_world (generateOutfitTransferInternal test_platform u DEFAULT_BODY_PATH g)
   = (Inr (ok_result ''data:image/png;base64,AAAA''),
      (emit (EvRemote 0) (emit (EvFetch [DEFAULT_BODY_PATH, u]) g))
        \<lparr>transferCache := (transferCache g)(transfer_key u DEFAULT_BODY_PATH
             \<mapsto> ''data:image/png;base64,AAAA'')\<rparr>)"
  by (simp add: transfer_run loop_unrolled test_platform_facts upload_fails_facts emit_def)

lemma outfit_service_upload_fails:
  "outfitCache g (cacheKeyFor tp bp DEFAULT_BODY_PATH buildPrompt) = None \<Longrightarrow>
   fst (run upload_fails_world (generateOutfitInternal test_platform tp bp DEFAULT_BODY_PATH
          (Some ''t1'') (Some ''b1'') g))
   = Inr (ok_result ''data:image/png;base64,AAAA'')"
  by (simp add: outfit_run has_ids_def truthy_str_def getCachedComposite_run loop_unrolled
      test_platform_facts upload_fails_facts emit_def log_line_def saveToStorage_run
      dataUrlToFile_def split: prod.splits)

text \<open>
  C2. The remote generation succeeds and the blob upload fails. In the nano and the
  transfer mode the hook ends with the visible error of its \<open>catch\<close> block and no image;
  in the paired mode the service catches the failure and the hook shows the data URL.
\<close>

theorem persistence_failure_surfaces:
  "error (snd (run upload_fails_world (invoke test_platform (CallNano ''a party'') idle_hook)))
     = Some ''Failed to generate nano outfit. Please try again.''
   \<and> generatedImage (snd (run upload_fails_world (invoke test_platform (CallNano ''a party'') idle_hook)))
     = None
   \<and> error (snd (run upload_fails_world (invoke test_platform (CallTransfer sample_file) idle_hook)))
     = Some ''Failed to transfer outfit. Please try again.''
   \<and> generatedImage (snd (run upload_fails_world (invoke test_platform (CallTransfer sample_file) idle_hook)))
     = None
   \<and> generatedImage (snd (run upload_fails_world (invoke test_platform (CallOutfit shirt jeans) idle_hook)))
     = Some ''data:image/png;base64,AAAA''
   \<and> error (snd (run upload_fails_world (invoke test_platform (CallOutfit shirt jeans) idle_hook)))
     = None"
proof -
  have n: "snd (run upload_fails_world (invoke test_platform (CallNano ''a party'') idle_hook))
      = snd (run upload_fails_world (generateNanoOutfit test_platform ''a party'' idle_hook))" by simp
  have nano: "error (snd (run upload_fails_world (generateNanoOutfit test_platform ''a party'' idle_hook)))
     = Some ''Failed to generate nano outfit. Please try again.''
     \<and> generatedImage (snd (run upload_fails_world (generateNanoOutfit test_platform ''a party'' idle_hook)))
     = None"
    by (simp add: generateNanoOutfit_run idle_facts test_platform_facts Let_def
        nano_service_upload_fails empty_globals_def uploadAndRecord_run data_url_payload
        upload_fails_facts ok_result_def truthy_str_def hemit_def emit_def)
  have transfer: "error (snd (run upload_fails_world (generateOutfitTransfer test_platform sample_file idle_hook)))
     = Some ''Failed to transfer outfit. Please try again.''
     \<and> generatedImage (snd (run upload_fails_world (generateOutfitTransfer test_platform sample_file idle_hook)))
     = None"
    by (simp add: generateOutfitTransfer_run idle_facts test_platform_facts Let_def
        transfer_service_upload_fails empty_globals_def uploadAndRecord_run data_url_payload
        upload_fails_facts ok_result_def truthy_str_def hemit_def emit_def)
  have svc: "fst (run upload_fails_world (generateOutfitInternal test_platform (item_imageUrl shirt)
          (item_imageUrl jeans) DEFAULT_BODY_PATH (Some (item_id shirt)) (Some (item_id jeans))
          (emit EvGetStatus (emit EvRecordCall (emit EvRateCheck empty_globals)))))
       = Inr (ok_result ''data:image/png;base64,AAAA'')"
    using outfit_service_upload_fails[of "emit EvGetStatus (emit EvRecordCall (emit EvRateCheck empty_globals))"
        "item_imageUrl shirt" "item_imageUrl jeans"]
    by (simp add: shirt_def jeans_def emit_def empty_globals_def)
  have outfit: "generatedImage (snd (run upload_fails_world (generateOutfit test_platform shirt jeans idle_hook)))
     = Some ''data:image/png;base64,AAAA''
     \<and> error (snd (run upload_fails_world (generateOutfit test_platform shirt jeans idle_hook))) = None"
  proof -
    obtain g1 where r: "run upload_fails_world (generateOutfitInternal test_platform (item_imageUrl shirt)
          (item_imageUrl jeans) DEFAULT_BODY_PATH (Some (item_id shirt)) (Some (item_id jeans))
          (emit EvGetStatus (emit EvRecordCall (emit EvRateCheck empty_globals))))
       = (Inr (ok_result ''data:image/png;base64,AAAA''), g1)"
      using svc by (metis prod.collapse)
    show ?thesis
      by (simp add: generateOutfit_run idle_facts test_platform_facts Let_def hemit_def r
          ok_result_def truthy_str_def finish_def)
  qed
  show ?thesis using nano transfer outfit by simp
qed

lemma nano_key_same_length:
  "length a = length b \<Longrightarrow> nano_key body (nanoPrompt a) = nano_key body (nanoPrompt b)"
  by (simp add: nano_key_def nanoPrompt_def)

lemma hook_key_nano_inj: "hook_key (CallNano a) = hook_key (CallNano b) \<longleftrightarrow> a = b"
  by simp

text \<open>
  C4. Two occasion texts of the same length have the same key in the service's memory
  map: after \<open>party\<close> has been generated, the request for \<open>beach\<close> is answered from
  that map with the image of \<open>party\<close>, without any awaited call.
\<close>

theorem nano_service_key_collision:
  "nano_key DEFAULT_BODY_PATH (nanoPrompt ''party'') = nano_key DEFAULT_BODY_PATH (nanoPrompt ''beach'')
   \<and> fst (run (good_world ''BEACH'')
        (OutfitGenerator_generateNanoOutfit test_platform ''beach'' DEFAULT_BODY_PATH
          (snd (run (good_world ''PARTY'')
             (OutfitGenerator_generateNanoOutfit test_platform ''party'' DEFAULT_BODY_PATH empty_globals)))))
     = Inr (ok_result ''data:image/png;base64,PARTY'')
   \<and> new_events
        (snd (run (good_world ''PARTY'')
             (OutfitGenerator_generateNanoOutfit test_platform ''party'' DEFAULT_BODY_PATH empty_globals)))
        (snd (run (good_world ''BEACH'')
        (OutfitGenerator_generateNanoOutfit test_platform ''beach'' DEFAULT_BODY_PATH
          (snd (run (good_world ''PARTY'')
             (OutfitGenerator_generateNanoOutfit test_platform ''party'' DEFAULT_BODY_PATH empty_globals))))))
     = []"
proof -
  have k: "nano_key DEFAULT_BODY_PATH (nanoPrompt ''party'') = nano_key DEFAULT_BODY_PATH (nanoPrompt ''beach'')"
    by (rule nano_key_same_length) simp
  have first: "run (good_world ''PARTY'')
       (OutfitGenerator_generateNanoOutfit test_platform ''party'' DEFAULT_BODY_PATH empty_globals)
     = (Inr (ok_result ''data:image/png;base64,PARTY''),
        (emit (EvRemote 0) (emit (EvFetch [DEFAULT_BODY_PATH]) empty_globals))
          \<lparr>nanoCache := (nanoCache empty_globals)(nano_key DEFAULT_BODY_PATH (nanoPrompt ''party'')
             \<mapsto> ''data:image/png;base64,'' @ ''PARTY'')\<rparr>)"
    unfolding OutfitGenerator_generateNanoOutfit_def
    by (subst nano_service_good) (simp_all add: empty_globals_def)
  show ?thesis
    unfolding first snd_conv
    unfolding OutfitGenerator_generateNanoOutfit_def
    by (simp add: nano_run k[symmetric] test_platform_facts new_events_def)
qed

section \<open>The paired selection: durable hits and the composite fallback\<close>

text \<open>
  Which events tell that a paired request got past the rate limiter, that the service
  performed the durable lookup, and that the hook ran the compositing fallback.
\<close>

lemma new_events_same [simp]: "new_events g (log_line m g) = []"
  by (simp add: new_events_def)

lemma outfit_event_reached:
  assumes "e \<in> set (new_events (glob h)
             (glob (snd (run w (generateOutfit p top_item bottom_item h)))))"
    and "e \<noteq> EvRateCheck"
  shows "\<not> inFlight h \<and> cacheRef h (outfit_key top_item bottom_item) = None \<and> allowed (canMakeCall p)"
proof -
  let ?c = "CallOutfit top_item bottom_item"
  have k: "hook_key ?c = outfit_key top_item bottom_item" by (simp add: outfit_key_def)
  have f: "\<not> inFlight h"
  proof
    assume "inFlight h"
    then have "generateOutfit p top_item bottom_item h = Return () (hlog IN_FLIGHT_WARNING h)"
      using invoke_in_flight[of h p ?c] by simp
    then show False using assms(1) by simp
  qed
  have m: "cacheRef h (outfit_key top_item bottom_item) = None"
  proof (cases "cacheRef h (outfit_key top_item bottom_item)")
    case None then show ?thesis .
  next
    case (Some c)
    then have "cacheRef h (hook_key ?c) = Some c" by (simp only: k)
    from invoke_hit[OF f this, of p] obtain h' where
      "invoke p ?c h = Return () h'" "trace (glob h') = trace (glob h) @ []"
      by auto
    then have "new_events (glob h) (glob (snd (run w (generateOutfit p top_item bottom_item h)))) = []"
      by (simp add: new_events_def)
    then show ?thesis using assms(1) by simp
  qed
  have a: "allowed (canMakeCall p)"
  proof (rule ccontr)
    assume d: "\<not> allowed (canMakeCall p)"
    have "cacheRef h (hook_key ?c) = None" using m by (simp only: k)
    from invoke_denied[OF f this d] obtain h' where
      "invoke p ?c h = Return () h'" "trace (glob h') = trace (glob h) @ [EvRateCheck]"
      by auto
    then have "new_events (glob h) (glob (snd (run w (generateOutfit p top_item bottom_item h))))
        = [EvRateCheck]"
      by (simp add: new_events_def)
    then show False using assms by simp
  qed
  show ?thesis using f m a by simp
qed

lemma outfit_service_events:
  obtains evs where
    "trace (snd (run w (generateOutfitInternal p tp bp body ti bi g))) = trace g @ evs"
    "list_all svc_event evs"
proof -
  have "grows_by svc_event (trace g) (snd (run w (generateOutfitInternal p tp bp body ti bi g)))"
    by (rule task_inv_run[OF inv_outfit[OF grows_refl]])
  then show ?thesis using that unfolding grows_by_def by blast
qed

lemma loop_light:
  obtains evs where "trace (snd (run w (callWithRetry p c 0 g))) = trace g @ evs"
    and "list_all light_event evs"
proof -
  have "\<exists>evs. trace (snd (run w (callWithRetry p c 0 g))) = trace g @ evs \<and> list_all light_event evs"
    by (auto simp: loop_unrolled split: sum.splits)
  then show ?thesis using that by blast
qed

lemma outfit_service_no_lookup:
  assumes "apiKey p = [] \<or> \<not> has_ids ti bi"
  shows "\<exists>evs. trace (snd (run w (generateOutfitInternal p tp bp body ti bi g))) = trace g @ evs
           \<and> list_all light_event evs"
proof (cases "apiKey p = []")
  case True
  then show ?thesis by (simp add: outfit_run)
next
  case k: False
  then have n: "\<not> has_ids ti bi" using assms by simp
  have st: "(if has_ids ti bi then run w (getCachedComposite (the ti) (the bi) g) else (None, g))
              = (None, g)"
    using n by simp
  note rn = outfit_run_from[OF st k, of tp bp body]
  show ?thesis
  proof (cases "outfitCache g (cacheKeyFor tp bp body buildPrompt)")
    case (Some d)
    then show ?thesis using n by (simp add: rn)
  next
    case None
    show ?thesis
    proof (cases "fetch w [tp, bp, body]")
      case fn: None
      then show ?thesis using n None by (simp add: rn)
    next
      case (Some b64)
      obtain evs where evs:
        "trace (snd (run w (callWithRetry p (buildPrompt # b64) 0 (emit (EvFetch [tp, bp, body]) g))))
           = trace (emit (EvFetch [tp, bp, body]) g) @ evs"
        "list_all light_event evs"
        using loop_light by blast
      obtain lr g1 where l:
        "run w (callWithRetry p (buildPrompt # b64) 0 (emit (EvFetch [tp, bp, body]) g)) = (lr, g1)"
        by (cases "run w (callWithRetry p (buildPrompt # b64) 0 (emit (EvFetch [tp, bp, body]) g))")
      have "trace g1 = trace g @ (EvFetch [tp, bp, body] # evs)" using evs(1) l by simp
      moreover have "list_all light_event (EvFetch [tp, bp, body] # evs)" using evs(2) by simp
      moreover have "trace (snd (run w (generateOutfitInternal p tp bp body ti bi g))) = trace g1"
        using n None Some l by (simp add: rn split: sum.splits)
      ultimately show ?thesis by metis
    qed
  qed
qed

lemma outfit_hook_tail:
  assumes "\<not> inFlight h" "cacheRef h (outfit_key top_item bottom_item) = None" "allowed (canMakeCall p)"
  shows "\<exists>tail. trace (glob (snd (run w (generateOutfit p top_item bottom_item h))))
      = trace (snd (run w (generateOutfitInternal p (item_imageUrl top_item) (item_imageUrl bottom_item)
           DEFAULT_BODY_PATH (Some (item_id top_item)) (Some (item_id bottom_item))
           (emit EvGetStatus (emit EvRecordCall (emit EvRateCheck (glob h))))))) @ tail
      \<and> (tail = [] \<or> tail = [EvComposite (item_imageUrl top_item) (item_imageUrl bottom_item)])"
  using assms
  by (simp add: generateOutfit_run outfit_key_def Let_def hemit_def
      split: prod.splits sum.splits)

lemma later_hit:
  assumes "\<not> inFlight h1"
    and "cacheRef h1 (outfit_key top_item bottom_item) = Some e"
    and "item_id top' = item_id top_item" and "item_id bottom' = item_id bottom_item"
  shows "\<exists>h3. generateOutfit p' top' bottom' (session ops h1) = Return () h3
     \<and> generatedImage h3 = Some (url e) \<and> isComposite h3 = composite e
     \<and> new_events (glob (session ops h1)) (glob h3) = []"
proof -
  let ?c = "CallOutfit top' bottom'"
  have i: "\<not> inFlight (session ops h1)" using assms(1) by (rule session_idle)
  have "hook_key ?c = outfit_key top_item bottom_item" using assms(3,4) by (simp add: outfit_key_def)
  then have k: "cacheRef (session ops h1) (hook_key ?c) = Some e"
    using session_stable[OF assms(2), of ops] by simp
  from invoke_hit[OF i k, of p'] obtain h3 where
    "invoke p' ?c (session ops h1) = Return () h3" "generatedImage h3 = Some (url e)"
    "isComposite h3 = composite e" "trace (glob h3) = trace (glob (session ops h1)) @ []"
    by auto
  then show ?thesis by (auto simp: new_events_def)
qed

text \<open>
  C8. When a paired request ran the compositing fallback (which it does only after the
  service returned no usable image) and the fallback succeeded with the URL \<open>cu\<close>, that
  URL is in the session cache under the key of the pair, marked as composite; after any
  further completed operations, a request for items with the same identifiers returns
  without suspending and shows \<open>cu\<close> as a composite, with no call at all.
\<close>

theorem composite_cached:
  assumes "EvComposite (item_imageUrl top_item) (item_imageUrl bottom_item)
             \<in> set (new_events (glob h) (glob (snd (run w (generateOutfit p top_item bottom_item h)))))"
    and "createComposite w (item_imageUrl top_item) (item_imageUrl bottom_item) = Inr compositeResult"
    and "success compositeResult" and "imageUrl compositeResult = Some cu" and "cu \<noteq> []"
    and "item_id top' = item_id top_item" and "item_id bottom' = item_id bottom_item"
  shows "cacheRef (snd (run w (generateOutfit p top_item bottom_item h))) (outfit_key top_item bottom_item)
           = Some \<lparr>url = cu, composite = True\<rparr>
     \<and> generatedImage (snd (run w (generateOutfit p top_item bottom_item h))) = Some cu
     \<and> isComposite (snd (run w (generateOutfit p top_item bottom_item h)))
     \<and> (\<exists>h3. generateOutfit p' top' bottom'
                 (session ops (snd (run w (generateOutfit p top_item bottom_item h)))) = Return () h3
            \<and> generatedImage h3 = Some cu \<and> isComposite h3
            \<and> new_events (glob (session ops (snd (run w (generateOutfit p top_item bottom_item h)))))
                 (glob h3) = [])"
proof -
  let ?h1 = "snd (run w (generateOutfit p top_item bottom_item h))"
  let ?G0 = "emit EvGetStatus (emit EvRecordCall (emit EvRateCheck (glob h)))"
  let ?svc = "run w (generateOutfitInternal p (item_imageUrl top_item) (item_imageUrl bottom_item)
           DEFAULT_BODY_PATH (Some (item_id top_item)) (Some (item_id bottom_item)) ?G0)"
  from outfit_event_reached[OF assms(1)]
  have pre: "\<not> inFlight h" "cacheRef h (outfit_key top_item bottom_item) = None" "allowed (canMakeCall p)"
    by simp_all
  note hr = generateOutfit_run[OF pre(1) pre(2)[unfolded outfit_key_def] pre(3), of w]
  obtain r g1 where svc: "?svc = (r, g1)" by (cases ?svc)
  obtain evs where evs: "trace g1 = trace ?G0 @ evs" "list_all svc_event evs"
    using outfit_service_events[of w p "item_imageUrl top_item" "item_imageUrl bottom_item"
        DEFAULT_BODY_PATH "Some (item_id top_item)" "Some (item_id bottom_item)" ?G0] svc
    by (metis snd_conv)
  have nc: "EvComposite (item_imageUrl top_item) (item_imageUrl bottom_item) \<notin> set evs"
    using evs(2) by (auto simp: list_all_iff)
  have fallback: "\<exists>result. r = Inr result \<and> \<not> (success result \<and> truthy_str (imageUrl result))"
  proof (rule ccontr)
    assume a: "\<not> ?thesis"
    have "trace (glob ?h1) = trace g1"
    proof (cases r)
      case (Inl e)
      then show ?thesis using svc by (simp add: hr Let_def hemit_def)
    next
      case (Inr result)
      then have "success result \<and> truthy_str (imageUrl result)" using a by simp
      then show ?thesis using svc Inr by (simp add: hr Let_def hemit_def)
    qed
    then have "trace (glob ?h1) = trace (glob h) @ ([EvRateCheck, EvRecordCall, EvGetStatus] @ evs)"
      using evs(1) by simp
    then have "new_events (glob h) (glob ?h1) = [EvRateCheck, EvRecordCall, EvGetStatus] @ evs"
      by (rule new_events_append)
    then show False using assms(1) nc by simp
  qed
  then obtain result where r: "r = Inr result" "\<not> (success result \<and> truthy_str (imageUrl result))"
    by blast
  have final: "cacheRef ?h1 (outfit_key top_item bottom_item) = Some \<lparr>url = cu, composite = True\<rparr>
     \<and> generatedImage ?h1 = Some cu \<and> isComposite ?h1 \<and> \<not> inFlight ?h1"
    using svc r assms(2-5)
    by (simp add: hr Let_def hemit_def truthy_str_def outfit_key_def)
  from later_hit[of ?h1 top_item bottom_item "\<lparr>url = cu, composite = True\<rparr>" top' bottom' p' ops]
    final assms(6,7)
  show ?thesis by simp
qed

text \<open>
  C3. When a paired request performs the durable lookup for its two identifiers and the
  lookup answers a stored URL \<open>u\<close>: the service returns \<open>{success: true, imageUrl: u}\<close>,
  the request makes no remote call, the session cache holds \<open>u\<close> under the key of the
  pair (\<open>outfit::<top id>::<bottom id>\<close>), and a later request for the same items in the
  session returns from that cache with no call, so without the durable lookup.
\<close>

theorem durable_hit:
  assumes "EvSelect (item_id top_item) (item_id bottom_item)
             \<in> set (new_events (glob h) (glob (snd (run w (generateOutfit p top_item bottom_item h)))))"
    and "db_select w (item_id top_item) (item_id bottom_item) = SbData (Some u)"
    and "u \<noteq> []"
  shows "fst (run w (OutfitGenerator_generateOutfit p (item_imageUrl top_item) (item_imageUrl bottom_item)
                DEFAULT_BODY_PATH (Some (item_id top_item)) (Some (item_id bottom_item)) g))
           = Inr \<lparr>success = True, imageUrl = Some u, res_error = None\<rparr>
     \<and> remote_events (new_events (glob h) (glob (snd (run w (generateOutfit p top_item bottom_item h))))) = []
     \<and> cacheRef (snd (run w (generateOutfit p top_item bottom_item h))) (outfit_key top_item bottom_item)
           = Some \<lparr>url = u, composite = False\<rparr>
     \<and> generatedImage (snd (run w (generateOutfit p top_item bottom_item h))) = Some u
     \<and> error (snd (run w (generateOutfit p top_item bottom_item h))) = None
     \<and> (\<exists>h3. generateOutfit p' top_item bottom_item
                 (session ops (snd (run w (generateOutfit p top_item bottom_item h)))) = Return () h3
            \<and> generatedImage h3 = Some u
            \<and> new_events (glob (session ops (snd (run w (generateOutfit p top_item bottom_item h)))))
                 (glob h3) = [])"
proof -
  let ?h1 = "snd (run w (generateOutfit p top_item bottom_item h))"
  let ?G0 = "emit EvGetStatus (emit EvRecordCall (emit EvRateCheck (glob h)))"
  let ?ti = "Some (item_id top_item)" and ?bi = "Some (item_id bottom_item)"
  let ?svc = "run w (generateOutfitInternal p (item_imageUrl top_item) (item_imageUrl bottom_item)
           DEFAULT_BODY_PATH ?ti ?bi ?G0)"
  from outfit_event_reached[OF assms(1)]
  have pre: "\<not> inFlight h" "cacheRef h (outfit_key top_item bottom_item) = None" "allowed (canMakeCall p)"
    by simp_all
  note hr = generateOutfit_run[OF pre(1) pre(2)[unfolded outfit_key_def] pre(3), of w]
  have cfg: "apiKey p \<noteq> [] \<and> has_ids ?ti ?bi"
  proof (rule ccontr)
    assume "\<not> ?thesis"
    then have "apiKey p = [] \<or> \<not> has_ids ?ti ?bi" by blast
    from outfit_service_no_lookup[OF this, of w "item_imageUrl top_item" "item_imageUrl bottom_item"
        DEFAULT_BODY_PATH ?G0]
    obtain evs where evs: "trace (snd ?svc) = trace ?G0 @ evs" "list_all light_event evs" by blast
    from outfit_hook_tail[OF pre, of w] obtain tail where tail:
      "trace (glob ?h1) = trace (snd ?svc) @ tail"
      "tail = [] \<or> tail = [EvComposite (item_imageUrl top_item) (item_imageUrl bottom_item)]"
      by blast
    have "trace (glob ?h1) = trace (glob h) @ ([EvRateCheck, EvRecordCall, EvGetStatus] @ evs @ tail)"
      using tail(1) evs(1) by simp
    then have "new_events (glob h) (glob ?h1) = [EvRateCheck, EvRecordCall, EvGetStatus] @ evs @ tail"
      by (rule new_events_append)
    moreover have "EvSelect (item_id top_item) (item_id bottom_item) \<notin> set evs"
      using evs(2) by (auto simp: list_all_iff)
    ultimately show False using assms(1) tail(2) by auto
  qed
  have svc: "\<And>g. run w (generateOutfitInternal p (item_imageUrl top_item) (item_imageUrl bottom_item)
           DEFAULT_BODY_PATH ?ti ?bi g)
       = (Inr (ok_result u), emit (EvSelect (item_id top_item) (item_id bottom_item)) g)"
    using cfg assms(2,3) by (simp add: outfit_run getCachedComposite_run truthy_str_def)
  have final: "cacheRef ?h1 (outfit_key top_item bottom_item) = Some \<lparr>url = u, composite = False\<rparr>
     \<and> generatedImage ?h1 = Some u \<and> error ?h1 = None \<and> \<not> inFlight ?h1
     \<and> trace (glob ?h1) = trace (glob h)
          @ [EvRateCheck, EvRecordCall, EvGetStatus, EvSelect (item_id top_item) (item_id bottom_item)]"
    using assms(3)
    by (simp add: hr svc Let_def hemit_def truthy_str_def outfit_key_def ok_result_def)
  then have "new_events (glob h) (glob ?h1)
      = [EvRateCheck, EvRecordCall, EvGetStatus, EvSelect (item_id top_item) (item_id bottom_item)]"
    using new_events_append by blast
  then have nr: "remote_events (new_events (glob h) (glob ?h1)) = []"
    by (simp add: remote_events_def)
  have r: "fst (run w (OutfitGenerator_generateOutfit p (item_imageUrl top_item) (item_imageUrl bottom_item)
                DEFAULT_BODY_PATH ?ti ?bi g))
           = Inr \<lparr>success = True, imageUrl = Some u, res_error = None\<rparr>"
    by (simp add: OutfitGenerator_generateOutfit_def svc ok_result_def)
  from later_hit[of ?h1 top_item bottom_item "\<lparr>url = u, composite = False\<rparr>" top_item bottom_item p' ops]
    final
  have "\<exists>h3. generateOutfit p' top_item bottom_item (session ops ?h1) = Return () h3
            \<and> generatedImage h3 = Some u
            \<and> new_events (glob (session ops ?h1)) (glob h3) = []"
    by auto
  then show ?thesis using r nr final by blast
qed

lemma item_facts:
  "item_id shirt = ''t1''" "item_id jeans = ''b1''"
  "item_imageUrl shirt = ''https://x/shirt.png''" "item_imageUrl jeans = ''https://x/jeans.png''"
  "outfit_key shirt jeans = ''outfit::t1::b1''"
  by (simp_all add: shirt_def jeans_def outfit_key_def)

lemma durable_world_facts:
  "db_select (durable_world u) t b = SbData (Some u)"
  by (simp add: durable_world_def)

lemma composite_world_facts:
  "db_select (composite_world cu) t b = SbData None"
  "fetch (composite_world cu) ps = Some (map (\<lambda>x. ''AAAA'') ps)"
  "remote (composite_world cu) 0 = Inl (quota_error_with_delay ''2.5s'')"
  "remote (composite_world cu) 1 = Inl plain_quota_error"
  "remote (composite_world cu) (Suc 0) = Inl plain_quota_error"
  "remote (composite_world cu) 2 = Inl plain_quota_error"
  "createComposite (composite_world cu) t b = Inr (ok_result cu)"
  by (simp_all add: composite_world_def quota_world_def)

lemma durable_run_trace:
  "trace (glob (snd (run (durable_world ''https://x/img.png'')
       (generateOutfit test_platform shirt jeans idle_hook))))
     = [EvRateCheck, EvRecordCall, EvGetStatus, EvSelect ''t1'' ''b1'']"
  by (simp add: generateOutfit_run idle_facts test_platform_facts item_facts Let_def hemit_def
      outfit_run has_ids_def truthy_str_def getCachedComposite_run durable_world_facts
      ok_result_def empty_globals_def emit_def)

theorem durable_hit_witness:
  "generatedImage (snd (run (durable_world ''https://x/img.png'')
       (generateOutfit test_platform shirt jeans idle_hook))) = Some ''https://x/img.png''
   \<and> cacheRef (snd (run (durable_world ''https://x/img.png'')
       (generateOutfit test_platform shirt jeans idle_hook))) ''outfit::t1::b1''
       = Some \<lparr>url = ''https://x/img.png'', composite = False\<rparr>
   \<and> remote_events (new_events (glob idle_hook) (glob (snd (run (durable_world ''https://x/img.png'')
       (generateOutfit test_platform shirt jeans idle_hook))))) = []"
proof -
  let ?w = "durable_world ''https://x/img.png''"
  have ev: "EvSelect (item_id shirt) (item_id jeans)
      \<in> set (new_events (glob idle_hook) (glob (snd (run ?w (generateOutfit test_platform shirt jeans idle_hook)))))"
    by (simp add: new_events_def durable_run_trace idle_facts empty_globals_def item_facts)
  have db: "db_select ?w (item_id shirt) (item_id jeans) = SbData (Some ''https://x/img.png'')"
    by (simp add: durable_world_facts)
  have ne: "''https://x/img.png'' \<noteq> []" by simp
  from durable_hit[OF ev db ne] show ?thesis by (simp add: item_facts)
qed

lemma composite_run_trace:
  "EvComposite ''https://x/shirt.png'' ''https://x/jeans.png''
     \<in> set (trace (glob (snd (run (composite_world ''blob:composite'')
       (generateOutfit test_platform shirt jeans idle_hook)))))"
  by (simp add: generateOutfit_run idle_facts test_platform_facts item_facts Let_def hemit_def
      outfit_run has_ids_def truthy_str_def getCachedComposite_run composite_world_facts
      loop_unrolled isQuota_samples gave_up_def fail_result_def
      ok_result_def empty_globals_def emit_def)

theorem composite_cached_witness:
  "generatedImage (task_state (generateOutfit deny_platform shirt jeans
       (snd (run (composite_world ''blob:composite'')
          (generateOutfit test_platform shirt jeans idle_hook))))) = Some ''blob:composite''
   \<and> isComposite (task_state (generateOutfit deny_platform shirt jeans
       (snd (run (composite_world ''blob:composite'')
          (generateOutfit test_platform shirt jeans idle_hook)))))
   \<and> cacheRef (snd (run (composite_world ''blob:composite'')
          (generateOutfit test_platform shirt jeans idle_hook))) ''outfit::t1::b1''
       = Some \<lparr>url = ''blob:composite'', composite = True\<rparr>"
proof -
  let ?w = "composite_world ''blob:composite''"
  have ev: "EvComposite (item_imageUrl shirt) (item_imageUrl jeans)
      \<in> set (new_events (glob idle_hook) (glob (snd (run ?w (generateOutfit test_platform shirt jeans idle_hook)))))"
    using composite_run_trace by (simp add: new_events_def idle_facts empty_globals_def item_facts)
  have cr: "createComposite ?w (item_imageUrl shirt) (item_imageUrl jeans) = Inr (ok_result ''blob:composite'')"
    "success (ok_result ''blob:composite'')" "imageUrl (ok_result ''blob:composite'') = Some ''blob:composite''"
    "''blob:composite'' \<noteq> []"
    by (simp_all add: composite_world_facts ok_result_def)
  from composite_cached[OF ev cr refl refl, of deny_platform "[]"]
  show ?thesis by (auto simp: item_facts session_Nil)
qed

end
